(* ===== verification/Prelude.thy ===== *)
theory Prelude
  imports Complex_Main "HOL-Library.AList" "HOL-Library.Char_ord" "HOL-Library.List_Lexorder"
begin

text \<open>
  What every component shares: JavaScript numbers and the untyped values a DynamoDB row or a
  GraphQL input can hold, the rounding of the evaluation code, key-value tables, and the
  state-and-exception commands in which the resolvers are written, with their
  weakest-precondition rules.
\<close>

named_theorems wp_rules \<open>weakest preconditions of commands\<close>
named_theorems run_rules \<open>inversion of successful runs\<close>

section \<open>JavaScript values\<close>

text \<open>
  A JavaScript number is a finite value or one of the three special values. Finite values are
  exact rationals: every double is one, comparisons agree, and the rounding of a single double
  operation is not modelled.
\<close>

datatype jsnum = Fin rat | PosInf | NegInf | NaN

fun js_lt :: "jsnum \<Rightarrow> jsnum \<Rightarrow> bool" where
  "js_lt NaN _ = False"
| "js_lt _ NaN = False"
| "js_lt (Fin a) (Fin b) = (a < b)"
| "js_lt NegInf y = (y \<noteq> NegInf)"
| "js_lt x PosInf = (x \<noteq> PosInf)"
| "js_lt _ _ = False"

definition js_le :: "jsnum \<Rightarrow> jsnum \<Rightarrow> bool" where
  "js_le x y \<longleftrightarrow> x \<noteq> NaN \<and> y \<noteq> NaN \<and> (js_lt x y \<or> x = y)"

fun is_finite :: "jsnum \<Rightarrow> bool" where
  "is_finite (Fin _) = True"
| "is_finite _ = False"

fun js_floor :: "jsnum \<Rightarrow> jsnum" where
  "js_floor (Fin a) = Fin (of_int \<lfloor>a\<rfloor>)"
| "js_floor x = x"

text \<open>\<open>Math.min\<close> and \<open>Math.max\<close> of two numbers: NaN wins.\<close>

definition js_min :: "jsnum \<Rightarrow> jsnum \<Rightarrow> jsnum" where
  "js_min x y = (if x = NaN \<or> y = NaN then NaN else if js_lt y x then y else x)"

definition js_max :: "jsnum \<Rightarrow> jsnum \<Rightarrow> jsnum" where
  "js_max x y = (if x = NaN \<or> y = NaN then NaN else if js_lt x y then y else x)"

lemma js_lt_Fin [simp]: "js_lt (Fin a) (Fin b) \<longleftrightarrow> a < b"
  by simp

lemma js_le_Fin [simp]: "js_le (Fin a) (Fin b) \<longleftrightarrow> a \<le> b"
  by (auto simp: js_le_def)

lemma js_le_NaN [simp]: "\<not> js_le NaN y" "\<not> js_le x NaN"
  by (simp_all add: js_le_def)

lemma js_lt_NaN_right [simp]: "\<not> js_lt x NaN"
  by (cases x) simp_all

lemma is_finite_iff: "is_finite x \<longleftrightarrow> (\<exists>q. x = Fin q)"
  by (cases x) simp_all

text \<open>
  The value of an attribute of a row or an input whose type the code does not trust
  (\<open>unknown\<close>): \<open>JUndef\<close> is an absent property.
\<close>

datatype jsval =
    JUndef
  | JNull
  | JBool bool
  | JNum jsnum
  | JStr string
  | JArr "jsval list"
  | JObj "(string \<times> jsval) list"

type_synonym jsobj = "(string \<times> jsval) list"

definition js_prop :: "jsobj \<Rightarrow> string \<Rightarrow> jsval" where
  "js_prop ob k = (case map_of ob k of None \<Rightarrow> JUndef | Some v \<Rightarrow> v)"

lemma js_prop_in: "js_prop ob k \<noteq> JUndef \<Longrightarrow> (k, js_prop ob k) \<in> set ob"
  by (auto simp: js_prop_def split: option.splits dest: map_of_SomeD)

lemma js_prop_distinct: "distinct (map fst ob) \<Longrightarrow> kv \<in> set ob \<Longrightarrow> js_prop ob (fst kv) = snd kv"
  unfolding js_prop_def by (metis map_of_is_SomeI option.case(2) prod.collapse)

fun is_str :: "jsval \<Rightarrow> bool" where
  "is_str (JStr _) = True"
| "is_str _ = False"

fun is_num :: "jsval \<Rightarrow> bool" where
  "is_num (JNum _) = True"
| "is_num _ = False"

fun is_bool :: "jsval \<Rightarrow> bool" where
  "is_bool (JBool _) = True"
| "is_bool _ = False"

text \<open>\<open>typeof v === "string" \<and> v\<close>: a string that is not empty.\<close>

definition nonempty_str :: "string option \<Rightarrow> bool" where
  "nonempty_str s \<longleftrightarrow> s \<noteq> None \<and> s \<noteq> Some ''''"

lemma nonempty_str_iff: "nonempty_str s \<longleftrightarrow> (\<exists>x. s = Some x \<and> x \<noteq> [])"
  by (cases s) (auto simp: nonempty_str_def)

section \<open>Rounding\<close>

text \<open>\<open>Math.round\<close> rounds halves up; \<open>round6dp\<close> is the six-decimal rounding every
  evaluation module repeats.\<close>

definition js_round :: "rat \<Rightarrow> int" where
  "js_round x = \<lfloor>x + 1 / 2\<rfloor>"

definition round6dp :: "rat \<Rightarrow> rat" where
  "round6dp n = of_int (js_round (n * 1000000)) / 1000000"

lemma js_round_of_int [simp]: "js_round (of_int k) = k"
proof -
  have "\<lfloor>of_int k + (1 / 2 :: rat)\<rfloor> = k"
    by (rule floor_unique) simp_all
  then show ?thesis
    by (simp add: js_round_def)
qed

lemma js_round_mono: "x \<le> y \<Longrightarrow> js_round x \<le> js_round y"
  unfolding js_round_def by (rule floor_mono) simp

lemma round6dp_mono: "x \<le> y \<Longrightarrow> round6dp x \<le> round6dp y"
  unfolding round6dp_def
  by (simp add: divide_right_mono js_round_mono)

lemma round6dp_of_int [simp]: "round6dp (of_int k) = of_int k"
proof -
  have "(of_int k * 1000000 :: rat) = of_int (k * 1000000)"
    by simp
  then show ?thesis
    unfolding round6dp_def by (simp only: js_round_of_int)
qed

lemma round6dp_0 [simp]: "round6dp 0 = 0"
  using round6dp_of_int [of 0] by simp

lemma round6dp_1 [simp]: "round6dp 1 = 1"
  using round6dp_of_int [of 1] by simp

lemma round6dp_unit: "0 \<le> x \<Longrightarrow> x \<le> 1 \<Longrightarrow> 0 \<le> round6dp x \<and> round6dp x \<le> 1"
  using round6dp_mono [of 0 x] round6dp_mono [of x 1] by simp

lemma round6dp_close: "\<bar>round6dp x - x\<bar> \<le> 1 / 2000000"
proof -
  let ?y = "x * 1000000"
  have "of_int (js_round ?y) \<le> ?y + 1 / 2" and "?y + 1 / 2 < of_int (js_round ?y) + 1"
    unfolding js_round_def by (rule of_int_floor_le, rule floor_correct [THEN conjunct2, simplified])
  then have "round6dp x - x \<le> 1 / 2000000" and "- (round6dp x - x) \<le> 1 / 2000000"
    by (simp_all add: round6dp_def field_simps)
  then show ?thesis
    by (rule abs_leI)
qed

lemma round6dp_idem [simp]: "round6dp (round6dp x) = round6dp x"
proof -
  have "round6dp x * 1000000 = of_int (js_round (x * 1000000))"
    by (simp add: round6dp_def)
  then have "js_round (round6dp x * 1000000) = js_round (x * 1000000)"
    by simp
  then show ?thesis
    by (simp only: round6dp_def [of "round6dp x"]) (simp only: round6dp_def [of x])
qed

text \<open>Rounding to six decimals does not turn a score below 1 into 1 while the number of constraints
  stays below a million.\<close>

lemma round6dp_fraction_eq_1:
  assumes "p \<le> n" and "0 < n" and "n \<le> 1000000"
  shows "round6dp (of_nat p / of_nat n) = 1 \<longleftrightarrow> p = n"
proof -
  have "round6dp (of_nat p / of_nat n) < 1" if "p < n"
  proof -
    have "1000000 * p \<le> 999999 * n"
      using that assms by linarith
    then have "(1000000 * of_nat p :: rat) \<le> 999999 * of_nat n"
      by (metis of_nat_le_iff of_nat_mult of_nat_numeral)
    then have "(of_nat p / of_nat n :: rat) \<le> 999999 / 1000000"
      using assms(2) by (simp add: field_simps)
    then have "round6dp (of_nat p / of_nat n) \<le> round6dp (999999 / 1000000)"
      by (rule round6dp_mono)
    also have "\<dots> < 1"
      by (simp add: round6dp_def js_round_def)
    finally show ?thesis .
  qed
  with assms show ?thesis
    by (cases "p = n") auto
qed

lemma round6dp_fraction_unit:
  assumes "p \<le> n" and "0 < n"
  shows "0 \<le> round6dp (of_nat p / of_nat n) \<and> round6dp (of_nat p / of_nat n) \<le> 1"
  using assms by (intro round6dp_unit) (simp_all add: divide_le_eq_1)

lemma length_filter_all: "length (filter P xs) = length xs \<longleftrightarrow> (\<forall>x \<in> set xs. P x)"
proof (induction xs)
  case (Cons x xs)
  then show ?case
    using length_filter_le [of P xs, THEN le_imp_less_Suc, THEN less_imp_neq] by (simp del: length_filter_le)
qed simp

section \<open>Strings\<close>

text \<open>Decimal numerals, as template literals print a natural number.\<close>

fun show_nat :: "nat \<Rightarrow> string" where
  "show_nat n = (if n < 10 then [char_of (48 + n)] else show_nat (n div 10) @ [char_of (48 + n mod 10)])"

declare show_nat.simps [simp del]

definition digits_value :: "string \<Rightarrow> nat" where
  "digits_value s = foldl (\<lambda>acc c. 10 * acc + (of_char c - 48)) 0 s"

lemma digits_value_show_nat [simp]: "digits_value (show_nat n) = n"
proof (induction n rule: show_nat.induct)
  case (1 n)
  have digit: "of_char (char_of (48 + d) :: char) = 48 + d" if "d < 10" for d :: nat
    using that by simp
  show ?case
  proof (cases "n < 10")
    case True
    then show ?thesis
      by (simp add: show_nat.simps [of n] digits_value_def digit)
  next
    case False
    then have "digits_value (show_nat n) = 10 * digits_value (show_nat (n div 10)) + n mod 10"
      by (simp add: show_nat.simps [of n] digits_value_def digit)
    also have "\<dots> = 10 * (n div 10) + n mod 10"
      using "1.IH" False by simp
    finally show ?thesis
      by simp
  qed
qed

lemma show_nat_inject [simp]: "show_nat m = show_nat n \<longleftrightarrow> m = n"
  by (metis digits_value_show_nat)

lemma show_nat_digits: "c \<in> set (show_nat n) \<Longrightarrow> 48 \<le> (of_char c :: nat) \<and> (of_char c :: nat) < 58"
proof (induction n rule: show_nat.induct)
  case (1 n)
  then show ?case
    by (cases "n < 10") (auto simp: show_nat.simps [of n])
qed

lemma show_nat_no_hash: "CHR ''#'' \<notin> set (show_nat n)"
  using show_nat_digits [of "CHR ''#''" n] by auto

text \<open>\<open>s.split(c)\<close> and \<open>parts.join(c)\<close>.\<close>

fun split_on :: "char \<Rightarrow> string \<Rightarrow> string list" where
  "split_on c [] = [[]]"
| "split_on c (x # xs) =
     (if x = c then [] # split_on c xs
      else (case split_on c xs of [] \<Rightarrow> [[x]] | w # ws \<Rightarrow> (x # w) # ws))"

fun join_with :: "char \<Rightarrow> string list \<Rightarrow> string" where
  "join_with c [] = []"
| "join_with c [w] = w"
| "join_with c (w # v # ws) = w @ c # join_with c (v # ws)"

lemma split_on_not_Nil [simp]: "split_on c s \<noteq> []"
  by (induction s) (auto split: list.split)

lemma join_split [simp]: "join_with c (split_on c s) = s"
proof (induction s)
  case (Cons x xs)
  obtain w ws where "split_on c xs = w # ws"
    using split_on_not_Nil [of c xs] by (cases "split_on c xs") auto
  with Cons show ?case
    by (cases ws) auto
qed simp

lemma first_separator_inject:
  "ys @ c # xs = vs @ c # us \<Longrightarrow> c \<notin> set ys \<Longrightarrow> c \<notin> set vs \<Longrightarrow> ys = vs \<and> xs = us"
proof (induction ys arbitrary: vs)
  case Nil
  then show ?case
    by (cases vs) auto
next
  case (Cons y ys)
  then show ?case
    by (cases vs) auto
qed

text \<open>What follows the last separator of a key determines the split.\<close>

lemma last_separator_inject:
  assumes "xs @ c # ys = us @ c # vs" and "c \<notin> set ys" and "c \<notin> set vs"
  shows "xs = us \<and> ys = vs"
proof -
  have "rev ys @ c # rev xs = rev vs @ c # rev us"
    using arg_cong [OF assms(1), of rev] by simp
  from first_separator_inject [OF this] assms(2,3) show ?thesis
    by simp
qed

end
