(* ===== verification/Tables.thy ===== *)
theory Tables
  imports Prelude
begin

text \<open>
  Key-value tables: what the code relies on of a DynamoDB table whose items it reads by key,
  writes whole and queries in ascending key order. The interface is the locale \<open>kv_store\<close>;
  the model's own tables, association lists kept by the library's update, interpret it.
\<close>

locale kv_store =
  fixes get :: "'t \<Rightarrow> 'k::linorder \<Rightarrow> 'v option"
    and put :: "'k \<Rightarrow> 'v \<Rightarrow> 't \<Rightarrow> 't"
    and query :: "('k \<Rightarrow> bool) \<Rightarrow> 't \<Rightarrow> ('k \<times> 'v) list"
    and invar :: "'t \<Rightarrow> bool"
  assumes get_put: "get (put k v t) = (get t)(k := Some v)"
    and invar_put: "invar t \<Longrightarrow> invar (put k v t)"
    and set_query: "invar t \<Longrightarrow> set (query p t) = {(k, v). get t k = Some v \<and> p k}"
    and sorted_query: "invar t \<Longrightarrow> sorted (map fst (query p t))"
    and distinct_query: "invar t \<Longrightarrow> distinct (map fst (query p t))"
begin

lemma get_put_same: "get (put k v t) k = Some v"
  by (simp add: get_put)

lemma get_put_other: "k \<noteq> j \<Longrightarrow> get (put k v t) j = get t j"
  by (simp add: get_put)

lemma get_put_cases: "get (put k v t) j = Some x \<Longrightarrow> (j = k \<and> x = v) \<or> (j \<noteq> k \<and> get t j = Some x)"
  by (auto simp: get_put split: if_splits)

lemma query_eqI:
  assumes "invar t" and "sorted (map fst ys)" and "distinct (map fst ys)" and "set (query p t) = set ys"
  shows "query p t = ys"
proof (rule map_sorted_distinct_set_unique [where f = fst])
  show "inj_on fst (set (query p t) \<union> set ys)"
    using assms(3,4) by (simp add: distinct_map)
qed (use assms in \<open>auto simp: sorted_query distinct_query\<close>)

lemma query_unchanged:
  assumes "invar t" and "\<not> p k"
  shows "query p (put k v t) = query p t"
  by (rule query_eqI)
    (use assms in \<open>auto simp: set_query get_put invar_put sorted_query distinct_query split: if_splits\<close>)

lemma query_last_put:
  assumes "invar t" and "p k" and "\<And>j x. get t j = Some x \<Longrightarrow> p j \<Longrightarrow> j < k"
  shows "query p (put k v t) = query p t @ [(k, v)]"
proof (rule query_eqI)
  have less: "j < k" if "(j, x) \<in> set (query p t)" for j x
    using that assms by (auto simp: set_query)
  show "invar (put k v t)"
    using assms(1) by (rule invar_put)
  show "sorted (map fst (query p t @ [(k, v)]))"
    using sorted_query [OF assms(1)] less by (force simp: sorted_append)
  show "distinct (map fst (query p t @ [(k, v)]))"
    using distinct_query [OF assms(1)] by (auto dest: less)
  show "set (query p (put k v t)) = set (query p t @ [(k, v)])"
    using assms by (auto simp: set_query get_put invar_put split: if_splits) blast
qed

end

section \<open>The tables of the model\<close>

type_synonym ('k, 'v) table = "('k \<times> 'v) list"

definition tbl_get :: "('k, 'v) table \<Rightarrow> 'k \<Rightarrow> 'v option" where
  "tbl_get t k = map_of t k"

definition tbl_put :: "'k \<Rightarrow> 'v \<Rightarrow> ('k, 'v) table \<Rightarrow> ('k, 'v) table" where
  "tbl_put k v t = AList.update k v t"

text \<open>A query returns the matching items in ascending order of their key.\<close>

definition tbl_query :: "('k::linorder \<Rightarrow> bool) \<Rightarrow> ('k, 'v) table \<Rightarrow> ('k \<times> 'v) list" where
  "tbl_query p t = sort_key fst (filter (\<lambda>kv. p (fst kv)) t)"

definition tbl_wf :: "('k, 'v) table \<Rightarrow> bool" where
  "tbl_wf t \<longleftrightarrow> distinct (map fst t)"

interpretation tbl: kv_store tbl_get tbl_put tbl_query tbl_wf
proof unfold_locales
  fix t :: "('k::linorder, 'v) table" and k v p
  show "tbl_get (tbl_put k v t) = (tbl_get t)(k := Some v)"
    by (simp add: tbl_get_def tbl_put_def update_conv' fun_eq_iff)
  assume wf: "tbl_wf t"
  show "tbl_wf (tbl_put k v t)"
    using wf by (simp add: tbl_wf_def tbl_put_def distinct_update)
  show "set (tbl_query p t) = {(k, v). tbl_get t k = Some v \<and> p k}"
    using wf by (auto simp: tbl_query_def tbl_get_def tbl_wf_def)
  show "sorted (map fst (tbl_query p t))"
    by (simp add: tbl_query_def)
  have "distinct (map fst (filter (\<lambda>kv. p (fst kv)) t))"
    using wf by (simp add: tbl_wf_def distinct_map_filter)
  then show "distinct (map fst (tbl_query p t))"
    by (simp add: tbl_query_def distinct_map)
qed

lemma tbl_wf_Nil [simp]: "tbl_wf []"
  by (simp add: tbl_wf_def)

lemma tbl_get_Nil [simp]: "tbl_get [] k = None"
  by (simp add: tbl_get_def)

lemmas tbl_put_simps = tbl.get_put_same tbl.get_put_other tbl.invar_put

declare tbl_put_simps [simp]

end
