(* ===== verification/Commands.thy ===== *)
theory Commands
  imports Prelude
begin

text \<open>
  Asynchronous functions that may throw, as commands: a command takes the state of the world and
  returns either the exception or the value, and the new world. Effects made before an exception
  stay, as they do in the code. The weakest-precondition equations reduce a statement about a
  command to statements about its parts.
\<close>

type_synonym ('s, 'e, 'a) cmd = "'s \<Rightarrow> ('e + 'a) \<times> 's"

definition retE :: "'a \<Rightarrow> ('s, 'e, 'a) cmd" where
  "retE a = (\<lambda>s. (Inr a, s))"

definition throwE :: "'e \<Rightarrow> ('s, 'e, 'a) cmd" where
  "throwE e = (\<lambda>s. (Inl e, s))"

definition bindE :: "('s, 'e, 'a) cmd \<Rightarrow> ('a \<Rightarrow> ('s, 'e, 'b) cmd) \<Rightarrow> ('s, 'e, 'b) cmd" where
  "bindE m f = (\<lambda>s. case m s of (Inl e, s') \<Rightarrow> (Inl e, s') | (Inr a, s') \<Rightarrow> f a s')"

definition catchE :: "('s, 'e, 'a) cmd \<Rightarrow> ('e \<Rightarrow> ('s, 'e, 'a) cmd) \<Rightarrow> ('s, 'e, 'a) cmd" where
  "catchE m h = (\<lambda>s. case m s of (Inl e, s') \<Rightarrow> h e s' | (Inr a, s') \<Rightarrow> (Inr a, s'))"

text \<open>\<open>throw\<close> unless the condition holds; run only when the condition holds.\<close>

definition guardE :: "bool \<Rightarrow> 'e \<Rightarrow> ('s, 'e, unit) cmd" where
  "guardE b e = (if b then retE () else throwE e)"

definition whenE :: "bool \<Rightarrow> ('s, 'e, unit) cmd \<Rightarrow> ('s, 'e, unit) cmd" where
  "whenE b m = (if b then m else retE ())"

definition liftE :: "'e + 'a \<Rightarrow> ('s, 'e, 'a) cmd" where
  "liftE r = (\<lambda>s. (r, s))"

section \<open>Weakest preconditions\<close>

definition wp :: "('s, 'e, 'a) cmd \<Rightarrow> ('a \<Rightarrow> 's \<Rightarrow> bool) \<Rightarrow> ('e \<Rightarrow> 's \<Rightarrow> bool) \<Rightarrow> 's \<Rightarrow> bool" where
  "wp m Q E s \<longleftrightarrow> (case m s of (Inl e, s') \<Rightarrow> E e s' | (Inr a, s') \<Rightarrow> Q a s')"

lemma wp_retE [wp_rules, simp]: "wp (retE a) Q E s = Q a s"
  by (simp add: wp_def retE_def)

lemma wp_throwE [wp_rules, simp]: "wp (throwE e) Q E s = E e s"
  by (simp add: wp_def throwE_def)

lemma wp_liftE [wp_rules, simp]: "wp (liftE r) Q E s = (case r of Inl e \<Rightarrow> E e s | Inr a \<Rightarrow> Q a s)"
  by (simp add: wp_def liftE_def split: sum.split)

lemma wp_bindE [wp_rules, simp]: "wp (bindE m f) Q E s = wp m (\<lambda>a. wp (f a) Q E) E s"
  by (simp add: wp_def bindE_def split: prod.split sum.split)

lemma wp_catchE [wp_rules, simp]: "wp (catchE m h) Q E s = wp m Q (\<lambda>e. wp (h e) Q E) s"
  by (simp add: wp_def catchE_def split: prod.split sum.split)

lemma wp_guardE [wp_rules, simp]: "wp (guardE b e) Q E s = (if b then Q () s else E e s)"
  by (simp add: guardE_def)

lemma wp_whenE [wp_rules, simp]: "wp (whenE b m) Q E s = (if b then wp m Q E s else Q () s)"
  by (simp add: whenE_def)

lemma wp_if [wp_rules]: "wp (if b then m else n) Q E s = (if b then wp m Q E s else wp n Q E s)"
  by simp

lemma wp_mono:
  "wp m Q E s \<Longrightarrow> (\<And>a t. Q a t \<Longrightarrow> Q' a t) \<Longrightarrow> (\<And>e t. E e t \<Longrightarrow> E' e t) \<Longrightarrow> wp m Q' E' s"
  by (simp add: wp_def split: prod.splits sum.splits)

lemma wp_conj:
  "wp m Q E s \<Longrightarrow> wp m Q' E' s \<Longrightarrow> wp m (\<lambda>a t. Q a t \<and> Q' a t) (\<lambda>e t. E e t \<and> E' e t) s"
  by (simp add: wp_def split: prod.splits sum.splits)

lemma wp_run_Inr: "wp m Q E s \<Longrightarrow> m s = (Inr a, t) \<Longrightarrow> Q a t"
  by (simp add: wp_def)

lemma wp_run_Inl: "wp m Q E s \<Longrightarrow> m s = (Inl e, t) \<Longrightarrow> E e t"
  by (simp add: wp_def)

lemma wpI:
  "(\<And>a t. m s = (Inr a, t) \<Longrightarrow> Q a t) \<Longrightarrow> (\<And>e t. m s = (Inl e, t) \<Longrightarrow> E e t) \<Longrightarrow> wp m Q E s"
  by (simp add: wp_def split: prod.split sum.split)

section \<open>Inversion of runs\<close>

lemma bindE_Inr [run_rules]:
  "bindE m f s = (Inr b, t) \<longleftrightarrow> (\<exists>a u. m s = (Inr a, u) \<and> f a u = (Inr b, t))"
  by (auto simp: bindE_def split: prod.splits sum.splits)

lemma bindE_assoc: "bindE (bindE m f) g = bindE m (\<lambda>a. bindE (f a) g)"
  by (rule ext) (simp add: bindE_def split: prod.split sum.split)

lemma bindE_step: "m s = (Inr a, u) \<Longrightarrow> bindE m f s = f a u"
  by (simp add: bindE_def)

lemma bindE_stop: "m s = (Inl e, u) \<Longrightarrow> bindE m f s = (Inl e, u)"
  by (simp add: bindE_def)

lemma bindE_Inl:
  "bindE m f s = (Inl e, t) \<longleftrightarrow> m s = (Inl e, t) \<or> (\<exists>a u. m s = (Inr a, u) \<and> f a u = (Inl e, t))"
  by (auto simp: bindE_def split: prod.splits sum.splits)

lemma retE_run [run_rules]: "retE a s = (r, t) \<longleftrightarrow> r = Inr a \<and> t = s"
  by (auto simp: retE_def)

lemma throwE_run [run_rules]: "throwE e s = (r, t) \<longleftrightarrow> r = Inl e \<and> t = s"
  by (auto simp: throwE_def)

lemma guardE_run [run_rules]:
  "guardE b e s = (r, t) \<longleftrightarrow> t = s \<and> r = (if b then Inr () else Inl e)"
  by (auto simp: guardE_def retE_def throwE_def)

lemma liftE_run [run_rules]: "liftE r s = (r', t) \<longleftrightarrow> r' = r \<and> t = s"
  by (auto simp: liftE_def)

lemma catchE_Inr [run_rules]:
  "catchE m h s = (Inr a, t) \<longleftrightarrow>
    m s = (Inr a, t) \<or> (\<exists>e u. m s = (Inl e, u) \<and> h e u = (Inr a, t))"
  by (auto simp: catchE_def split: prod.splits sum.splits)

text \<open>Evaluation of a command on a concrete state.\<close>

lemmas cmd_defs = retE_def throwE_def bindE_def catchE_def guardE_def whenE_def liftE_def

section \<open>State predicates a command keeps\<close>

definition keeps :: "('s, 'e, 'a) cmd \<Rightarrow> ('s \<Rightarrow> 'b) \<Rightarrow> bool" where
  "keeps m f \<longleftrightarrow> (\<forall>s. f (snd (m s)) = f s)"

lemma keepsD: "keeps m f \<Longrightarrow> m s = (r, t) \<Longrightarrow> f t = f s"
  unfolding keeps_def by (metis snd_conv)

named_theorems keeps_intros \<open>commands that leave a part of the state alone\<close>

lemma keeps_retE [keeps_intros]: "keeps (retE a) f"
  by (simp add: keeps_def retE_def)

lemma keeps_throwE [keeps_intros]: "keeps (throwE e) f"
  by (simp add: keeps_def throwE_def)

lemma keeps_liftE [keeps_intros]: "keeps (liftE e) f"
  by (simp add: keeps_def liftE_def)

lemma keeps_guardE [keeps_intros]: "keeps (guardE b e) f"
  by (simp add: guardE_def keeps_intros)

lemma keeps_bindE [keeps_intros]: "keeps m f \<Longrightarrow> (\<And>a. keeps (g a) f) \<Longrightarrow> keeps (bindE m g) f"
  unfolding keeps_def bindE_def
  by (auto split: prod.split sum.split) (metis snd_conv)+

lemma keeps_catchE [keeps_intros]: "keeps m f \<Longrightarrow> (\<And>e. keeps (h e) f) \<Longrightarrow> keeps (catchE m h) f"
  unfolding keeps_def catchE_def
  by (auto split: prod.split sum.split) (metis snd_conv)+

lemma keeps_whenE [keeps_intros]: "(b \<Longrightarrow> keeps m f) \<Longrightarrow> keeps (whenE b m) f"
  by (simp add: whenE_def keeps_intros)

lemma keeps_if [keeps_intros]:
  "(b \<Longrightarrow> keeps m f) \<Longrightarrow> (\<not> b \<Longrightarrow> keeps n f) \<Longrightarrow> keeps (if b then m else n) f"
  by simp

lemma keeps_case_option [keeps_intros]:
  "(x = None \<Longrightarrow> keeps m f) \<Longrightarrow> (\<And>y. x = Some y \<Longrightarrow> keeps (n y) f) \<Longrightarrow>
    keeps (case x of None \<Rightarrow> m | Some y \<Rightarrow> n y) f"
  by (cases x) simp_all

lemma keeps_case_sum [keeps_intros]:
  "(\<And>y. x = Inl y \<Longrightarrow> keeps (m y) f) \<Longrightarrow> (\<And>y. x = Inr y \<Longrightarrow> keeps (n y) f) \<Longrightarrow>
    keeps (case x of Inl y \<Rightarrow> m y | Inr y \<Rightarrow> n y) f"
  by (cases x) simp_all

section \<open>Guarantees\<close>

text \<open>
  What a command may do to the state, as a relation between the states before and after, whatever
  the outcome. A reflexive and transitive relation is closed under the constructs of commands.
\<close>

definition guarantees :: "('s, 'e, 'a) cmd \<Rightarrow> ('s \<Rightarrow> 's \<Rightarrow> bool) \<Rightarrow> bool" where
  "guarantees m R \<longleftrightarrow> (\<forall>s. R s (snd (m s)))"

lemma guaranteesD: "guarantees m R \<Longrightarrow> m s = (r, t) \<Longrightarrow> R s t"
  unfolding guarantees_def by (metis snd_conv)

locale guarantee =
  fixes R :: "'s \<Rightarrow> 's \<Rightarrow> bool"
  assumes refl: "R s s"
    and trans: "R s t \<Longrightarrow> R t u \<Longrightarrow> R s u"
begin

lemma retE: "guarantees (retE a) R"
  by (simp add: guarantees_def retE_def refl)

lemma throwE: "guarantees (throwE e) R"
  by (simp add: guarantees_def throwE_def refl)

lemma liftE: "guarantees (liftE r) R"
  by (simp add: guarantees_def liftE_def refl)

lemma guardE: "guarantees (guardE b e) R"
  by (simp add: guardE_def retE throwE)

lemma bindE: "guarantees m R \<Longrightarrow> (\<And>a. guarantees (g a) R) \<Longrightarrow> guarantees (bindE m g) R"
  unfolding guarantees_def bindE_def
  by (auto split: prod.split sum.split) (metis snd_conv trans)+

lemma catchE: "guarantees m R \<Longrightarrow> (\<And>e. guarantees (h e) R) \<Longrightarrow> guarantees (catchE m h) R"
  unfolding guarantees_def catchE_def
  by (auto split: prod.split sum.split) (metis snd_conv trans)+

lemma whenE: "guarantees m R \<Longrightarrow> guarantees (whenE b m) R"
  by (simp add: whenE_def retE)

lemma if_cmd: "guarantees m R \<Longrightarrow> guarantees n R \<Longrightarrow> guarantees (if b then m else n) R"
  by simp

lemma case_option:
  "guarantees m R \<Longrightarrow> (\<And>y. guarantees (n y) R) \<Longrightarrow> guarantees (case x of None \<Rightarrow> m | Some y \<Rightarrow> n y) R"
  by (cases x) simp_all

lemma case_sum:
  "(\<And>y. guarantees (m y) R) \<Longrightarrow> (\<And>y. guarantees (n y) R) \<Longrightarrow>
    guarantees (case x of Inl y \<Rightarrow> m y | Inr y \<Rightarrow> n y) R"
  by (cases x) simp_all

lemma case_prod:
  "(\<And>a b. guarantees (m a b) R) \<Longrightarrow> guarantees (case x of (a, b) \<Rightarrow> m a b) R"
  by (cases x) simp

lemmas rules = bindE catchE retE throwE liftE guardE whenE if_cmd case_option case_sum case_prod

end

end
