(* ===== verification/EvalTypes.thy ===== *)
theory EvalTypes
  imports Prelude
begin

text \<open>
  The vocabulary of the evaluation modules (backend/src/lambda/utils/eval-scoring.ts): dimensions
  in their canonical order, the score of one case in one dimension, and score vectors. The
  human-readable \<open>detail\<close> string and the judge's model identifiers of a score are not
  modelled: no decision reads them.
\<close>

datatype dimension =
    Task_success
  | Policy_compliance
  | Tool_accuracy
  | Latency
  | Cost
  | Groundedness_citation
  | Groundedness_faithfulness
  | Trajectory

definition DIMENSION_ORDER :: "dimension list" where
  "DIMENSION_ORDER =
     [Task_success, Policy_compliance, Tool_accuracy, Latency, Cost, Groundedness_citation,
      Groundedness_faithfulness, Trajectory]"

datatype dim_status = SCORED | UNKNOWN | NOT_APPLICABLE | PENDING

datatype score_basis = DETERMINISTIC | JUDGE

datatype verdict = Boolean bool | Score rat

record dimension_score =
  dimension :: dimension
  status :: dim_status
  basis :: score_basis
  verdict :: "verdict option"
  measurement :: "rat option"

type_synonym score_vector = "dimension_score list"

section \<open>The canonical order as a linear order\<close>

fun dim_index :: "dimension \<Rightarrow> nat" where
  "dim_index Task_success = 0"
| "dim_index Policy_compliance = 1"
| "dim_index Tool_accuracy = 2"
| "dim_index Latency = 3"
| "dim_index Cost = 4"
| "dim_index Groundedness_citation = 5"
| "dim_index Groundedness_faithfulness = 6"
| "dim_index Trajectory = 7"

lemma dim_index_inject [simp]: "dim_index d = dim_index e \<longleftrightarrow> d = e"
  by (cases d; cases e) simp_all

instantiation dimension :: linorder
begin

definition less_eq_dimension :: "dimension \<Rightarrow> dimension \<Rightarrow> bool" where
  "d \<le> e \<longleftrightarrow> dim_index d \<le> dim_index e"

definition less_dimension :: "dimension \<Rightarrow> dimension \<Rightarrow> bool" where
  "d < e \<longleftrightarrow> dim_index d < dim_index e"

instance
  by standard (auto simp: less_eq_dimension_def less_dimension_def)

end

lemma set_DIMENSION_ORDER [simp]: "set DIMENSION_ORDER = UNIV"
  by (auto simp: DIMENSION_ORDER_def intro: dimension.exhaust)

lemma distinct_DIMENSION_ORDER [simp]: "distinct DIMENSION_ORDER"
  by (simp add: DIMENSION_ORDER_def)

lemma DIMENSION_ORDER_is_canonical: "map dim_index DIMENSION_ORDER = [0..<8]"
  by (simp add: DIMENSION_ORDER_def upt_rec)

lemma sorted_DIMENSION_ORDER: "sorted DIMENSION_ORDER"
  by (simp add: DIMENSION_ORDER_def less_eq_dimension_def)

text \<open>A \<open>Map\<close> filled by \<open>set\<close> in a loop: the last score of a dimension wins.\<close>

definition scoreByDimension :: "score_vector \<Rightarrow> dimension \<Rightarrow> dimension_score option" where
  "scoreByDimension vec = map_of (rev (map (\<lambda>s. (dimension s, s)) vec))"

definition not_scored :: "dimension \<Rightarrow> dim_status \<Rightarrow> score_basis \<Rightarrow> dimension_score" where
  "not_scored d st b =
     \<lparr>dimension = d, status = st, basis = b, verdict = None, measurement = None\<rparr>"

definition scored :: "dimension \<Rightarrow> verdict option \<Rightarrow> rat option \<Rightarrow> dimension_score" where
  "scored d v m =
     \<lparr>dimension = d, status = SCORED, basis = DETERMINISTIC, verdict = v, measurement = m\<rparr>"

lemma not_scored_simps [simp]:
  "dimension (not_scored d st b) = d" "status (not_scored d st b) = st"
  "verdict (not_scored d st b) = None" "measurement (not_scored d st b) = None"
  by (simp_all add: not_scored_def)

lemma scored_simps [simp]:
  "dimension (scored d v m) = d" "status (scored d v m) = SCORED"
  "verdict (scored d v m) = v" "measurement (scored d v m) = m"
  by (simp_all add: scored_def)

end
