(* ===== verification/EvalTrajectory.thy ===== *)
theory EvalTrajectory
  imports EvalTypes "HOL-Library.Sublist"
begin

text \<open>
  Trajectory scoring (backend/src/lambda/utils/eval-trajectory.ts): sub-checks on the steps and
  tools an agent used, and their combination into one score.
\<close>

datatype tool_sequence_mode = SET | SUBSEQUENCE | STRICT

record tool_sequence_spec =
  mode :: tool_sequence_mode
  tools :: "string list"

record trajectory_spec =
  toolSequence :: "tool_sequence_spec option"
  dagPath :: "string list option"
  maxSteps :: "rat option"
  noLoop :: bool
  noRedundantCalls :: bool

record trajectory_step =
  stepIndex :: nat
  nodeId :: string
  agentId :: "string option"
  step_status :: "string option"

record observed_trajectory =
  steps :: "trajectory_step list"
  turnCount :: nat
  toolSet :: "string list"
  toolOrder :: "string list option"

datatype outcome = Pass | Fail | Na | Unknown

definition isExecutionKind :: "observed_trajectory \<Rightarrow> bool" where
  "isExecutionKind ob \<longleftrightarrow> length (steps ob) > 0 \<or> turnCount ob = 0"

definition checkMaxSteps :: "observed_trajectory \<Rightarrow> rat \<Rightarrow> outcome" where
  "checkMaxSteps ob n =
     (let count = (if isExecutionKind ob then length (steps ob) else turnCount ob)
      in if of_nat count \<le> n then Pass else Fail)"

text \<open>The loop over the steps with the set of node ids already seen.\<close>

fun noLoop_loop :: "string list \<Rightarrow> trajectory_step list \<Rightarrow> outcome" where
  "noLoop_loop seen [] = Pass"
| "noLoop_loop seen (s # ss) =
     (if nodeId s \<in> set seen then Fail else noLoop_loop (nodeId s # seen) ss)"

definition checkNoLoop :: "observed_trajectory \<Rightarrow> outcome" where
  "checkNoLoop ob = (if isExecutionKind ob then noLoop_loop [] (steps ob) else Unknown)"

fun noRedundant_loop :: "trajectory_step list \<Rightarrow> outcome" where
  "noRedundant_loop (p # c # ss) =
     (if nodeId p = nodeId c \<and> agentId p = agentId c then Fail else noRedundant_loop (c # ss))"
| "noRedundant_loop _ = Pass"

definition checkNoRedundantCalls :: "observed_trajectory \<Rightarrow> outcome" where
  "checkNoRedundantCalls ob =
     (if \<not> isExecutionKind ob then Unknown else noRedundant_loop (steps ob))"

definition checkDagPath :: "observed_trajectory \<Rightarrow> string list \<Rightarrow> outcome" where
  "checkDagPath ob path =
     (if \<not> isExecutionKind ob \<or> steps ob = [] then Na
      else (let observedPath = map nodeId (steps ob)
            in if length observedPath = length path \<and> list_all2 (=) observedPath path
               then Pass else Fail))"

text \<open>The index \<open>i\<close> into the needle becomes the rest of the needle still to be found.\<close>

fun isSubsequence :: "string list \<Rightarrow> string list \<Rightarrow> bool" where
  "isSubsequence needle [] \<longleftrightarrow> needle = []"
| "isSubsequence needle (item # hay) =
     isSubsequence (case needle of [] \<Rightarrow> [] | n # ns \<Rightarrow> if item = n then ns else n # ns) hay"

definition checkToolSequence :: "observed_trajectory \<Rightarrow> tool_sequence_spec \<Rightarrow> outcome" where
  "checkToolSequence ob spec =
     (if mode spec = SET
      then (if list_all (\<lambda>t. t \<in> set (toolSet ob)) (tools spec) then Pass else Fail)
      else (case toolOrder ob of
          None \<Rightarrow> Unknown
        | Some order \<Rightarrow>
            (if mode spec = SUBSEQUENCE
             then (if isSubsequence (tools spec) order then Pass else Fail)
             else (if length order = length (tools spec) \<and> list_all2 (=) order (tools spec)
                   then Pass else Fail))))"

text \<open>The sub-checks the spec asks for, in the order the code pushes them.\<close>

definition subchecks :: "observed_trajectory \<Rightarrow> trajectory_spec \<Rightarrow> outcome list" where
  "subchecks ob spec =
     (case maxSteps spec of None \<Rightarrow> [] | Some n \<Rightarrow> [checkMaxSteps ob n]) @
     (if noLoop spec then [checkNoLoop ob] else []) @
     (if noRedundantCalls spec then [checkNoRedundantCalls ob] else []) @
     (case dagPath spec of None \<Rightarrow> []
      | Some path \<Rightarrow> if length path > 0 then [checkDagPath ob path] else []) @
     (case toolSequence spec of None \<Rightarrow> [] | Some ts \<Rightarrow> [checkToolSequence ob ts])"

text \<open>An observation that was never reconstructed counts as the empty one.\<close>

fun safeObserved :: "observed_trajectory option \<Rightarrow> observed_trajectory" where
  "safeObserved (Some ob) = ob"
| "safeObserved None = \<lparr>steps = [], turnCount = 0, toolSet = [], toolOrder = None\<rparr>"

definition scoreTrajectory ::
  "observed_trajectory option \<Rightarrow> trajectory_spec option \<Rightarrow> dimension_score" where
  "scoreTrajectory observed spec = (case spec of
       None \<Rightarrow> not_scored Trajectory NOT_APPLICABLE DETERMINISTIC
     | Some sp \<Rightarrow>
        (let results = subchecks (safeObserved observed) sp;
             evaluable = filter (\<lambda>r. r = Pass \<or> r = Fail) results;
             passed = length (filter (\<lambda>r. r = Pass) evaluable)
         in if results = [] then not_scored Trajectory NOT_APPLICABLE DETERMINISTIC
            else if evaluable = [] then not_scored Trajectory UNKNOWN DETERMINISTIC
            else (let score = round6dp (of_nat passed / of_nat (length evaluable))
                  in scored Trajectory (Some (Score score)) (Some score))))"

section \<open>The sub-checks decide what they are named for\<close>

lemma noLoop_loop_iff:
  "noLoop_loop seen ss = Pass \<longleftrightarrow> distinct (map nodeId ss) \<and> set (map nodeId ss) \<inter> set seen = {}"
  by (induction ss arbitrary: seen) auto

lemma noLoop_loop_cases: "noLoop_loop seen ss = Pass \<or> noLoop_loop seen ss = Fail"
  by (induction ss arbitrary: seen) auto

lemma noRedundant_loop_iff:
  "noRedundant_loop ss = Pass \<longleftrightarrow>
    (\<forall>i. Suc i < length ss \<longrightarrow>
      (nodeId (ss ! i), agentId (ss ! i)) \<noteq> (nodeId (ss ! Suc i), agentId (ss ! Suc i)))"
proof (induction ss rule: noRedundant_loop.induct)
  case (1 p c ss)
  show ?case
  proof (cases "nodeId p = nodeId c \<and> agentId p = agentId c")
    case True
    then show ?thesis
      by (auto intro!: exI [of _ 0])
  next
    case False
    with 1 show ?thesis
      by (auto simp: less_Suc_eq_0_disj nth_Cons split: nat.splits)
  qed
qed auto

lemma noRedundant_loop_cases: "noRedundant_loop ss = Pass \<or> noRedundant_loop ss = Fail"
  by (induction ss rule: noRedundant_loop.induct) auto

lemma isSubsequence_subseq: "isSubsequence needle hay \<longleftrightarrow> subseq needle hay"
proof (induction needle hay rule: isSubsequence.induct)
  case (1 needle)
  then show ?case
    by (cases needle) auto
next
  case (2 needle item hay)
  then show ?case
    by (cases needle) (auto simp: subseq_Cons2_iff)
qed

lemma list_all2_eq_iff: "length xs = length ys \<and> list_all2 (=) xs ys \<longleftrightarrow> xs = ys"
  by (auto simp: list.rel_eq)

lemma length_subchecks: "length (subchecks ob spec) \<le> 5"
  by (auto simp: subchecks_def split: option.split)

text \<open>The tool-sequence check passes exactly when the observed tools satisfy the spec of its
  mode: every expected tool used (SET), the expected tools a subsequence of the observed order
  (SUBSEQUENCE), or the observed order equal to the expected one (STRICT).\<close>

theorem checkToolSequence_spec:
  "checkToolSequence ob spec = Pass \<longleftrightarrow>
    (case mode spec of
       SET \<Rightarrow> set (tools spec) \<subseteq> set (toolSet ob)
     | SUBSEQUENCE \<Rightarrow> (case toolOrder ob of None \<Rightarrow> False | Some order \<Rightarrow> subseq (tools spec) order)
     | STRICT \<Rightarrow> toolOrder ob = Some (tools spec))"
  by (auto simp: checkToolSequence_def list_all_iff isSubsequence_subseq list_all2_eq_iff
      split: tool_sequence_mode.split option.split)

lemma loop_checks_spec_facts:
  assumes "isExecutionKind ob"
  shows "checkNoLoop ob = (if distinct (map nodeId (steps ob)) then Pass else Fail)"
    and "checkNoRedundantCalls ob =
      (if \<exists>i. Suc i < length (steps ob) \<and> nodeId (steps ob ! i) = nodeId (steps ob ! Suc i) \<and>
              agentId (steps ob ! i) = agentId (steps ob ! Suc i)
       then Fail else Pass)"
proof -
  show "checkNoLoop ob = (if distinct (map nodeId (steps ob)) then Pass else Fail)"
    using assms noLoop_loop_iff [of "[]" "steps ob"] noLoop_loop_cases [of "[]" "steps ob"]
    by (auto simp: checkNoLoop_def)
  show "checkNoRedundantCalls ob =
      (if \<exists>i. Suc i < length (steps ob) \<and> nodeId (steps ob ! i) = nodeId (steps ob ! Suc i) \<and>
              agentId (steps ob ! i) = agentId (steps ob ! Suc i)
       then Fail else Pass)"
    using assms noRedundant_loop_iff [of "steps ob"] noRedundant_loop_cases [of "steps ob"]
    by (auto simp: checkNoRedundantCalls_def)
qed

text \<open>On an execution, the no-loop check fails exactly when some node is visited twice, and the
  redundant-call check fails exactly when two consecutive steps share node and agent; neither ever
  answers anything but pass or fail there.\<close>

theorem loop_checks_spec:
  assumes "isExecutionKind ob"
  shows "checkNoLoop ob = (if distinct (map nodeId (steps ob)) then Pass else Fail) \<and>
    checkNoRedundantCalls ob =
      (if \<exists>i. Suc i < length (steps ob) \<and> nodeId (steps ob ! i) = nodeId (steps ob ! Suc i) \<and>
              agentId (steps ob ! i) = agentId (steps ob ! Suc i)
       then Fail else Pass)"
  using loop_checks_spec_facts [OF assms] by blast

lemma passed_le_evaluable:
  "length (filter (\<lambda>r. r = Pass) (filter (\<lambda>r. r = Pass \<or> r = Fail) rs))
     \<le> length (filter (\<lambda>r. r = Pass \<or> r = Fail) rs)"
  by (rule length_filter_le)

lemma all_passed_iff:
  "length (filter (\<lambda>r. r = Pass) (filter (\<lambda>r. r = Pass \<or> r = Fail) rs)) =
     length (filter (\<lambda>r. r = Pass \<or> r = Fail) rs) \<longleftrightarrow> Fail \<notin> set rs"
proof (induction rs)
  case (Cons r rs)
  then show ?case
    using passed_le_evaluable [of rs, THEN le_imp_less_Suc, THEN less_imp_neq]
    by (cases r) (auto simp del: filter_filter length_filter_le)
qed simp

lemma scoreTrajectory_correct_facts:
  "(status (scoreTrajectory observed (Some spec)) = SCORED) =
     (Pass \<in> set (subchecks (safeObserved observed) spec) \<or>
      Fail \<in> set (subchecks (safeObserved observed) spec))"
  "status (scoreTrajectory observed (Some spec)) = SCORED \<Longrightarrow>
     (\<exists>s. verdict (scoreTrajectory observed (Some spec)) = Some (Score s) \<and>
        measurement (scoreTrajectory observed (Some spec)) = Some s \<and> 0 \<le> s \<and> s \<le> 1 \<and>
        (s = 1) = (Fail \<notin> set (subchecks (safeObserved observed) spec)))"
proof -
  define results where "results = subchecks (safeObserved observed) spec"
  define ev where "ev = filter (\<lambda>r. r = Pass \<or> r = Fail) results"
  define p where "p = length (filter (\<lambda>r. r = Pass) ev)"
  let ?sc = "scoreTrajectory observed (Some spec)"
  have sc: "?sc = (if results = [] then not_scored Trajectory NOT_APPLICABLE DETERMINISTIC
      else if ev = [] then not_scored Trajectory UNKNOWN DETERMINISTIC
      else scored Trajectory (Some (Score (round6dp (of_nat p / of_nat (length ev)))))
        (Some (round6dp (of_nat p / of_nat (length ev)))))"
    unfolding scoreTrajectory_def Let_def option.case
    unfolding results_def [symmetric] unfolding ev_def [symmetric] unfolding p_def [symmetric] ..
  have ev: "ev = [] \<longleftrightarrow> Pass \<notin> set results \<and> Fail \<notin> set results"
    by (auto simp: ev_def filter_empty_conv)
  have "results = [] \<Longrightarrow> ev = []"
    by (simp add: ev_def)
  then show "(status ?sc = SCORED) = (Pass \<in> set (subchecks (safeObserved observed) spec) \<or>
      Fail \<in> set (subchecks (safeObserved observed) spec))"
    using ev by (auto simp: sc results_def [symmetric])
  assume "status ?sc = SCORED"
  then have ne: "results \<noteq> []" "ev \<noteq> []"
    by (auto simp: sc split: if_splits)
  have "length ev \<le> 5"
    using length_filter_le [of _ results] length_subchecks [of "safeObserved observed" spec]
    unfolding ev_def results_def by (rule le_trans)
  moreover have "p \<le> length ev" and "p = length ev \<longleftrightarrow> Fail \<notin> set results"
    unfolding p_def ev_def by (rule passed_le_evaluable, rule all_passed_iff)
  ultimately show "\<exists>s. verdict ?sc = Some (Score s) \<and> measurement ?sc = Some s \<and> 0 \<le> s \<and> s \<le> 1 \<and>
        (s = 1) = (Fail \<notin> set (subchecks (safeObserved observed) spec))"
    using ne round6dp_fraction_eq_1 [of p "length ev"] round6dp_fraction_unit [of p "length ev"] by (simp add: sc results_def [symmetric])
qed

text \<open>A trajectory is scored exactly when some sub-check of the spec could be decided; its score
  lies between 0 and 1 and is 1 exactly when no sub-check failed.\<close>

theorem scoreTrajectory_correct:
  "(status (scoreTrajectory observed (Some spec)) = SCORED) =
     (Pass \<in> set (subchecks (safeObserved observed) spec) \<or>
      Fail \<in> set (subchecks (safeObserved observed) spec)) \<and>
   (status (scoreTrajectory observed (Some spec)) = SCORED \<longrightarrow>
     (\<exists>s. verdict (scoreTrajectory observed (Some spec)) = Some (Score s) \<and>
        measurement (scoreTrajectory observed (Some spec)) = Some s \<and> 0 \<le> s \<and> s \<le> 1 \<and>
        (s = 1) = (Fail \<notin> set (subchecks (safeObserved observed) spec))))"
  using scoreTrajectory_correct_facts [of observed spec] by blast

text \<open>A concrete run: three steps that revisit a node, under a spec with four sub-checks.\<close>

definition sample_observed :: observed_trajectory where
  "sample_observed =
     \<lparr>steps = [\<lparr>stepIndex = 0, nodeId = ''plan'', agentId = Some ''a'', step_status = None\<rparr>,
               \<lparr>stepIndex = 1, nodeId = ''search'', agentId = Some ''b'', step_status = None\<rparr>,
               \<lparr>stepIndex = 2, nodeId = ''plan'', agentId = Some ''a'', step_status = None\<rparr>],
      turnCount = 0, toolSet = [''search''], toolOrder = Some [''search'']\<rparr>"

definition sample_spec :: trajectory_spec where
  "sample_spec =
     \<lparr>toolSequence = Some \<lparr>mode = STRICT, tools = [''search'']\<rparr>, dagPath = None,
      maxSteps = Some 3, noLoop = True, noRedundantCalls = True\<rparr>"

lemmas sample_trajectory_simps =
  sample_observed_def sample_spec_def subchecks_def checkMaxSteps_def checkNoLoop_def
  checkNoRedundantCalls_def checkToolSequence_def isExecutionKind_def

lemma sample_subchecks: "subchecks sample_observed sample_spec = [Pass, Fail, Pass, Pass]"
  by (simp add: sample_trajectory_simps)

theorem loop_checks_spec_witness:
  "isExecutionKind sample_observed \<and> checkNoLoop sample_observed = Fail \<and>
   checkNoRedundantCalls sample_observed = Pass"
proof -
  have ex: "isExecutionKind sample_observed"
    by (simp add: sample_trajectory_simps)
  have "checkNoLoop sample_observed = Fail"
    using loop_checks_spec [OF ex, THEN conjunct1] by (simp add: sample_observed_def)
  moreover have "checkNoRedundantCalls sample_observed = Pass"
    by (simp add: sample_trajectory_simps)
  ultimately show ?thesis
    using ex by simp
qed

theorem scoreTrajectory_correct_witness:
  "\<exists>s. verdict (scoreTrajectory (Some sample_observed) (Some sample_spec)) = Some (Score s) \<and>
     0 \<le> s \<and> s < 1"
proof -
  have "status (scoreTrajectory (Some sample_observed) (Some sample_spec)) = SCORED"
    using scoreTrajectory_correct [of "Some sample_observed" sample_spec, THEN conjunct1]
    by (simp add: sample_subchecks)
  from scoreTrajectory_correct [THEN conjunct2, THEN mp, OF this] show ?thesis
    by (auto simp: sample_subchecks)
qed

end
