(* ===== verification/EvalScoring.thy ===== *)
theory EvalScoring
  imports EvalTrajectory "HOL-Library.Multiset"
begin

text \<open>
  Scoring one evaluation case (backend/src/lambda/utils/eval-scoring.ts). The text formats the
  code reads with the JavaScript runtime (\<open>JSON.parse\<close>, \<open>JSON.stringify\<close>, \<open>RegExp.test\<close>,
  \<open>Date.getTime\<close>) are the fields of a \<open>js_runtime\<close>; every theorem holds for whatever they
  answer. An invalid regular expression throws, so \<open>scoreCase\<close> returns an option. Properties
  inherited from \<open>Object.prototype\<close> are not modelled.
\<close>

record js_runtime =
  json_parse :: "string \<Rightarrow> jsval option"
  json_stringify :: "jsval \<Rightarrow> string"
  regexp_test :: "string \<Rightarrow> string \<Rightarrow> bool option"
  date_ms :: "string \<Rightarrow> rat option"

section \<open>Inputs\<close>

datatype case_kind = CONVERSATION | EXECUTION

datatype target_adapter = Execution | Conversation

record eval_case_row =
  row_caseId :: string
  caseKind :: case_kind
  targetAdapter :: target_adapter
  latencyMs :: "rat option"
  dispatchedAt :: "string option"
  startedAt :: "string option"
  completedAt :: "string option"

datatype match_mode = EXACT | CONTAINS | REGEX | JSON_SUBSET

record match_spec =
  match_mode :: match_mode
  match_target :: string
  match_path :: "string option"
  match_judge :: bool

datatype policy_decision = PERMIT | DENY | ESCALATE

record expected_policy_outcome =
  expected_decision :: policy_decision
  findingTypes :: "string list"

record grounding_requirement =
  mustCiteAnyOf :: "string list"
  mustNotHallucinate :: bool

record eval_case =
  ec_caseId :: string
  expectedOutcome :: "match_spec option"
  requiredTools :: "string list"
  forbiddenTools :: "string list"
  expectedPolicyOutcome :: "expected_policy_outcome option"
  groundingRequirements :: "grounding_requirement list"
  maxLatencyMs :: "rat option"
  maxCostUsd :: "rat option"
  trajectorySpec :: "trajectory_spec option"

record scoring_finding =
  finding_decision :: string
  finding_reason :: string

record scoring_cost_row =
  cost_priced :: bool
  cost_usd :: "rat option"

record execution_node =
  en_nodeId :: string
  en_outputs :: jsval

record scoring_artifact =
  finalAnswerText :: "string option"
  executionNodeOutputs :: "execution_node list"
  findings :: "scoring_finding list"
  costRows :: "scoring_cost_row list"
  observedTrajectory :: "observed_trajectory option"

section \<open>Shared helpers\<close>

definition parseMatchTarget :: "js_runtime \<Rightarrow> string \<Rightarrow> jsval" where
  "parseMatchTarget rt tgt = (case json_parse rt tgt of Some v \<Rightarrow> v | None \<Rightarrow> JStr tgt)"

text \<open>\<open>seg in current\<close> and \<open>current[seg]\<close> for own properties.\<close>

fun own_prop :: "jsval \<Rightarrow> string \<Rightarrow> jsval option" where
  "own_prop (JObj ob) k = map_of ob k"
| "own_prop (JArr vs) k =
     (if k = ''length'' then Some (JNum (Fin (of_nat (length vs))))
      else map_of (zip (map show_nat [0..<length vs]) vs) k)"
| "own_prop _ k = None"

fun getByPath_loop :: "jsval \<Rightarrow> string list \<Rightarrow> jsval" where
  "getByPath_loop current [] = current"
| "getByPath_loop current (seg # segs) =
     (case own_prop current seg of None \<Rightarrow> JUndef | Some v \<Rightarrow> getByPath_loop v segs)"

definition getByPath :: "jsval \<Rightarrow> string option \<Rightarrow> jsval" where
  "getByPath value path = (case path of
       None \<Rightarrow> value
     | Some p \<Rightarrow>
        if p = [] then value
        else getByPath_loop value (filter (\<lambda>s. length s > 0) (split_on (CHR ''.'') p)))"

text \<open>
  \<open>===\<close> of two values with no shared object references: a target just parsed from JSON is never
  the same object as part of an artifact.
\<close>

fun strict_eq :: "jsval \<Rightarrow> jsval \<Rightarrow> bool" where
  "strict_eq JUndef JUndef = True"
| "strict_eq JNull JNull = True"
| "strict_eq (JBool a) (JBool b) = (a = b)"
| "strict_eq (JNum a) (JNum b) = (a = b \<and> a \<noteq> NaN)"
| "strict_eq (JStr a) (JStr b) = (a = b)"
| "strict_eq _ _ = False"

lemma size_snd_less: "kv \<in> set ob \<Longrightarrow> size (snd kv) < Suc (size_list (\<lambda>x. Suc (size (snd x))) ob)"
  by (induction ob) auto

function isJsonSubset :: "jsval \<Rightarrow> jsval \<Rightarrow> bool" where
  "isJsonSubset (JArr xs) full = (case full of
       JArr ys \<Rightarrow> length xs = length ys \<and> (\<forall>i \<in> set [0..<length xs]. isJsonSubset (xs ! i) (ys ! i))
     | _ \<Rightarrow> False)"
| "isJsonSubset (JObj ob) full = (case full of
       JObj fb \<Rightarrow> (\<forall>kv \<in> set ob. isJsonSubset (snd kv) (js_prop fb (fst kv)))
     | _ \<Rightarrow> False)"
| "isJsonSubset JUndef full = strict_eq JUndef full"
| "isJsonSubset JNull full = strict_eq JNull full"
| "isJsonSubset (JBool b) full = strict_eq (JBool b) full"
| "isJsonSubset (JNum n) full = strict_eq (JNum n) full"
| "isJsonSubset (JStr s) full = strict_eq (JStr s) full"
  by pat_completeness auto

termination
proof (relation "measure (size \<circ> fst)", goal_cases)
  case (2 xs full ys i)
  then have "xs ! i \<in> set xs"
    by simp
  then show ?case
    by (simp add: size_list_estimation' less_Suc_eq_le)
next
  case (3 ob full fb kv)
  then show ?case
    using size_snd_less [of kv ob] by (simp add: size_prod_simp)
qed simp

definition findExecutionOutput :: "execution_node list \<Rightarrow> string option \<Rightarrow> jsval" where
  "findExecutionOutput nodes path = (case nodes of
       [] \<Rightarrow> JUndef
     | first # _ \<Rightarrow>
        (case path of
          None \<Rightarrow> en_outputs first
        | Some p \<Rightarrow>
            if p = [] then en_outputs first
            else (let segments = split_on (CHR ''.'') p;
                      rest = join_with (CHR ''.'') (tl segments)
                  in case find (\<lambda>n. en_nodeId n = hd segments) nodes of
                       None \<Rightarrow> JUndef
                     | Some node \<Rightarrow>
                         if rest \<noteq> [] then getByPath (en_outputs node) (Some rest)
                         else en_outputs node)))"

section \<open>The dimension scorers\<close>

text \<open>\<open>actual.includes(target)\<close>\<close>

definition str_includes :: "string \<Rightarrow> string \<Rightarrow> bool" where
  "str_includes hay needle \<longleftrightarrow> sublist needle hay"

definition task_success_actual :: "eval_case_row \<Rightarrow> scoring_artifact \<Rightarrow> match_spec \<Rightarrow> jsval" where
  "task_success_actual caseRow artifact spec =
     (let answer = (case finalAnswerText artifact of None \<Rightarrow> JNull | Some s \<Rightarrow> JStr s)
      in if caseKind caseRow = EXECUTION
         then findExecutionOutput (executionNodeOutputs artifact) (match_path spec)
         else getByPath answer (match_path spec))"

definition match_passes :: "js_runtime \<Rightarrow> match_spec \<Rightarrow> jsval \<Rightarrow> bool option" where
  "match_passes rt spec actual =
     (let tgt = parseMatchTarget rt (match_target spec)
      in case match_mode spec of
           EXACT \<Rightarrow> Some (strict_eq actual tgt)
         | CONTAINS \<Rightarrow> Some (case (actual, tgt) of
               (JStr a, JStr b) \<Rightarrow> str_includes a b
             | _ \<Rightarrow> False)
         | REGEX \<Rightarrow> (case (actual, tgt) of
               (JStr a, JStr b) \<Rightarrow> regexp_test rt b a
             | _ \<Rightarrow> Some False)
         | JSON_SUBSET \<Rightarrow> Some (isJsonSubset tgt actual))"

definition scoreTaskSuccess ::
  "js_runtime \<Rightarrow> eval_case_row \<Rightarrow> scoring_artifact \<Rightarrow> eval_case \<Rightarrow> dimension_score option" where
  "scoreTaskSuccess rt caseRow artifact evalCase = (case expectedOutcome evalCase of
       None \<Rightarrow> Some (not_scored Task_success NOT_APPLICABLE DETERMINISTIC)
     | Some spec \<Rightarrow>
        if match_judge spec then Some (not_scored Task_success PENDING JUDGE)
        else (case match_passes rt spec (task_success_actual caseRow artifact spec) of
            None \<Rightarrow> None
          | Some pass \<Rightarrow> Some (scored Task_success (Some (Boolean pass)) None)))"

fun decisionMap :: "policy_decision \<Rightarrow> string" where
  "decisionMap PERMIT = ''permit''"
| "decisionMap DENY = ''deny''"
| "decisionMap ESCALATE = ''escalate''"

definition scorePolicyCompliance :: "scoring_artifact \<Rightarrow> eval_case \<Rightarrow> dimension_score" where
  "scorePolicyCompliance artifact evalCase = (case expectedPolicyOutcome evalCase of
       None \<Rightarrow> not_scored Policy_compliance NOT_APPLICABLE DETERMINISTIC
     | Some expected \<Rightarrow>
        (let expectedDecisionLower = decisionMap (expected_decision expected);
             observedReasons = map finding_reason (findings artifact);
             observedDecisions = remdups (map finding_decision (findings artifact));
             missingTypes = filter (\<lambda>ft. ft \<notin> set observedReasons) (findingTypes expected);
             decisionMatches =
               (if findingTypes expected = []
                then expectedDecisionLower \<in> set observedDecisions \<or> observedDecisions = []
                else list_ex (\<lambda>f. finding_decision f = expectedDecisionLower) (findings artifact));
             pass = (decisionMatches \<and> missingTypes = [])
         in scored Policy_compliance (Some (Boolean pass)) None))"

definition TOOL_PERMITTED_PREFIX :: string where
  "TOOL_PERMITTED_PREFIX = ''tool_permitted:not_on_deny_list:''"

definition permittedTools :: "scoring_artifact \<Rightarrow> string list" where
  "permittedTools artifact =
     map (\<lambda>f. drop (length TOOL_PERMITTED_PREFIX) (finding_reason f))
       (filter (\<lambda>f. prefix TOOL_PERMITTED_PREFIX (finding_reason f)) (findings artifact))"

text \<open>The two counting loops of the tool score, with the totals they carry.\<close>

fun required_loop :: "string list \<Rightarrow> string list \<Rightarrow> nat \<times> nat \<Rightarrow> nat \<times> nat" where
  "required_loop permitted [] acc = acc"
| "required_loop permitted (tool # rest) (satisfied, tot) =
     required_loop permitted rest (if tool \<in> set permitted then satisfied + 1 else satisfied, tot + 1)"

fun forbidden_loop :: "string list \<Rightarrow> string list \<Rightarrow> nat \<times> nat \<Rightarrow> nat \<times> nat" where
  "forbidden_loop permitted [] acc = acc"
| "forbidden_loop permitted (tool # rest) (satisfied, tot) =
     forbidden_loop permitted rest (if tool \<in> set permitted then satisfied else satisfied + 1, tot + 1)"

definition scoreToolAccuracy :: "scoring_artifact \<Rightarrow> eval_case \<Rightarrow> dimension_score" where
  "scoreToolAccuracy artifact evalCase =
     (let required = requiredTools evalCase; forbidden = forbiddenTools evalCase
      in if required = [] \<and> forbidden = []
         then not_scored Tool_accuracy NOT_APPLICABLE DETERMINISTIC
         else (let permitted = permittedTools artifact;
                   (satisfied, tot) =
                     forbidden_loop permitted forbidden (required_loop permitted required (0, 0));
                   rawScore = (if tot = 0 then 1 else of_nat satisfied / of_nat tot);
                   score = round6dp rawScore
               in scored Tool_accuracy (Some (Score score)) (Some score)))"

definition latency_measurement :: "js_runtime \<Rightarrow> eval_case_row \<Rightarrow> rat option" where
  "latency_measurement rt caseRow =
     (if targetAdapter caseRow = Conversation then latencyMs caseRow
      else (let startAnchor = (case startedAt caseRow of Some s \<Rightarrow> Some s | None \<Rightarrow> dispatchedAt caseRow)
            in if nonempty_str startAnchor \<and> nonempty_str (completedAt caseRow)
               then (case (date_ms rt (the startAnchor), date_ms rt (the (completedAt caseRow))) of
                   (Some startMs, Some endMs) \<Rightarrow> Some (max 0 (endMs - startMs))
                 | _ \<Rightarrow> None)
               else None))"

text \<open>A measurement, judged against the case's budget when it has one.\<close>

definition budgeted :: "dimension \<Rightarrow> rat \<Rightarrow> rat option \<Rightarrow> dimension_score" where
  "budgeted d m budget = (case budget of
       Some b \<Rightarrow> scored d (Some (Boolean (m \<le> b))) (Some m)
     | None \<Rightarrow> scored d None (Some m))"

definition scoreLatency :: "js_runtime \<Rightarrow> eval_case_row \<Rightarrow> eval_case \<Rightarrow> dimension_score" where
  "scoreLatency rt caseRow evalCase = (case latency_measurement rt caseRow of
       None \<Rightarrow> not_scored Latency UNKNOWN DETERMINISTIC
     | Some m \<Rightarrow> budgeted Latency m (maxLatencyMs evalCase))"

definition scoreCost :: "scoring_artifact \<Rightarrow> eval_case \<Rightarrow> dimension_score" where
  "scoreCost artifact evalCase =
     (let rows = costRows artifact
      in if rows = [] then not_scored Cost UNKNOWN DETERMINISTIC
         else if list_ex (\<lambda>r. \<not> cost_priced r \<or> cost_usd r = None) rows
         then not_scored Cost UNKNOWN DETERMINISTIC
         else (let totalUsd = round6dp (foldl (\<lambda>acc r. acc + (case cost_usd r of Some u \<Rightarrow> u | None \<Rightarrow> 0)) 0 rows)
               in budgeted Cost totalUsd (maxCostUsd evalCase)))"

definition newline :: char where
  "newline = CHR 10"

definition citationTextForCase :: "js_runtime \<Rightarrow> eval_case_row \<Rightarrow> scoring_artifact \<Rightarrow> string" where
  "citationTextForCase rt caseRow artifact =
     (if targetAdapter caseRow = Conversation
      then (case finalAnswerText artifact of Some s \<Rightarrow> s | None \<Rightarrow> [])
      else join_with newline (map (\<lambda>n. case en_outputs n of
             JStr s \<Rightarrow> s
           | JUndef \<Rightarrow> json_stringify rt (JStr [])
           | JNull \<Rightarrow> json_stringify rt (JStr [])
           | v \<Rightarrow> json_stringify rt v) (executionNodeOutputs artifact)))"

definition KB_TOOL_PERMITTED :: string where
  "KB_TOOL_PERMITTED = TOOL_PERMITTED_PREFIX @ ''query_knowledge_base''"

definition scoreGroundednessCitation ::
  "js_runtime \<Rightarrow> eval_case_row \<Rightarrow> scoring_artifact \<Rightarrow> eval_case \<Rightarrow> dimension_score" where
  "scoreGroundednessCitation rt caseRow artifact evalCase =
     (let withCitation = filter (\<lambda>r. length (mustCiteAnyOf r) > 0) (groundingRequirements evalCase)
      in if withCitation = [] then not_scored Groundedness_citation NOT_APPLICABLE DETERMINISTIC
         else (let txt = citationTextForCase rt caseRow artifact;
                   kbConsulted = list_ex (\<lambda>f. finding_reason f = KB_TOOL_PERMITTED) (findings artifact);
                   results = map (\<lambda>req. list_ex (str_includes txt) (mustCiteAnyOf req) \<or> kbConsulted)
                               withCitation;
                   pass = list_all (\<lambda>b. b) results
               in scored Groundedness_citation (Some (Boolean pass)) None))"

definition scoreGroundednessFaithfulness :: "eval_case \<Rightarrow> dimension_score" where
  "scoreGroundednessFaithfulness evalCase =
     (if \<not> list_ex mustNotHallucinate (groundingRequirements evalCase)
      then not_scored Groundedness_faithfulness NOT_APPLICABLE DETERMINISTIC
      else not_scored Groundedness_faithfulness PENDING JUDGE)"

definition scoreTrajectoryDimension :: "scoring_artifact \<Rightarrow> eval_case \<Rightarrow> dimension_score" where
  "scoreTrajectoryDimension artifact evalCase =
     scoreTrajectory (observedTrajectory artifact) (trajectorySpec evalCase)"

text \<open>A stable sort by the canonical index.\<close>

definition canonicalScoreVector :: "score_vector \<Rightarrow> score_vector" where
  "canonicalScoreVector vec = sort_key dimension vec"

text \<open>The result is absent exactly when the regular expression of the case is invalid.\<close>

definition scoreCase ::
  "js_runtime \<Rightarrow> eval_case_row \<Rightarrow> scoring_artifact \<Rightarrow> eval_case \<Rightarrow> score_vector option" where
  "scoreCase rt caseRow artifact evalCase =
     (case scoreTaskSuccess rt caseRow artifact evalCase of
       None \<Rightarrow> None
     | Some taskSuccess \<Rightarrow> Some (canonicalScoreVector
         [taskSuccess,
          scorePolicyCompliance artifact evalCase,
          scoreToolAccuracy artifact evalCase,
          scoreLatency rt caseRow evalCase,
          scoreCost artifact evalCase,
          scoreGroundednessCitation rt caseRow artifact evalCase,
          scoreGroundednessFaithfulness evalCase,
          scoreTrajectoryDimension artifact evalCase]))"

section \<open>Every scorer scores its own dimension\<close>

lemma dimension_scoreTaskSuccess:
  "scoreTaskSuccess rt row a c = Some s \<Longrightarrow> dimension s = Task_success"
  by (auto simp: scoreTaskSuccess_def split: option.splits if_splits)

lemma dimension_scorers [simp]:
  "dimension (scorePolicyCompliance a c) = Policy_compliance"
  "dimension (scoreToolAccuracy a c) = Tool_accuracy"
  "dimension (scoreLatency rt row c) = Latency"
  "dimension (scoreCost a c) = Cost"
  "dimension (scoreGroundednessCitation rt row a c) = Groundedness_citation"
  "dimension (scoreGroundednessFaithfulness c) = Groundedness_faithfulness"
  "dimension (scoreTrajectoryDimension a c) = Trajectory"
  by (simp_all add: scorePolicyCompliance_def scoreToolAccuracy_def scoreLatency_def scoreCost_def
      scoreGroundednessCitation_def scoreGroundednessFaithfulness_def scoreTrajectoryDimension_def
      scoreTrajectory_def budgeted_def Let_def split: option.split prod.split)

text \<open>What an unscored dimension never carries.\<close>

definition score_wf :: "dimension_score \<Rightarrow> bool" where
  "score_wf s \<longleftrightarrow> (status s \<noteq> SCORED \<longrightarrow> verdict s = None \<and> measurement s = None) \<and>
     (basis s = JUDGE \<longrightarrow> status s = PENDING)"

lemma score_wf_intros [simp]:
  "score_wf (scored d v m)"
  "score_wf (not_scored d st DETERMINISTIC)"
  "score_wf (not_scored d PENDING b)"
  by (simp_all add: score_wf_def scored_def not_scored_def)

lemma score_wf_task: "scoreTaskSuccess rt row a c = Some s \<Longrightarrow> score_wf s"
  by (auto simp: scoreTaskSuccess_def split: option.splits if_splits)

lemma score_wf_scorers [simp]:
  "score_wf (scorePolicyCompliance a c)"
  "score_wf (scoreToolAccuracy a c)"
  "score_wf (scoreLatency rt row c)"
  "score_wf (scoreCost a c)"
  "score_wf (scoreGroundednessCitation rt row a c)"
  "score_wf (scoreGroundednessFaithfulness c)"
  "score_wf (scoreTrajectoryDimension a c)"
  by (simp_all add: scorePolicyCompliance_def scoreToolAccuracy_def scoreLatency_def scoreCost_def
      scoreGroundednessCitation_def scoreGroundednessFaithfulness_def scoreTrajectoryDimension_def
      scoreTrajectory_def budgeted_def Let_def split: option.split prod.split)

lemma scoreCase_canonical_facts:
  "scoreCase rt row artifact evalCase = Some vec \<Longrightarrow>
     map dimension vec = DIMENSION_ORDER \<and> list_all score_wf vec"
  "scoreCase rt row artifact evalCase = None \<Longrightarrow>
     (\<exists>spec re hay. expectedOutcome evalCase = Some spec \<and> match_mode spec = REGEX \<and>
        parseMatchTarget rt (match_target spec) = JStr re \<and> regexp_test rt re hay = None)"
proof -
  assume "scoreCase rt row artifact evalCase = Some vec"
  then obtain ts where ts: "scoreTaskSuccess rt row artifact evalCase = Some ts"
    and vec: "vec = canonicalScoreVector [ts, scorePolicyCompliance artifact evalCase,
      scoreToolAccuracy artifact evalCase, scoreLatency rt row evalCase, scoreCost artifact evalCase,
      scoreGroundednessCitation rt row artifact evalCase, scoreGroundednessFaithfulness evalCase,
      scoreTrajectoryDimension artifact evalCase]" (is "_ = canonicalScoreVector ?v")
    by (auto simp: scoreCase_def split: option.splits)
  have dims: "map dimension ?v = DIMENSION_ORDER"
    using dimension_scoreTaskSuccess [OF ts] by (simp add: DIMENSION_ORDER_def)
  then have "canonicalScoreVector ?v = ?v"
    unfolding canonicalScoreVector_def by (metis sorted_DIMENSION_ORDER sorted_sort_id sort_key_id_if_sorted)
  moreover have "list_all score_wf ?v"
    using score_wf_task [OF ts] by simp
  ultimately show "map dimension vec = DIMENSION_ORDER \<and> list_all score_wf vec"
    using dims by (simp add: vec)
next
  assume "scoreCase rt row artifact evalCase = None"
  then obtain spec where "expectedOutcome evalCase = Some spec"
    and "match_passes rt spec (task_success_actual row artifact spec) = None"
    by (auto simp: scoreCase_def scoreTaskSuccess_def split: option.splits if_splits)
  then show "\<exists>spec re hay. expectedOutcome evalCase = Some spec \<and> match_mode spec = REGEX \<and>
        parseMatchTarget rt (match_target spec) = JStr re \<and> regexp_test rt re hay = None"
    by (auto simp: match_passes_def Let_def split: match_mode.splits jsval.splits)
qed


lemma canonicalScoreVector_order_independent_facts:
  assumes "mset v = mset w" and "distinct (map dimension v)"
  shows "canonicalScoreVector v = canonicalScoreVector w"
    and "mset (canonicalScoreVector v) = mset v"
proof -
  have "inj_on dimension (set v)"
    using assms(2) by (simp add: distinct_map)
  then have "inj_on dimension (set (sort_key dimension v) \<union> set (sort_key dimension w))"
    using mset_eq_setD [OF assms(1)] by simp
  moreover have "mset (map dimension v) = mset (map dimension w)"
    using assms(1) by simp
  then have "distinct (map dimension w)"
    using assms(2) mset_eq_imp_distinct_iff by blast
  ultimately show "canonicalScoreVector v = canonicalScoreVector w"
    unfolding canonicalScoreVector_def
    using assms mset_eq_setD [OF assms(1)]
    by (intro map_sorted_distinct_set_unique [where f = dimension])
      (auto simp: distinct_map distinct_sort)
  show "mset (canonicalScoreVector v) = mset v"
    by (simp add: canonicalScoreVector_def)
qed

text \<open>The canonical vector does not depend on the order in which the scores were produced: two
  vectors with the same scores, one per dimension, are serialized identically.\<close>

theorem canonicalScoreVector_order_independent:
  assumes "mset v = mset w" and "distinct (map dimension v)"
  shows "canonicalScoreVector v = canonicalScoreVector w \<and> mset (canonicalScoreVector v) = mset v"
  using canonicalScoreVector_order_independent_facts [OF assms] by blast

section \<open>Tool accuracy\<close>

lemma required_loop_eq:
  "required_loop permitted req (s, n) =
     (s + length (filter (\<lambda>x. x \<in> set permitted) req), n + length req)"
  by (induction req arbitrary: s n) auto

lemma forbidden_loop_eq:
  "forbidden_loop permitted forb (s, n) =
     (s + length (filter (\<lambda>x. x \<notin> set permitted) forb), n + length forb)"
  by (induction forb arbitrary: s n) auto

text \<open>The tool score lies between 0 and 1 and, for fewer than a million constraints, is 1 exactly
  when every required tool was permitted to run and no forbidden tool was.\<close>

theorem scoreToolAccuracy_correct:
  assumes "requiredTools c \<noteq> [] \<or> forbiddenTools c \<noteq> []"
    and "length (requiredTools c) + length (forbiddenTools c) \<le> 1000000"
  shows "\<exists>s. scoreToolAccuracy a c = scored Tool_accuracy (Some (Score s)) (Some s) \<and>
    0 \<le> s \<and> s \<le> 1 \<and>
    (s = 1) = (set (requiredTools c) \<subseteq> set (permittedTools a) \<and>
               set (forbiddenTools c) \<inter> set (permittedTools a) = {})"
proof -
  let ?P = "set (permittedTools a)"
  define r where "r = length (filter (\<lambda>x. x \<in> ?P) (requiredTools c))"
  define f where "f = length (filter (\<lambda>x. x \<notin> ?P) (forbiddenTools c))"
  define n where "n = length (requiredTools c) + length (forbiddenTools c)"
  let ?s = "round6dp (of_nat (r + f) / of_nat n)"
  have n: "0 < n" "n \<le> 1000000"
    using assms by (auto simp: n_def)
  have le: "r \<le> length (requiredTools c)" "f \<le> length (forbiddenTools c)"
    by (simp_all add: r_def f_def)
  have "scoreToolAccuracy a c = scored Tool_accuracy (Some (Score ?s)) (Some ?s)"
    using assms(1) n(1)
    by (auto simp: scoreToolAccuracy_def Let_def required_loop_eq forbidden_loop_eq r_def f_def n_def)
  moreover have "0 \<le> ?s \<and> ?s \<le> 1"
    using n le by (intro round6dp_fraction_unit) (simp_all add: n_def)
  moreover have "r + f = n \<longleftrightarrow> r = length (requiredTools c) \<and> f = length (forbiddenTools c)"
    using le by (auto simp: n_def)
  moreover have "r = length (requiredTools c) \<longleftrightarrow> set (requiredTools c) \<subseteq> ?P"
    unfolding r_def length_filter_all by blast
  moreover have "f = length (forbiddenTools c) \<longleftrightarrow> set (forbiddenTools c) \<inter> ?P = {}"
    unfolding f_def length_filter_all by blast
  ultimately show ?thesis
    using round6dp_fraction_eq_1 [of "r + f" n] n le by (auto simp: n_def)
qed

section \<open>The subset relation on JSON values\<close>

text \<open>The values \<open>JSON.parse\<close> can return.\<close>

function json_value :: "jsval \<Rightarrow> bool" where
  "json_value (JArr xs) = (\<forall>x \<in> set xs. json_value x)"
| "json_value (JObj ob) = (distinct (map fst ob) \<and> (\<forall>kv \<in> set ob. json_value (snd kv)))"
| "json_value (JNum n) = is_finite n"
| "json_value JUndef = False"
| "json_value JNull = True"
| "json_value (JBool b) = True"
| "json_value (JStr s) = True"
  by pat_completeness auto

termination
proof (relation "measure size", goal_cases)
  case (2 xs x)
  then show ?case
    by (simp add: size_list_estimation' less_Suc_eq_le)
next
  case (3 ob kv)
  then show ?case
    using size_snd_less [of kv ob] by (simp add: size_prod_simp)
qed simp

lemma isJsonSubset_JUndef_right [simp]: "isJsonSubset v JUndef \<longleftrightarrow> v = JUndef"
  by (cases v) auto

lemma isJsonSubset_refl: "json_value v \<Longrightarrow> isJsonSubset v v"
proof (induction v rule: json_value.induct)
  case (2 ob)
  have "isJsonSubset (snd kv) (js_prop ob (fst kv))" if "kv \<in> set ob" for kv
  proof -
    have "js_prop ob (fst kv) = snd kv"
      using that "2.prems" by (intro js_prop_distinct) simp_all
    with "2.IH" [OF that] "2.prems" that show ?thesis
      by simp
  qed
  then show ?case
    by simp
next
  case (3 n)
  then show ?case
    by (cases n) auto
qed auto

lemma isJsonSubset_trans:
  "json_value u \<Longrightarrow> isJsonSubset u v \<Longrightarrow> isJsonSubset v w \<Longrightarrow> isJsonSubset u w"
proof (induction u arbitrary: v w rule: json_value.induct)
  case (1 xs)
  from "1.prems" obtain ys zs where yz: "v = JArr ys" "w = JArr zs"
    "length xs = length ys" "length ys = length zs"
    by (auto split: jsval.splits)
  have "isJsonSubset (xs ! i) (zs ! i)" if i: "i < length xs" for i
  proof (rule "1.IH")
    show "xs ! i \<in> set xs" and "json_value (xs ! i)"
      using i "1.prems"(1) by simp_all
    show "isJsonSubset (xs ! i) (ys ! i)"
      using i "1.prems"(2) yz(1) by simp
    show "isJsonSubset (ys ! i) (zs ! i)"
      using i "1.prems"(3) yz by simp
  qed
  with yz show ?case
    by simp
next
  case (2 ob)
  from "2.prems" obtain fb fc where f: "v = JObj fb" "w = JObj fc"
    by (auto split: jsval.splits)
  have "isJsonSubset (snd kv) (js_prop fc (fst kv))" if kv: "kv \<in> set ob" for kv
  proof -
    have ok: "json_value (snd kv)" and sub: "isJsonSubset (snd kv) (js_prop fb (fst kv))"
      using kv "2.prems" f by auto
    have "js_prop fb (fst kv) \<noteq> JUndef"
      using ok sub by (metis isJsonSubset_JUndef_right json_value.simps(4))
    then have "(fst kv, js_prop fb (fst kv)) \<in> set fb"
      by (rule js_prop_in)
    then have "isJsonSubset (js_prop fb (fst kv)) (js_prop fc (fst kv))"
      using "2.prems"(3) f by force
    with "2.IH" [OF kv ok sub] show ?thesis .
  qed
  with f show ?case
    by simp
qed (auto elim!: strict_eq.elims(2))

lemma isJsonSubset_preorder_facts:
  assumes "json_value u"
  shows "isJsonSubset u u"
    and "isJsonSubset u v \<Longrightarrow> isJsonSubset v w \<Longrightarrow> isJsonSubset u w"
    and "u = JObj ob \<Longrightarrow> distinct (map fst (ob @ extra)) \<Longrightarrow> isJsonSubset u (JObj (ob @ extra))"
proof -
  show "isJsonSubset u u"
    using assms by (rule isJsonSubset_refl)
  show "isJsonSubset u w" if "isJsonSubset u v" "isJsonSubset v w"
    using assms that by (rule isJsonSubset_trans)
  assume u: "u = JObj ob" and d: "distinct (map fst (ob @ extra))"
  have "isJsonSubset (snd kv) (js_prop (ob @ extra) (fst kv))" if "kv \<in> set ob" for kv
  proof -
    have "js_prop (ob @ extra) (fst kv) = snd kv"
      using d that by (intro js_prop_distinct) simp_all
    with that assms u show ?thesis
      by (simp add: isJsonSubset_refl)
  qed
  then show "isJsonSubset u (JObj (ob @ extra))"
    by (simp add: u)
qed

text \<open>The structural match of an expected JSON outcome is a preorder on JSON values, so an outcome
  that contains the expected one keeps matching when more keys are added to it.\<close>

theorem isJsonSubset_preorder:
  assumes "json_value u"
  shows "isJsonSubset u u \<and>
    (isJsonSubset u v \<and> isJsonSubset v w \<longrightarrow> isJsonSubset u w) \<and>
    (u = JObj ob \<and> distinct (map fst (ob @ extra)) \<longrightarrow> isJsonSubset u (JObj (ob @ extra)))"
  using isJsonSubset_preorder_facts [OF assms] by blast

theorem isJsonSubset_preorder_witness:
  "isJsonSubset (JObj [(''a'', JNum (Fin 1))]) (JObj [(''a'', JNum (Fin 1)), (''b'', JNull)])"
proof -
  have "json_value (JObj [(''a'', JNum (Fin 1))])"
    by simp
  then have "isJsonSubset (JObj [(''a'', JNum (Fin 1))]) (JObj ([(''a'', JNum (Fin 1))] @ [(''b'', JNull)]))"
    by (rule isJsonSubset_preorder [THEN conjunct2, THEN conjunct2, THEN mp]) simp
  then show ?thesis
    by (simp only: append.simps)
qed

section \<open>A scored case\<close>

definition sample_runtime :: js_runtime where
  "sample_runtime =
     \<lparr>json_parse = (\<lambda>s. None), json_stringify = (\<lambda>v. ''{}''),
      regexp_test = (\<lambda>re s. if re = ''('' then None else Some (sublist re s)),
      date_ms = (\<lambda>s. Some (of_nat (digits_value s)))\<rparr>"

definition sample_row :: eval_case_row where
  "sample_row =
     \<lparr>row_caseId = ''c1'', caseKind = CONVERSATION, targetAdapter = Conversation,
      latencyMs = Some 1200, dispatchedAt = None, startedAt = None, completedAt = None\<rparr>"

definition sample_artifact :: scoring_artifact where
  "sample_artifact =
     \<lparr>finalAnswerText = Some ''refund issued'', executionNodeOutputs = [],
      findings = [\<lparr>finding_decision = ''permit'', finding_reason = TOOL_PERMITTED_PREFIX @ ''search''\<rparr>],
      costRows = [\<lparr>cost_priced = True, cost_usd = Some (1 / 100)\<rparr>],
      observedTrajectory = None\<rparr>"

definition sample_case :: "string \<Rightarrow> eval_case" where
  "sample_case re =
     \<lparr>ec_caseId = ''c1'',
      expectedOutcome = Some \<lparr>match_mode = REGEX, match_target = re, match_path = None, match_judge = False\<rparr>,
      requiredTools = [''search''], forbiddenTools = [''delete''], expectedPolicyOutcome = None,
      groundingRequirements = [], maxLatencyMs = Some 2000, maxCostUsd = None, trajectorySpec = None\<rparr>"

lemmas sample_case_simps = sample_runtime_def sample_row_def sample_artifact_def sample_case_def

theorem scoreToolAccuracy_correct_witness:
  "scoreToolAccuracy sample_artifact (sample_case ''refund'') =
     scored Tool_accuracy (Some (Score 1)) (Some 1)"
proof -
  have "permittedTools sample_artifact = [''search'']"
    by (simp add: permittedTools_def sample_case_simps)
  then show ?thesis
    using scoreToolAccuracy_correct [of "sample_case ''refund''" sample_artifact]
    by (auto simp: sample_case_simps)
qed


theorem canonicalScoreVector_order_independent_witness:
  "canonicalScoreVector [not_scored Cost UNKNOWN DETERMINISTIC, scored Latency None (Some 3)] =
   canonicalScoreVector [scored Latency None (Some 3), not_scored Cost UNKNOWN DETERMINISTIC]"
  by (rule canonicalScoreVector_order_independent [THEN conjunct1]) simp_all

end
