(* ===== verification/EvalAggregate.thy ===== *)
theory EvalAggregate
  imports EvalScoring
begin

text \<open>
  The run-level rollup of score vectors (backend/src/lambda/utils/eval-score-aggregate.ts): one
  aggregate per dimension, never a composite number. The percentile helper is also the one of
  eval-comparison.ts.
\<close>

record dimension_aggregate =
  agg_dimension :: dimension
  scoredCount :: nat
  notApplicableCount :: nat
  unknownCount :: nat
  pendingCount :: nat
  passedCount :: "nat option"
  passRate :: "rat option"
  meanScore :: "rat option"
  p50 :: "rat option"
  p95 :: "rat option"
  sumUsd :: "rat option"
  meanUsd :: "rat option"

record case_score_row =
  csr_caseId :: string
  scoreVector :: score_vector

definition percentile :: "rat list \<Rightarrow> rat \<Rightarrow> rat" where
  "percentile sorted_xs p =
     (if length sorted_xs = 0 then 0
      else (let index = \<lceil>(p / 100) * of_nat (length sorted_xs)\<rceil> - 1
            in sorted_xs ! nat (max 0 index)))"

definition emptyAggregate :: "dimension \<Rightarrow> dimension_aggregate" where
  "emptyAggregate d =
     \<lparr>agg_dimension = d, scoredCount = 0, notApplicableCount = 0, unknownCount = 0,
      pendingCount = 0, passedCount = None, passRate = None, meanScore = None, p50 = None,
      p95 = None, sumUsd = None, meanUsd = None\<rparr>"

text \<open>One turn of the loop that sorts the scores of a dimension by status.\<close>

definition count_status ::
  "dimension_aggregate \<times> score_vector \<Rightarrow> dimension_score \<Rightarrow> dimension_aggregate \<times> score_vector" where
  "count_status acc s = (case status s of
       NOT_APPLICABLE \<Rightarrow> ((fst acc)\<lparr>notApplicableCount := notApplicableCount (fst acc) + 1\<rparr>, snd acc)
     | UNKNOWN \<Rightarrow> ((fst acc)\<lparr>unknownCount := unknownCount (fst acc) + 1\<rparr>, snd acc)
     | PENDING \<Rightarrow> ((fst acc)\<lparr>pendingCount := pendingCount (fst acc) + 1\<rparr>, snd acc)
     | SCORED \<Rightarrow> (fst acc, snd acc @ [s]))"

fun verdict_score :: "verdict option \<Rightarrow> rat" where
  "verdict_score (Some (Score r)) = r"
| "verdict_score _ = 0"

definition boolean_kind :: "dimension_score \<Rightarrow> bool" where
  "boolean_kind s = (case verdict s of Some (Boolean _) \<Rightarrow> True | _ \<Rightarrow> False)"

definition score_kind :: "dimension_score \<Rightarrow> bool" where
  "score_kind s = (case verdict s of Some (Score _) \<Rightarrow> True | _ \<Rightarrow> False)"

definition measurements :: "score_vector \<Rightarrow> rat list" where
  "measurements v = List.map_filter measurement v"

text \<open>\<open>values.reduce((a, b) => a + b, 0) / values.length\<close>, rounded.\<close>

definition mean6dp :: "rat list \<Rightarrow> rat" where
  "mean6dp xs = round6dp (foldl (+) 0 xs / of_nat (length xs))"

definition latency_stats :: "score_vector \<Rightarrow> dimension_aggregate \<Rightarrow> dimension_aggregate" where
  "latency_stats scoreds agg =
     (let vs = sort (measurements scoreds)
      in if length vs > 0 then agg\<lparr>p50 := Some (percentile vs 50), p95 := Some (percentile vs 95)\<rparr>
         else agg)"

definition cost_stats :: "score_vector \<Rightarrow> dimension_aggregate \<Rightarrow> dimension_aggregate" where
  "cost_stats scoreds agg =
     (let vs = measurements scoreds
      in if length vs > 0 then agg\<lparr>sumUsd := Some (round6dp (foldl (+) 0 vs)), meanUsd := Some (mean6dp vs)\<rparr>
         else agg)"

definition verdict_stats :: "score_vector \<Rightarrow> dimension_aggregate \<Rightarrow> dimension_aggregate" where
  "verdict_stats scoreds agg =
     (let booleanScored = filter boolean_kind scoreds;
          scoreScored = filter score_kind scoreds;
          passed = length (filter (\<lambda>s. verdict s = Some (Boolean True)) booleanScored);
          agg1 = (if length booleanScored > 0
                  then agg\<lparr>passedCount := Some passed,
                           passRate := Some (round6dp (of_nat passed / of_nat (length booleanScored)))\<rparr>
                  else agg)
      in if length scoreScored > 0
         then agg1\<lparr>meanScore := Some (mean6dp (map (\<lambda>s. verdict_score (verdict s)) scoreScored))\<rparr>
         else agg1)"

definition aggregateDimension :: "score_vector \<Rightarrow> dimension \<Rightarrow> dimension_aggregate" where
  "aggregateDimension scores d =
     (let (counted, scoreds) = foldl count_status (emptyAggregate d, []) scores;
          agg = counted\<lparr>scoredCount := length scoreds\<rparr>
      in if length scoreds = 0 then agg
         else if d = Latency then latency_stats scoreds agg
         else if d = Cost then cost_stats scoreds agg
         else verdict_stats scoreds agg)"

text \<open>The buckets of the map, in the order the rows push into them.\<close>

definition bucket :: "case_score_row list \<Rightarrow> dimension \<Rightarrow> score_vector" where
  "bucket rows d = filter (\<lambda>s. dimension s = d) (concat (map scoreVector rows))"

definition aggregateScoreVectors :: "case_score_row list \<Rightarrow> dimension_aggregate list" where
  "aggregateScoreVectors rows = map (\<lambda>d. aggregateDimension (bucket rows d) d) DIMENSION_ORDER"

section \<open>Percentiles\<close>

lemma percentile_index:
  assumes "xs \<noteq> []" and "0 \<le> p" and "p \<le> 100"
  shows "nat (max 0 (\<lceil>(p / 100) * of_nat (length xs)\<rceil> - 1)) < length xs"
proof -
  have "(p / 100) * of_nat (length xs) \<le> of_nat (length xs)"
    using assms(2,3) by (intro mult_left_le_one_le) auto
  then have "\<lceil>(p / 100) * of_nat (length xs)\<rceil> \<le> int (length xs)"
    by (simp add: ceiling_le_iff)
  moreover have "0 < length xs"
    using assms(1) by simp
  ultimately show ?thesis
    by linarith
qed

lemma percentile_in_set:
  "xs \<noteq> [] \<Longrightarrow> 0 \<le> p \<Longrightarrow> p \<le> 100 \<Longrightarrow> percentile xs p \<in> set xs"
  using percentile_index [of xs p] by (simp add: percentile_def Let_def)

lemma percentile_mono:
  assumes "sorted xs" and "0 \<le> p" and "p \<le> q" and "q \<le> 100"
  shows "percentile xs p \<le> percentile xs q"
proof (cases "xs = []")
  case False
  have "(p / 100) * of_nat (length xs) \<le> (q / 100) * of_nat (length xs)"
    using assms(3) by (intro mult_right_mono) auto
  then have "\<lceil>(p / 100) * of_nat (length xs)\<rceil> \<le> \<lceil>(q / 100) * of_nat (length xs)\<rceil>"
    by (rule ceiling_mono)
  then have "nat (max 0 (\<lceil>(p / 100) * of_nat (length xs)\<rceil> - 1))
      \<le> nat (max 0 (\<lceil>(q / 100) * of_nat (length xs)\<rceil> - 1))"
    by linarith
  then show ?thesis
    using False assms percentile_index [of xs q]
    by (simp add: percentile_def Let_def sorted_nth_mono)
qed (simp add: percentile_def)

text \<open>Nearest rank: the percentile is the smallest entry with at least that share of the entries at
  or below it.\<close>

lemma percentile_rank:
  assumes "sorted xs" and "xs \<noteq> []" and "0 \<le> p" and "p \<le> 100"
  shows "(p / 100) * of_nat (length xs) \<le> of_nat (length (filter (\<lambda>x. x \<le> percentile xs p) xs))"
proof -
  define i where "i = nat (max 0 (\<lceil>(p / 100) * of_nat (length xs)\<rceil> - 1))"
  have i: "i < length xs"
    using percentile_index [OF assms(2-4)] by (simp add: i_def)
  have per: "percentile xs p = xs ! i"
    using assms(2) by (simp add: percentile_def Let_def i_def)
  have "xs = take (Suc i) xs @ drop (Suc i) xs"
    by simp
  then have "length (filter (\<lambda>x. x \<le> xs ! i) xs) \<ge> length (filter (\<lambda>x. x \<le> xs ! i) (take (Suc i) xs))"
    by (metis filter_append le_add1 length_append)
  moreover have "\<forall>x \<in> set (take (Suc i) xs). x \<le> xs ! i"
    using assms(1) i by (auto simp: in_set_conv_nth sorted_nth_mono)
  then have "length (filter (\<lambda>x. x \<le> xs ! i) (take (Suc i) xs)) = Suc i"
    using i by (simp add: length_filter_all [THEN iffD2])
  ultimately have "Suc i \<le> length (filter (\<lambda>x. x \<le> percentile xs p) xs)"
    by (simp add: per)
  moreover have "(p / 100) * of_nat (length xs) \<le> of_nat (Suc i)"
  proof -
    have "\<lceil>(p / 100) * of_nat (length xs)\<rceil> \<le> int (Suc i)"
      by (simp add: i_def)
    then show ?thesis
      by (metis ceiling_le_iff of_int_of_nat_eq)
  qed
  ultimately show ?thesis
    by (meson of_nat_le_iff order_trans)
qed

section \<open>Counting\<close>

definition count_of :: "dim_status \<Rightarrow> score_vector \<Rightarrow> nat" where
  "count_of st v = length (filter (\<lambda>s. status s = st) v)"

lemma foldl_count_status:
  "foldl count_status (emptyAggregate d, []) v =
     ((emptyAggregate d)\<lparr>notApplicableCount := count_of NOT_APPLICABLE v,
        unknownCount := count_of UNKNOWN v, pendingCount := count_of PENDING v\<rparr>,
      filter (\<lambda>s. status s = SCORED) v)"
proof (induction v rule: rev_induct)
  case Nil
  then show ?case
    by (simp add: emptyAggregate_def count_of_def)
next
  case (snoc s v)
  then show ?case
    by (cases "status s") (simp_all add: count_status_def count_of_def)
qed

lemma count_of_split:
  "length v = count_of SCORED v + count_of NOT_APPLICABLE v + count_of UNKNOWN v + count_of PENDING v"
proof (induction v)
  case (Cons s v)
  then show ?case
    by (cases "status s") (simp_all add: count_of_def)
qed (simp add: count_of_def)

lemma stats_keep [simp]:
  "agg_dimension (latency_stats v a) = agg_dimension a"
  "scoredCount (latency_stats v a) = scoredCount a"
  "notApplicableCount (latency_stats v a) = notApplicableCount a"
  "unknownCount (latency_stats v a) = unknownCount a"
  "pendingCount (latency_stats v a) = pendingCount a"
  "agg_dimension (cost_stats v a) = agg_dimension a"
  "scoredCount (cost_stats v a) = scoredCount a"
  "notApplicableCount (cost_stats v a) = notApplicableCount a"
  "unknownCount (cost_stats v a) = unknownCount a"
  "pendingCount (cost_stats v a) = pendingCount a"
  "agg_dimension (verdict_stats v a) = agg_dimension a"
  "scoredCount (verdict_stats v a) = scoredCount a"
  "notApplicableCount (verdict_stats v a) = notApplicableCount a"
  "unknownCount (verdict_stats v a) = unknownCount a"
  "pendingCount (verdict_stats v a) = pendingCount a"
  by (simp_all add: latency_stats_def cost_stats_def verdict_stats_def Let_def)

lemma aggregateDimension_counts:
  "agg_dimension (aggregateDimension v d) = d"
  "scoredCount (aggregateDimension v d) = count_of SCORED v"
  "notApplicableCount (aggregateDimension v d) = count_of NOT_APPLICABLE v"
  "unknownCount (aggregateDimension v d) = count_of UNKNOWN v"
  "pendingCount (aggregateDimension v d) = count_of PENDING v"
  unfolding aggregateDimension_def foldl_count_status Let_def prod.case
  by (simp_all add: emptyAggregate_def count_of_def)

text \<open>The rollup reports one aggregate per dimension in the canonical order, and its four counts
  partition the scores of that dimension: no score is lost, counted twice or fabricated.\<close>

theorem aggregateScoreVectors_counts:
  "map agg_dimension (aggregateScoreVectors rows) = DIMENSION_ORDER \<and>
   list_all (\<lambda>a. scoredCount a + notApplicableCount a + unknownCount a + pendingCount a =
       length (bucket rows (agg_dimension a)) \<and>
       scoredCount a = count_of SCORED (bucket rows (agg_dimension a)))
     (aggregateScoreVectors rows)"
proof -
  have "map agg_dimension (aggregateScoreVectors rows) = DIMENSION_ORDER"
    by (simp add: aggregateScoreVectors_def aggregateDimension_counts comp_def)
  then show ?thesis
    by (auto simp: aggregateScoreVectors_def list_all_iff aggregateDimension_counts
        intro: count_of_split [symmetric])
qed

text \<open>The latency percentiles of a run are latencies that were measured, in order, and at least
  half (ninety-five percent) of the measurements are no larger.\<close>

theorem latency_percentiles_correct:
  assumes "m = measurements (filter (\<lambda>s. status s = SCORED) v)" and "m \<noteq> []"
  shows "\<exists>a b. p50 (aggregateDimension v Latency) = Some a \<and> p95 (aggregateDimension v Latency) = Some b \<and>
     a \<in> set m \<and> b \<in> set m \<and> a \<le> b \<and>
     1 / 2 * of_nat (length m) \<le> (of_nat (length (filter (\<lambda>x. x \<le> a) m)) :: rat) \<and>
     95 / 100 * of_nat (length m) \<le> (of_nat (length (filter (\<lambda>x. x \<le> b) m)) :: rat)"
proof -
  have ne: "filter (\<lambda>s. status s = SCORED) v \<noteq> []"
    using assms by (auto simp: measurements_def)
  let ?s = "sort m"
  have s: "?s \<noteq> []"
    using assms(2) by (metis set_empty set_sort)
  have len: "length (filter P ?s) = length (filter P m)" for P :: "rat \<Rightarrow> bool"
    by (metis mset_filter mset_sort size_mset)
  have "p50 (aggregateDimension v Latency) = Some (percentile ?s 50)"
    and "p95 (aggregateDimension v Latency) = Some (percentile ?s 95)"
    using ne s assms by (simp_all add: aggregateDimension_def foldl_count_status latency_stats_def Let_def)
  moreover have "percentile ?s 50 \<in> set m" and "percentile ?s 95 \<in> set m"
    and "percentile ?s 50 \<le> percentile ?s 95"
    and "50 / 100 * of_nat (length m) \<le> (of_nat (length (filter (\<lambda>x. x \<le> percentile ?s 50) m)) :: rat)"
    and "95 / 100 * of_nat (length m) \<le> (of_nat (length (filter (\<lambda>x. x \<le> percentile ?s 95) m)) :: rat)"
    using s percentile_in_set [of ?s 50] percentile_in_set [of ?s 95] percentile_mono [of ?s 50 95]
      percentile_rank [of ?s 50] percentile_rank [of ?s 95]
    by (simp_all only: set_sort len length_sort sorted_sort) auto
  ultimately show ?thesis
    by auto
qed

text \<open>The pass rate of a dimension with boolean verdicts is a proportion: between 0 and 1, and (for
  up to a million cases) 1 exactly when every scored boolean verdict passed; unknown, pending
  and inapplicable scores do not enter it.\<close>

theorem passRate_correct:
  assumes "d \<noteq> Latency" and "d \<noteq> Cost"
    and "b = filter boolean_kind (filter (\<lambda>s. status s = SCORED) v)"
    and "b \<noteq> []" and "length b \<le> 1000000"
  shows "\<exists>r. passRate (aggregateDimension v d) = Some r \<and> 0 \<le> r \<and> r \<le> 1 \<and>
    (r = 1) = (\<forall>s \<in> set b. verdict s = Some (Boolean True))"
proof -
  define k where "k = length (filter (\<lambda>s. verdict s = Some (Boolean True)) b)"
  have "filter (\<lambda>s. status s = SCORED) v \<noteq> []"
    using assms(3,4) by (metis filter.simps(1))
  then have "passRate (aggregateDimension v d) = Some (round6dp (of_nat k / of_nat (length b)))"
    using assms by (simp add: aggregateDimension_def foldl_count_status verdict_stats_def Let_def k_def
        del: filter_filter)
  moreover have "k \<le> length b" and "k = length b \<longleftrightarrow> (\<forall>s \<in> set b. verdict s = Some (Boolean True))"
    by (simp_all add: k_def length_filter_all)
  ultimately show ?thesis
    using assms round6dp_fraction_eq_1 [of k "length b"] round6dp_fraction_unit [of k "length b"]
    by simp
qed

text \<open>Concrete rollups.\<close>

definition sample_latencies :: score_vector where
  "sample_latencies =
     [scored Latency None (Some 900), not_scored Latency UNKNOWN DETERMINISTIC,
      scored Latency (Some (Boolean True)) (Some 300)]"

definition sample_verdicts :: score_vector where
  "sample_verdicts =
     [scored Task_success (Some (Boolean True)) None, not_scored Task_success PENDING JUDGE,
      scored Task_success (Some (Boolean False)) None]"

theorem latency_percentiles_correct_witness:
  "\<exists>a b. p50 (aggregateDimension sample_latencies Latency) = Some a \<and>
     p95 (aggregateDimension sample_latencies Latency) = Some b \<and> a \<in> {900, 300} \<and> a \<le> b"
  using latency_percentiles_correct [of "[900, 300]" sample_latencies]
  by (auto simp: sample_latencies_def measurements_def map_filter_simps)

theorem passRate_correct_witness:
  "\<exists>r. passRate (aggregateDimension sample_verdicts Task_success) = Some r \<and> 0 \<le> r \<and> r < 1"
proof -
  have "\<exists>r. passRate (aggregateDimension sample_verdicts Task_success) = Some r \<and> 0 \<le> r \<and> r \<le> 1 \<and>
      (r = 1) = (\<forall>s \<in> set [scored Task_success (Some (Boolean True)) None,
        scored Task_success (Some (Boolean False)) None]. verdict s = Some (Boolean True))"
    by (rule passRate_correct) (simp_all add: sample_verdicts_def boolean_kind_def)
  then show ?thesis
    by auto
qed

end
