(* ===== verification/EvalComparison.thy ===== *)
theory EvalComparison
  imports EvalAggregate
begin

text \<open>
  The baseline-versus-candidate comparison of evaluation runs
  (backend/src/lambda/utils/eval-comparison.ts), whose verdict the release gate reads. Sums are
  exact, so they do not depend on the order of their terms.
\<close>

record comparison_thresholds =
  passRateDropThreshold :: rat
  meanScoreDropThreshold :: rat
  latencyP95IncreaseMsThreshold :: rat
  costIncreaseThreshold :: rat
  minSampleCount :: nat
  scoreStabilityBand :: rat

definition DEFAULT_COMPARISON_THRESHOLDS :: comparison_thresholds where
  "DEFAULT_COMPARISON_THRESHOLDS =
     \<lparr>passRateDropThreshold = 15 / 100, meanScoreDropThreshold = 15 / 100,
      latencyP95IncreaseMsThreshold = 500, costIncreaseThreshold = 5 / 100,
      minSampleCount = 10, scoreStabilityBand = 5 / 100\<rparr>"

record comparison_run =
  cr_evalRunId :: string
  cr_agentTargetVersion :: string
  cr_scorerVersion :: string
  cr_cases :: "case_score_row list"

datatype direction =
  Improved | Regressed | Unchanged | Unstable | Incomparable | Insufficient_sample

datatype case_class =
  C_improved | C_regressed | C_unchanged | C_unstable | C_incomparable | C_new | C_dropped

record per_case_row =
  pc_caseId :: string
  classification :: case_class
  baselineValue :: "rat option"
  candidateValue :: "rat option"

text \<open>The per-class counters are an object indexed by class name.\<close>

type_synonym case_counts = "case_class \<Rightarrow> nat"

record cmp_dimension =
  cd_dimension :: dimension
  direction :: direction
  materialRegression :: bool
  unstable :: bool
  baselineStat :: "rat option"
  candidateStat :: "rat option"
  delta :: "rat option"
  caseCounts :: case_counts
  perCase :: "per_case_row list"

datatype verdict_status =
  V_PASS | V_REGRESSED | V_UNSTABLE | V_INCOMPARABLE | V_NOTHING_TO_COMPARE

record comparison_verdict =
  baselineEvalRunId :: string
  baselineAgentTargetVersion :: string
  candidateEvalRunIds :: "string list"
  candidateAgentTargetVersion :: string
  repeatCount :: nat
  scorerVersions :: "string list"
  cv_thresholds :: comparison_thresholds
  cv_dimensions :: "cmp_dimension list"
  anyMaterialRegression :: bool
  materiallyRegressedDimensions :: "dimension list"
  unstableDimensions :: "dimension list"
  verdictStatus :: verdict_status

section \<open>Classifying one case in one dimension\<close>

definition HIGHER_IS_WORSE :: "dimension list" where
  "HIGHER_IS_WORSE = [Latency, Cost]"

definition comparableOf :: "dimension_score option \<Rightarrow> verdict option" where
  "comparableOf score = (case score of
       None \<Rightarrow> None
     | Some s \<Rightarrow> if status s \<noteq> SCORED then None else verdict s)"

definition comparableValueOrMeasurement :: "dimension_score option \<Rightarrow> rat option" where
  "comparableValueOrMeasurement score = (case comparableOf score of
       Some (Score r) \<Rightarrow> Some r
     | Some (Boolean p) \<Rightarrow> Some (if p then 1 else 0)
     | None \<Rightarrow> (case score of
           None \<Rightarrow> None
         | Some s \<Rightarrow> if status s = SCORED then measurement s else None))"

definition case_result :: "string \<Rightarrow> case_class \<Rightarrow> rat option \<Rightarrow> rat option \<Rightarrow> per_case_row" where
  "case_result i cl b c = \<lparr>pc_caseId = i, classification = cl, baselineValue = b, candidateValue = c\<rparr>"

text \<open>\<open>Math.max(...values) - Math.min(...values)\<close>\<close>

definition spread :: "rat list \<Rightarrow> rat" where
  "spread vs = (case vs of [] \<Rightarrow> 0 | v # rest \<Rightarrow> foldl max v rest - foldl min v rest)"

text \<open>\<open>length > 1 \<and> some \<and> not every\<close>: measured in some repeats and not in others.\<close>

definition mixedMeasurability :: "'a option list \<Rightarrow> bool" where
  "mixedMeasurability vs \<longleftrightarrow>
     length vs > 1 \<and> list_ex (\<lambda>v. v \<noteq> None) vs \<and> \<not> list_all (\<lambda>v. v \<noteq> None) vs"

definition classifyMeasured ::
  "string \<Rightarrow> dimension \<Rightarrow> dimension_score option \<Rightarrow> dimension_score option list \<Rightarrow>
   comparison_thresholds \<Rightarrow> per_case_row" where
  "classifyMeasured i d base cands th =
     (let baselineMeasured = comparableValueOrMeasurement base;
          measured = map comparableValueOrMeasurement cands
      in if mixedMeasurability measured then case_result i C_unstable None None
         else if baselineMeasured = None \<or> \<not> list_all (\<lambda>v. v \<noteq> None) measured \<or> measured = []
         then case_result i C_incomparable None None
         else (let vals = map the measured;
                   stabilityBand = (if d = Latency then latencyP95IncreaseMsThreshold th
                                    else costIncreaseThreshold th)
               in if length vals > 1 \<and> spread vals > stabilityBand
                  then case_result i C_unstable None None
                  else (let combinedCandidate = mean6dp vals;
                            dl = round6dp (combinedCandidate - the baselineMeasured)
                        in case_result i
                             (if dl = 0 then C_unchanged else if dl > 0 then C_regressed else C_improved)
                             baselineMeasured (Some combinedCandidate))))"

fun is_Boolean :: "verdict \<Rightarrow> bool" where
  "is_Boolean (Boolean _) = True"
| "is_Boolean (Score _) = False"

fun verdict_pass :: "verdict \<Rightarrow> bool" where
  "verdict_pass (Boolean p) = p"
| "verdict_pass (Score _) = False"

definition classifyBoolean :: "string \<Rightarrow> bool \<Rightarrow> bool list \<Rightarrow> per_case_row" where
  "classifyBoolean i basePass passes =
     (let allTrue = list_all (\<lambda>p. p) passes; allFalse = list_all (\<lambda>p. \<not> p) passes
      in if \<not> allTrue \<and> \<not> allFalse then case_result i C_unstable None None
         else (let candidatePass = allTrue
               in case_result i
                    (if basePass = candidatePass then C_unchanged
                     else if \<not> basePass \<and> candidatePass then C_improved else C_regressed)
                    (Some (if basePass then 1 else 0)) (Some (if candidatePass then 1 else 0))))"

definition classifyScore ::
  "string \<Rightarrow> dimension \<Rightarrow> rat \<Rightarrow> rat list \<Rightarrow> comparison_thresholds \<Rightarrow> per_case_row" where
  "classifyScore i d baselineVal vals th =
     (if length vals > 1 \<and> spread vals > scoreStabilityBand th then case_result i C_unstable None None
      else (let combinedCandidate = mean6dp vals;
                dl = round6dp (combinedCandidate - baselineVal)
            in case_result i
                 (if dl = 0 then C_unchanged
                  else if d \<in> set HIGHER_IS_WORSE then (if dl > 0 then C_regressed else C_improved)
                  else (if dl > 0 then C_improved else C_regressed))
                 (Some baselineVal) (Some combinedCandidate)))"

definition classifyVerdict ::
  "string \<Rightarrow> dimension \<Rightarrow> dimension_score option \<Rightarrow> dimension_score option list \<Rightarrow>
   comparison_thresholds \<Rightarrow> per_case_row" where
  "classifyVerdict i d base cands th =
     (let baselineComparable = comparableOf base;
          comparables = map comparableOf cands
      in if mixedMeasurability comparables then case_result i C_unstable None None
         else if baselineComparable = None \<or> \<not> list_all (\<lambda>c. c \<noteq> None) comparables \<or> comparables = []
         then case_result i C_incomparable None None
         else (let bv = the baselineComparable;
                   vs = map the comparables;
                   firstCandidateKind = is_Boolean (hd vs);
                   kindsAgree = list_all (\<lambda>c. is_Boolean c = firstCandidateKind) vs
               in if \<not> kindsAgree \<or> firstCandidateKind \<noteq> is_Boolean bv
                  then case_result i C_incomparable None None
                  else if is_Boolean bv
                  then classifyBoolean i (verdict_pass bv) (map verdict_pass vs)
                  else classifyScore i d (verdict_score (Some bv))
                         (map (\<lambda>c. verdict_score (Some c)) vs) th))"

text \<open>Baseline and every candidate repeat share the same status other than SCORED.\<close>

definition agreed_unscored :: "dimension_score option \<Rightarrow> dimension_score option list \<Rightarrow> bool" where
  "agreed_unscored base cands = (case base of
       None \<Rightarrow> False
     | Some b \<Rightarrow> status b \<noteq> SCORED \<and> length cands > 0 \<and>
         list_all (\<lambda>c. map_option status c = Some (status b)) cands)"

definition classifyCaseDimension ::
  "string \<Rightarrow> dimension \<Rightarrow> dimension_score option \<Rightarrow> dimension_score option list \<Rightarrow>
   bool \<Rightarrow> bool \<Rightarrow> comparison_thresholds \<Rightarrow> per_case_row" where
  "classifyCaseDimension i d base cands inBaseline inAnyCandidate th =
     (if \<not> inBaseline \<and> inAnyCandidate then case_result i C_new None None
      else if inBaseline \<and> \<not> inAnyCandidate then case_result i C_dropped None None
      else if agreed_unscored base cands then case_result i C_unchanged None None
      else if d \<in> set HIGHER_IS_WORSE then classifyMeasured i d base cands th
      else classifyVerdict i d base cands th)"

section \<open>Comparing a dimension\<close>

type_synonym score_map = "dimension \<Rightarrow> dimension_score option"

text \<open>A run's cases as a map from case id; a later row of the same case replaces an earlier one.\<close>

definition run_map :: "case_score_row list \<Rightarrow> string \<Rightarrow> score_map option" where
  "run_map cs = map_of (rev (map (\<lambda>c. (csr_caseId c, scoreByDimension (scoreVector c))) cs))"

definition score_at :: "score_map option \<Rightarrow> dimension \<Rightarrow> dimension_score option" where
  "score_at m d = (case m of None \<Rightarrow> None | Some f \<Rightarrow> f d)"

definition meanOrNull :: "rat list \<Rightarrow> rat option" where
  "meanOrNull vs = (if length vs = 0 then None else Some (mean6dp vs))"

record cmp_acc =
  acc_counts :: case_counts
  acc_perCase :: "per_case_row list"
  acc_pairs :: "(rat \<times> rat) list"
  acc_unstable :: bool

definition emptyCaseCounts :: case_counts where
  "emptyCaseCounts = (\<lambda>_. 0)"

definition classify_at ::
  "dimension \<Rightarrow> (string \<Rightarrow> score_map option) \<Rightarrow> (string \<Rightarrow> score_map option) list \<Rightarrow>
   comparison_thresholds \<Rightarrow> string \<Rightarrow> per_case_row" where
  "classify_at d base cands th i =
     classifyCaseDimension i d (score_at (base i) d) (map (\<lambda>m. score_at (m i) d) cands)
       (base i \<noteq> None) (list_ex (\<lambda>m. m i \<noteq> None) cands) th"

text \<open>The pair of values a case contributes to the statistics.\<close>

definition comparable_pair :: "per_case_row \<Rightarrow> (rat \<times> rat) option" where
  "comparable_pair r =
     (case (baselineValue r, candidateValue r) of
        (Some b, Some c) \<Rightarrow>
          if classification r \<noteq> C_new \<and> classification r \<noteq> C_dropped then Some (b, c) else None
      | _ \<Rightarrow> None)"

definition compare_step ::
  "dimension \<Rightarrow> (string \<Rightarrow> score_map option) \<Rightarrow> (string \<Rightarrow> score_map option) list \<Rightarrow>
   comparison_thresholds \<Rightarrow> cmp_acc \<Rightarrow> string \<Rightarrow> cmp_acc" where
  "compare_step d base cands th acc i =
     (let r = classify_at d base cands th i
      in acc\<lparr>acc_counts := (acc_counts acc)(classification r := acc_counts acc (classification r) + 1),
             acc_perCase := acc_perCase acc @ [r],
             acc_pairs := acc_pairs acc @ (case comparable_pair r of None \<Rightarrow> [] | Some p \<Rightarrow> [p]),
             acc_unstable := (if classification r = C_unstable then True else acc_unstable acc)\<rparr>)"

definition dimension_threshold :: "dimension \<Rightarrow> (rat \<times> rat) list \<Rightarrow> comparison_thresholds \<Rightarrow> rat" where
  "dimension_threshold d pairs th =
     (if d = Latency then latencyP95IncreaseMsThreshold th
      else if d = Cost then costIncreaseThreshold th
      else if list_all (\<lambda>p. fst p = 0 \<or> fst p = 1) pairs then passRateDropThreshold th
      else meanScoreDropThreshold th)"

definition dimension_stats :: "dimension \<Rightarrow> (rat \<times> rat) list \<Rightarrow> rat \<times> rat" where
  "dimension_stats d pairs =
     (if d = Latency
      then (percentile (sort (map fst pairs)) 95, percentile (sort (map snd pairs)) 95)
      else (mean6dp (map fst pairs), mean6dp (map snd pairs)))"

definition cmp_result ::
  "dimension \<Rightarrow> case_counts \<Rightarrow> per_case_row list \<Rightarrow> direction \<Rightarrow> cmp_dimension" where
  "cmp_result d counts rows dir =
     \<lparr>cd_dimension = d, direction = dir, materialRegression = False, unstable = False,
      baselineStat = None, candidateStat = None, delta = None, caseCounts = counts, perCase = rows\<rparr>"

definition compare_acc ::
  "dimension \<Rightarrow> string list \<Rightarrow> (string \<Rightarrow> score_map option) \<Rightarrow> (string \<Rightarrow> score_map option) list \<Rightarrow>
   comparison_thresholds \<Rightarrow> cmp_acc" where
  "compare_acc d caseIds base cands th =
     foldl (compare_step d base cands th)
       \<lparr>acc_counts = emptyCaseCounts, acc_perCase = [], acc_pairs = [], acc_unstable = False\<rparr> caseIds"

definition compareDimension ::
  "dimension \<Rightarrow> string list \<Rightarrow> (string \<Rightarrow> score_map option) \<Rightarrow> (string \<Rightarrow> score_map option) list \<Rightarrow>
   comparison_thresholds \<Rightarrow> cmp_dimension" where
  "compareDimension d caseIds base cands th =
     (let acc = compare_acc d caseIds base cands th;
          counts = acc_counts acc;
          pairs = acc_pairs acc;
          rows = sort_key pc_caseId (acc_perCase acc);
          totalSampled = length pairs
      in if acc_unstable acc then (cmp_result d counts rows Unstable)\<lparr>unstable := True\<rparr>
         else if totalSampled = 0
         then (let allCasesUnchanged =
                     (length caseIds > 0 \<and>
                      int (counts C_unchanged) =
                        int (length caseIds) - int (counts C_new) - int (counts C_dropped) \<and>
                      counts C_incomparable = 0 \<and> counts C_regressed = 0 \<and> counts C_improved = 0)
               in cmp_result d counts rows (if allCasesUnchanged then Unchanged else Incomparable))
         else if totalSampled < minSampleCount th
         then (cmp_result d counts rows Insufficient_sample)
                \<lparr>baselineStat := meanOrNull (map fst pairs), candidateStat := meanOrNull (map snd pairs)\<rparr>
         else (let (bs, cs) = dimension_stats d pairs;
                   dl = round6dp (cs - bs);
                   worse = (if d \<in> set HIGHER_IS_WORSE then dl > 0 else dl < 0);
                   material = (worse \<and> \<bar>dl\<bar> > dimension_threshold d pairs th)
               in (cmp_result d counts rows
                     (if dl = 0 then Unchanged
                      else if material then Regressed
                      else if worse then Unchanged else Improved))
                    \<lparr>materialRegression := material, baselineStat := Some (round6dp bs),
                     candidateStat := Some (round6dp cs), delta := Some dl\<rparr>))"

section \<open>The verdict\<close>

definition deriveVerdictStatus :: "cmp_dimension list \<Rightarrow> verdict_status" where
  "deriveVerdictStatus dims =
     (if list_ex materialRegression dims then V_REGRESSED
      else if list_ex unstable dims then V_UNSTABLE
      else if list_ex (\<lambda>d. direction d = Incomparable) dims then V_INCOMPARABLE
      else V_PASS)"

definition comparison_caseIds :: "comparison_run \<Rightarrow> comparison_run list \<Rightarrow> string list" where
  "comparison_caseIds base cands =
     sort (remdups (map csr_caseId (cr_cases base) @
       concat (map (\<lambda>r. map csr_caseId (cr_cases r)) cands)))"

text \<open>The cases present in the baseline and in every candidate repeat.\<close>

definition jointlyPresentCaseIds :: "comparison_run \<Rightarrow> comparison_run list \<Rightarrow> string list" where
  "jointlyPresentCaseIds base cands =
     filter (\<lambda>i. run_map (cr_cases base) i \<noteq> None \<and> length cands > 0 \<and>
         list_all (\<lambda>r. run_map (cr_cases r) i \<noteq> None) cands)
       (comparison_caseIds base cands)"

definition compareRuns ::
  "comparison_run \<Rightarrow> comparison_run list \<Rightarrow> comparison_thresholds \<Rightarrow> comparison_verdict" where
  "compareRuns base cands th =
     (let dims = map (\<lambda>d. compareDimension d (comparison_caseIds base cands)
                        (run_map (cr_cases base)) (map (\<lambda>r. run_map (cr_cases r)) cands) th)
                   DIMENSION_ORDER;
          regressed = map cd_dimension (filter materialRegression dims);
          hasGenuineEvidence = (length cands > 0 \<and> length (jointlyPresentCaseIds base cands) > 0)
      in \<lparr>baselineEvalRunId = cr_evalRunId base,
          baselineAgentTargetVersion = cr_agentTargetVersion base,
          candidateEvalRunIds = sort (map cr_evalRunId cands),
          candidateAgentTargetVersion = (case cands of [] \<Rightarrow> [] | c # _ \<Rightarrow> cr_agentTargetVersion c),
          repeatCount = length cands,
          scorerVersions = sort (remdups (cr_scorerVersion base # map cr_scorerVersion cands)),
          cv_thresholds = th,
          cv_dimensions = dims,
          anyMaterialRegression = length regressed > 0,
          materiallyRegressedDimensions = regressed,
          unstableDimensions = map cd_dimension (filter unstable dims),
          verdictStatus = (if hasGenuineEvidence then deriveVerdictStatus dims
                           else V_NOTHING_TO_COMPARE)\<rparr>)"

section \<open>What the loop over the cases collects\<close>

definition class_count :: "per_case_row list \<Rightarrow> case_class \<Rightarrow> nat" where
  "class_count rows cl = length (filter (\<lambda>r. classification r = cl) rows)"

lemma compare_acc_eq:
  assumes "rows = map (classify_at d base cands th) ids"
  shows "compare_acc d ids base cands th =
    \<lparr>acc_counts = class_count rows, acc_perCase = rows, acc_pairs = List.map_filter comparable_pair rows,
     acc_unstable = (\<exists>r \<in> set rows. classification r = C_unstable)\<rparr>"
  unfolding assms
proof (induction ids rule: rev_induct)
  case Nil
  then show ?case
    by (simp add: compare_acc_def emptyCaseCounts_def class_count_def fun_eq_iff map_filter_simps)
next
  case (snoc i ids)
  then show ?case
    by (auto simp: compare_acc_def compare_step_def Let_def class_count_def fun_eq_iff
        map_filter_def split: option.split)
qed

lemma sum_class_count: "(\<Sum>cl\<in>UNIV. class_count rows cl) = length rows"
proof -
  have all_classes: "UNIV = {C_improved, C_regressed, C_unchanged, C_unstable, C_incomparable, C_new, C_dropped}"
    by (auto intro: case_class.exhaust)
  have "(\<Sum>cl\<in>UNIV. class_count rows cl) = class_count rows C_improved + class_count rows C_regressed +
      class_count rows C_unchanged + class_count rows C_unstable + class_count rows C_incomparable +
      class_count rows C_new + class_count rows C_dropped"
    unfolding all_classes by simp
  also have "\<dots> = length rows"
  proof (induction rows)
    case (Cons r rows)
    then show ?case
      by (cases "classification r") (simp_all add: class_count_def)
  qed (simp add: class_count_def)
  finally show ?thesis .
qed

text \<open>The rows and the pairs of a dimension, as the loop collects them.\<close>

definition dimension_rows ::
  "dimension \<Rightarrow> string list \<Rightarrow> (string \<Rightarrow> score_map option) \<Rightarrow> (string \<Rightarrow> score_map option) list \<Rightarrow>
   comparison_thresholds \<Rightarrow> per_case_row list" where
  "dimension_rows d ids base cands th = map (classify_at d base cands th) ids"

definition dimension_pairs ::
  "dimension \<Rightarrow> string list \<Rightarrow> (string \<Rightarrow> score_map option) \<Rightarrow> (string \<Rightarrow> score_map option) list \<Rightarrow>
   comparison_thresholds \<Rightarrow> (rat \<times> rat) list" where
  "dimension_pairs d ids base cands th =
     List.map_filter comparable_pair (dimension_rows d ids base cands th)"

definition any_unstable :: "per_case_row list \<Rightarrow> bool" where
  "any_unstable rows \<longleftrightarrow> list_ex (\<lambda>r. classification r = C_unstable) rows"

lemma compare_acc_simps:
  "acc_counts (compare_acc d ids base cands th) = class_count (dimension_rows d ids base cands th)"
  "acc_perCase (compare_acc d ids base cands th) = dimension_rows d ids base cands th"
  "acc_pairs (compare_acc d ids base cands th) = dimension_pairs d ids base cands th"
  "acc_unstable (compare_acc d ids base cands th) = any_unstable (dimension_rows d ids base cands th)"
  by (simp_all add: compare_acc_eq [OF refl] dimension_rows_def dimension_pairs_def any_unstable_def
      list_ex_iff)

lemma cmp_result_simps [simp]:
  "cd_dimension (cmp_result d c r dir) = d" "direction (cmp_result d c r dir) = dir"
  "materialRegression (cmp_result d c r dir) = False" "unstable (cmp_result d c r dir) = False"
  "caseCounts (cmp_result d c r dir) = c" "perCase (cmp_result d c r dir) = r"
  by (simp_all add: cmp_result_def)

lemma compareDimension_fields:
  "cd_dimension (compareDimension d ids base cands th) = d"
  "caseCounts (compareDimension d ids base cands th) = class_count (dimension_rows d ids base cands th)"
  "perCase (compareDimension d ids base cands th) = sort_key pc_caseId (dimension_rows d ids base cands th)"
  "unstable (compareDimension d ids base cands th) = any_unstable (dimension_rows d ids base cands th)"
  by (simp_all add: compareDimension_def Let_def compare_acc_simps split: prod.split)

definition worse_delta :: "dimension \<Rightarrow> rat \<Rightarrow> bool" where
  "worse_delta d dl \<longleftrightarrow> (if d \<in> {Latency, Cost} then dl > 0 else dl < 0)"

lemma materialRegression_char:
  "materialRegression (compareDimension d ids base cands th) =
    (\<not> any_unstable (dimension_rows d ids base cands th) \<and>
     dimension_pairs d ids base cands th \<noteq> [] \<and>
     minSampleCount th \<le> length (dimension_pairs d ids base cands th) \<and>
     worse_delta d (round6dp (snd (dimension_stats d (dimension_pairs d ids base cands th)) -
       fst (dimension_stats d (dimension_pairs d ids base cands th)))) \<and>
     \<bar>round6dp (snd (dimension_stats d (dimension_pairs d ids base cands th)) -
       fst (dimension_stats d (dimension_pairs d ids base cands th)))\<bar> >
       dimension_threshold d (dimension_pairs d ids base cands th) th)"
  by (auto simp: compareDimension_def Let_def compare_acc_simps worse_delta_def HIGHER_IS_WORSE_def
      split: prod.split)

text \<open>A dimension is reported as materially regressed exactly when no case of it is flaky, enough
  cases could be compared, and the statistic moved in the bad direction by more than the
  threshold of the dimension.\<close>

theorem materialRegression_iff:
  fixes d ids base cands th
  defines "pairs \<equiv> dimension_pairs d ids base cands th"
  defines "dl \<equiv> round6dp (snd (dimension_stats d pairs) - fst (dimension_stats d pairs))"
  shows "materialRegression (compareDimension d ids base cands th) =
    (\<not> any_unstable (dimension_rows d ids base cands th) \<and> pairs \<noteq> [] \<and>
     minSampleCount th \<le> length pairs \<and> worse_delta d dl \<and> \<bar>dl\<bar> > dimension_threshold d pairs th)"
  unfolding pairs_def dl_def by (rule materialRegression_char)

text \<open>Every joined case is reported once, in order of its id, under exactly one class; the seven
  counters add up to the number of cases.\<close>

theorem compareDimension_perCase:
  "(\<Sum>cl\<in>UNIV. caseCounts (compareDimension d ids base cands th) cl) = length ids \<and>
   sorted (map pc_caseId (perCase (compareDimension d ids base cands th))) \<and>
   mset (perCase (compareDimension d ids base cands th)) = mset (map (classify_at d base cands th) ids)"
  by (simp add: compareDimension_fields sum_class_count dimension_rows_def)

section \<open>The order of the repeats does not matter\<close>

lemma foldl_max_eq: "foldl max v vs = Max (insert v (set vs))"
  for v :: rat
proof (induction vs arbitrary: v)
  case (Cons x vs)
  then show ?case
    by (cases "vs = []") (auto simp: insert_commute max.assoc max.left_commute)
qed simp

lemma foldl_min_eq: "foldl min v vs = Min (insert v (set vs))"
  for v :: rat
proof (induction vs arbitrary: v)
  case (Cons x vs)
  then show ?case
    by (cases "vs = []") (auto simp: insert_commute min.assoc min.left_commute)
qed simp

lemma spread_eq: "spread vs = (if vs = [] then 0 else Max (set vs) - Min (set vs))"
  by (cases vs) (simp_all add: spread_def foldl_max_eq foldl_min_eq)

lemma foldl_plus_mset: "foldl (+) z vs = z + sum_mset (mset vs)"
  for z :: rat
  by (induction vs arbitrary: z) (simp_all add: add.assoc)

lemma mean6dp_mset:
  assumes "mset vs = mset ws"
  shows "mean6dp vs = mean6dp ws"
  unfolding mean6dp_def foldl_plus_mset assms mset_eq_length [OF assms] ..

lemma mset_list_all: "mset xs = mset ys \<Longrightarrow> list_all P xs = list_all P ys"
  by (simp add: list_all_iff mset_eq_setD [of xs ys])

lemma mset_list_ex: "mset xs = mset ys \<Longrightarrow> list_ex P xs = list_ex P ys"
  by (simp add: list_ex_iff mset_eq_setD [of xs ys])

lemma mset_Nil: "mset xs = mset ys \<Longrightarrow> (xs = []) = (ys = [])"
  by (drule arg_cong [of _ _ "\<lambda>m. m = {#}"]) simp

lemma spread_mset:
  assumes "mset vs = mset ws"
  shows "spread vs = spread ws"
  unfolding spread_eq mset_Nil [OF assms] mset_eq_setD [OF assms] ..

lemma mset_map_cong: "mset xs = mset ys \<Longrightarrow> mset (map f xs) = mset (map f ys)"
  by simp

lemma mixedMeasurability_mset:
  "mset xs = mset ys \<Longrightarrow> mixedMeasurability xs = mixedMeasurability ys"
  using mset_list_all [of xs ys "\<lambda>v. v \<noteq> None"] mset_list_ex [of xs ys "\<lambda>v. v \<noteq> None"]
    mset_eq_length [of xs ys]
  by (simp add: mixedMeasurability_def)

lemma classifyMeasured_mset:
  assumes "mset cs = mset cs'"
  shows "classifyMeasured i d b cs th = classifyMeasured i d b cs' th"
proof -
  let ?f = "map comparableValueOrMeasurement"
  have m: "mset (?f cs) = mset (?f cs')" "mset (map the (?f cs)) = mset (map the (?f cs'))"
    using assms by simp_all
  show ?thesis
    unfolding classifyMeasured_def Let_def
    using mixedMeasurability_mset [OF m(1)] mset_list_all [OF m(1), of "\<lambda>v. v \<noteq> None"]
      mset_Nil [OF m(1)] spread_mset [OF m(2)] mean6dp_mset [OF m(2)] mset_eq_length [OF m(2)]
    by simp
qed

lemma kinds_agree_iff:
  "vs \<noteq> [] \<Longrightarrow>
    (\<not> list_all (\<lambda>c. is_Boolean c = is_Boolean (hd vs)) vs \<or> is_Boolean (hd vs) \<noteq> is_Boolean bv) =
    (\<not> list_all (\<lambda>c. is_Boolean c = is_Boolean bv) vs)"
  by (cases vs) (auto simp: list_all_iff)

lemma classifyBoolean_mset:
  assumes "mset ps = mset ps'"
  shows "classifyBoolean i b ps = classifyBoolean i b ps'"
  using mset_list_all [OF assms, of "\<lambda>p. p"] mset_list_all [OF assms, of "\<lambda>p. \<not> p"]
  by (simp add: classifyBoolean_def)

lemma classifyScore_mset:
  assumes "mset vs = mset vs'"
  shows "classifyScore i d b vs th = classifyScore i d b vs' th"
  using spread_mset [OF assms] mean6dp_mset [OF assms] mset_eq_length [OF assms]
  by (simp add: classifyScore_def)

lemma classifyVerdict_mset:
  assumes "mset cs = mset cs'"
  shows "classifyVerdict i d b cs th = classifyVerdict i d b cs' th"
proof -
  let ?f = "map comparableOf"
  have m: "mset (?f cs) = mset (?f cs')" and mv: "mset (map the (?f cs)) = mset (map the (?f cs'))"
    using assms by simp_all
  have mp: "mset (map verdict_pass (map the (?f cs))) = mset (map verdict_pass (map the (?f cs')))"
    and ms: "mset (map (\<lambda>c. verdict_score (Some c)) (map the (?f cs))) =
      mset (map (\<lambda>c. verdict_score (Some c)) (map the (?f cs')))"
    using mv by (rule mset_map_cong)+
  have kinds: "list_all (\<lambda>c. is_Boolean c = k) (map the (?f cs)) =
      list_all (\<lambda>c. is_Boolean c = k) (map the (?f cs'))" for k
    by (rule mset_list_all [OF mv])
  show ?thesis
  proof (cases "cs = []")
    case True
    with assms show ?thesis
      by simp
  next
    case False
    then have ne: "map the (?f cs) \<noteq> []" "map the (?f cs') \<noteq> []"
      using mset_Nil [OF assms] by simp_all
    show ?thesis
      unfolding classifyVerdict_def Let_def
      unfolding kinds_agree_iff [OF ne(1)] kinds_agree_iff [OF ne(2)]
      unfolding kinds mixedMeasurability_mset [OF m] mset_list_all [OF m, of "\<lambda>v. v \<noteq> None"] mset_Nil [OF m]
        classifyBoolean_mset [OF mp] classifyScore_mset [OF ms] ..
  qed
qed

lemma classifyCaseDimension_mset:
  assumes "mset cs = mset cs'"
  shows "classifyCaseDimension i d b cs p q th = classifyCaseDimension i d b cs' p q th"
proof -
  have "agreed_unscored b cs = agreed_unscored b cs'"
    using mset_eq_length [OF assms] mset_list_all [OF assms]
    by (simp add: agreed_unscored_def split: option.split)
  then show ?thesis
    unfolding classifyCaseDimension_def
    using classifyMeasured_mset [OF assms] classifyVerdict_mset [OF assms] by simp
qed

lemma classify_at_mset:
  assumes "mset ms = mset ms'"
  shows "classify_at d base ms th i = classify_at d base ms' th i"
proof -
  have "mset (map (\<lambda>m. score_at (m i) d) ms) = mset (map (\<lambda>m. score_at (m i) d) ms')"
    using assms by simp
  then show ?thesis
    unfolding classify_at_def mset_list_ex [OF assms] by (rule classifyCaseDimension_mset)
qed

lemma compareDimension_mset:
  assumes "mset ms = mset ms'"
  shows "compareDimension d ids base ms th = compareDimension d ids base ms' th"
proof -
  have "classify_at d base ms th = classify_at d base ms' th"
    using classify_at_mset [OF assms] by blast
  then have "compare_acc d ids base ms th = compare_acc d ids base ms' th"
    by (simp add: compare_acc_eq [OF refl])
  then show ?thesis
    by (simp add: compareDimension_def)
qed

lemma sort_remdups_cong: "set xs = set ys \<Longrightarrow> sort (remdups xs) = sort (remdups ys)"
  by (metis sorted_list_of_set_sort_remdups)

lemma comparison_caseIds_mset:
  "mset cs = mset cs' \<Longrightarrow> comparison_caseIds base cs = comparison_caseIds base cs'"
  unfolding comparison_caseIds_def
  by (intro sort_remdups_cong) (simp add: mset_eq_setD [of cs cs'])


section \<open>The verdict and its evidence\<close>

definition evidence_case :: "comparison_run \<Rightarrow> comparison_run list \<Rightarrow> string \<Rightarrow> bool" where
  "evidence_case base cs i \<longleftrightarrow>
     run_map (cr_cases base) i \<noteq> None \<and> (\<forall>r \<in> set cs. run_map (cr_cases r) i \<noteq> None)"

lemma run_map_dom: "run_map cs i \<noteq> None \<Longrightarrow> i \<in> set (map csr_caseId cs)"
  by (force simp: run_map_def dest: map_of_SomeD)

lemma jointly_present_iff:
  "jointlyPresentCaseIds base cs \<noteq> [] \<longleftrightarrow> cs \<noteq> [] \<and> (\<exists>i. evidence_case base cs i)"
proof -
  have "set (jointlyPresentCaseIds base cs) = {i. cs \<noteq> [] \<and> evidence_case base cs i}"
    using run_map_dom [of "cr_cases base"]
    by (auto simp: jointlyPresentCaseIds_def evidence_case_def list_all_iff comparison_caseIds_def
        simp del: not_None_eq)
  then show ?thesis
    by (metis (mono_tags, lifting) Collect_empty_eq set_empty)
qed

text \<open>C35. The verdict reports that nothing was compared exactly when no case occurs in the baseline and
  in every repeat of a nonempty cohort; it passes exactly when there is such a case and no
  dimension is materially regressed, flaky or incomparable.\<close>

theorem compareRuns_verdict:
  "(verdictStatus (compareRuns base cs th) = V_NOTHING_TO_COMPARE) =
     (\<not> (cs \<noteq> [] \<and> (\<exists>i. evidence_case base cs i))) \<and>
   (verdictStatus (compareRuns base cs th) = V_PASS) =
     (cs \<noteq> [] \<and> (\<exists>i. evidence_case base cs i) \<and>
      list_all (\<lambda>d. \<not> materialRegression d \<and> \<not> unstable d \<and> direction d \<noteq> Incomparable)
        (cv_dimensions (compareRuns base cs th)))"
  using jointly_present_iff [of base cs]
  by (auto simp: compareRuns_def Let_def deriveVerdictStatus_def list_ex_iff list_all_iff)

section \<open>Comparing a run with itself\<close>

text \<open>The numbers of a score are what the scorers produce: multiples of a millionth.\<close>

definition six_dp :: "dimension_score \<Rightarrow> bool" where
  "six_dp s \<longleftrightarrow> (\<forall>m. measurement s = Some m \<longrightarrow> round6dp m = m) \<and>
     (\<forall>r. verdict s = Some (Score r) \<longrightarrow> round6dp r = r)"

lemma mean6dp_single [simp]: "mean6dp [v] = round6dp v"
  by (simp add: mean6dp_def)

definition stable_row :: "per_case_row \<Rightarrow> bool" where
  "stable_row r \<longleftrightarrow> classification r \<in> {C_unchanged, C_incomparable} \<and>
     (\<forall>x y. comparable_pair r = Some (x, y) \<longrightarrow> x = y)"

lemma stable_rows: "(\<And>r. r \<in> set rows \<Longrightarrow> stable_row r) \<Longrightarrow> \<not> any_unstable rows"
  by (force simp: any_unstable_def list_ex_iff stable_row_def)

lemma stable_row_none [simp]:
  "stable_row (case_result i C_unchanged None None)" "stable_row (case_result i C_incomparable None None)"
  by (simp_all add: stable_row_def case_result_def comparable_pair_def)

lemma stable_row_same [simp]: "stable_row (case_result i C_unchanged (Some v) (Some v))"
  by (simp add: stable_row_def case_result_def comparable_pair_def)

lemma classify_self_stable:
  assumes "\<And>s. b = Some s \<Longrightarrow> six_dp s"
  shows "stable_row (classifyCaseDimension i d b [b] p p th)"
proof -
  have "stable_row (classifyMeasured i d b [b] th)"
  proof (cases "comparableValueOrMeasurement b")
    case (Some v)
    then have "round6dp v = v"
      using assms
      by (auto simp: comparableValueOrMeasurement_def comparableOf_def six_dp_def
          split: option.splits verdict.splits if_splits)
    with Some show ?thesis
      by (simp add: classifyMeasured_def Let_def mixedMeasurability_def)
  qed (simp add: classifyMeasured_def Let_def mixedMeasurability_def)
  moreover have "stable_row (classifyVerdict i d b [b] th)"
  proof (cases "comparableOf b")
    case (Some v)
    show ?thesis
    proof (cases v)
      case (Score r)
      with Some have "round6dp r = r"
        using assms by (auto simp: comparableOf_def six_dp_def split: option.splits if_splits)
      with Some Score show ?thesis
        by (simp add: classifyVerdict_def Let_def mixedMeasurability_def classifyScore_def)
    next
      case (Boolean q)
      with Some show ?thesis
        by (cases q) (simp_all add: classifyVerdict_def Let_def mixedMeasurability_def classifyBoolean_def)
    qed
  qed (simp add: classifyVerdict_def Let_def mixedMeasurability_def)
  ultimately show ?thesis
    by (simp add: classifyCaseDimension_def)
qed

lemma equal_pairs_stats: "(\<And>x y. (x, y) \<in> set ps \<Longrightarrow> x = y) \<Longrightarrow> fst (dimension_stats d ps) = snd (dimension_stats d ps)"
proof -
  assume eq: "\<And>x y. (x, y) \<in> set ps \<Longrightarrow> x = y"
  have "map fst ps = map snd ps"
    using eq by (intro map_cong) (auto simp: prod_eq_iff)
  then show ?thesis
    unfolding dimension_stats_def by (simp only:) simp
qed

definition six_dp_run :: "comparison_run \<Rightarrow> bool" where
  "six_dp_run r \<longleftrightarrow> (\<forall>c \<in> set (cr_cases r). \<forall>s \<in> set (scoreVector c). six_dp s)"

lemma scoreByDimension_in: "scoreByDimension v d = Some s \<Longrightarrow> s \<in> set v"
  by (auto simp: scoreByDimension_def dest!: map_of_SomeD)

lemma run_map_six_dp:
  "six_dp_run r \<Longrightarrow> score_at (run_map (cr_cases r) i) d = Some s \<Longrightarrow> six_dp s"
  by (fastforce simp: score_at_def run_map_def six_dp_run_def
      dest!: map_of_SomeD scoreByDimension_in split: option.splits)

text \<open>A run compared with itself is never reported as regressed or flaky, whatever the thresholds:
  the comparison has no false alarm on identical evidence.\<close>

theorem compareRuns_self:
  assumes "six_dp_run r"
  shows "\<not> anyMaterialRegression (compareRuns r [r] th) \<and>
    verdictStatus (compareRuns r [r] th) \<notin> {V_REGRESSED, V_UNSTABLE}"
proof -
  let ?m = "run_map (cr_cases r)"
  let ?ids = "comparison_caseIds r [r]"
  have stable: "stable_row (classify_at d ?m [?m] th i)" for d i
    unfolding classify_at_def using run_map_six_dp [OF assms]
    by (simp add: classify_self_stable)
  have unstable: "\<not> any_unstable (dimension_rows d ?ids ?m [?m] th)" for d
    using stable by (intro stable_rows) (auto simp: dimension_rows_def)
  have "x = y" if "(x, y) \<in> set (dimension_pairs d ?ids ?m [?m] th)" for d x y
    using that stable
    by (auto simp: dimension_pairs_def dimension_rows_def map_filter_def stable_row_def)
  then have "round6dp (snd (dimension_stats d (dimension_pairs d ?ids ?m [?m] th)) -
      fst (dimension_stats d (dimension_pairs d ?ids ?m [?m] th))) = 0" for d
    using equal_pairs_stats [of "dimension_pairs d ?ids ?m [?m] th" d] by simp
  then have "\<not> materialRegression (compareDimension d ?ids ?m [?m] th)" for d
    by (simp add: materialRegression_char worse_delta_def)
  with unstable show ?thesis
    by (auto simp: compareRuns_def Let_def deriveVerdictStatus_def list_ex_iff compareDimension_fields)
qed

section \<open>Concrete comparisons\<close>

definition sample_run :: "string \<Rightarrow> string \<Rightarrow> rat \<Rightarrow> comparison_run" where
  "sample_run i agentVersion ms =
     \<lparr>cr_evalRunId = i, cr_agentTargetVersion = agentVersion, cr_scorerVersion = ''v1'',
      cr_cases = [\<lparr>csr_caseId = ''c1'', scoreVector = [scored Latency None (Some ms)]\<rparr>]\<rparr>"

theorem compareRuns_self_witness:
  "\<not> anyMaterialRegression
     (compareRuns (sample_run ''r1'' ''a'' 250) [sample_run ''r1'' ''a'' 250] DEFAULT_COMPARISON_THRESHOLDS)"
proof -
  have "round6dp 250 = 250"
    using round6dp_of_int [of 250] by simp
  then have "six_dp_run (sample_run ''r1'' ''a'' 250)"
    by (simp add: six_dp_run_def six_dp_def sample_run_def)
  from compareRuns_self [OF this] show ?thesis
    by blast
qed


text \<open>The one output that does depend on the order: the agent version reported for the cohort is the
  one of its first repeat.\<close>

lemma candidateAgentTargetVersion_order_dependent:
  "candidateAgentTargetVersion (compareRuns (sample_run ''r0'' ''a'' 250)
     [sample_run ''r1'' ''b'' 300, sample_run ''r2'' ''c'' 400] DEFAULT_COMPARISON_THRESHOLDS) \<noteq>
   candidateAgentTargetVersion (compareRuns (sample_run ''r0'' ''a'' 250)
     [sample_run ''r2'' ''c'' 400, sample_run ''r1'' ''b'' 300] DEFAULT_COMPARISON_THRESHOLDS)"
  by (simp add: compareRuns_def Let_def sample_run_def)

end
