(* ===== verification/ReleaseTypes.thy ===== *)
theory ReleaseTypes
  imports Prelude
begin

text \<open>
  The data of the release pipeline (backend/src/types/index.ts and
  backend/src/lambda/utils/release-gate.ts): environments with the order of the promotion
  ladder, promotion policies, releases, environment pointers with their canary state, and the
  inputs of the resolver's operations.
\<close>

section \<open>Environments\<close>

datatype environment = ENV_DEV | ENV_STAGING | ENV_PROD

fun env_rank :: "environment \<Rightarrow> nat" where
  "env_rank ENV_DEV = 0"
| "env_rank ENV_STAGING = 1"
| "env_rank ENV_PROD = 2"

lemma env_rank_inject [simp]: "env_rank a = env_rank b \<longleftrightarrow> a = b"
  by (cases a; cases b) simp_all

instantiation environment :: linorder
begin

definition less_eq_environment :: "environment \<Rightarrow> environment \<Rightarrow> bool" where
  "a \<le> b \<longleftrightarrow> env_rank a \<le> env_rank b"

definition less_environment :: "environment \<Rightarrow> environment \<Rightarrow> bool" where
  "a < b \<longleftrightarrow> env_rank a < env_rank b"

instance
  by standard (auto simp: less_eq_environment_def less_environment_def)

end

fun env_str :: "environment \<Rightarrow> string" where
  "env_str ENV_DEV = ''DEV''"
| "env_str ENV_STAGING = ''STAGING''"
| "env_str ENV_PROD = ''PROD''"

lemma env_str_inject [simp]: "env_str a = env_str b \<longleftrightarrow> a = b"
  by (cases a; cases b) simp_all

lemma env_str_no_hash: "CHR ''#'' \<notin> set (env_str e)"
  by (cases e) simp_all

section \<open>Promotion policy\<close>

record promotion_policy =
  taskSuccessMin :: rat
  policyComplianceMin :: rat
  latencyP95TargetMs :: rat
  avgCostBudgetUsd :: rat
  pp_minSampleCount :: rat
  requiredGateClasses :: "string list"
  maxEvidenceAgeDays :: rat
  allowNoBaselineOnAbsoluteFloors :: bool
  canaryMaxBasisPoints :: rat

definition DEFAULT_PROMOTION_POLICY :: promotion_policy where
  "DEFAULT_PROMOTION_POLICY =
     \<lparr>taskSuccessMin = 9 / 10, policyComplianceMin = 1, latencyP95TargetMs = 5000,
      avgCostBudgetUsd = 1, pp_minSampleCount = 5, requiredGateClasses = [],
      maxEvidenceAgeDays = 7, allowNoBaselineOnAbsoluteFloors = False,
      canaryMaxBasisPoints = 2500\<rparr>"

section \<open>Suites, releases and pointers\<close>

datatype suite_status = SUITE_DRAFT | SUITE_FROZEN | SUITE_ARCHIVED

record eval_suite =
  suite_id :: string
  suite_orgId :: "string option"
  suite_agentTargetId :: string
  suite_version :: nat
  suite_status :: suite_status
  suite_gateClass :: "string option"

record eval_evidence =
  ev_evalRunId :: string
  ev_evalSuiteId :: string
  ev_evalSuiteVersion :: nat

record content_snapshot =
  cs_sourceId :: string
  cs_content :: string
  cs_digest :: string

record model_config_snapshot =
  mcs_slot :: string
  mcs_content :: string
  mcs_digest :: string

record policy_snapshot =
  ps_enforcementMode :: string
  ps_ruleSetVersion :: string
  ps_authorityUnitGrantIds :: "string list"

record constituents =
  con_agentConfig :: content_snapshot
  con_promptVersions :: "(string \<times> content_snapshot) list"
  con_execSpecId :: string
  con_execSpecVersion :: nat
  con_modelConfigSnapshots :: "model_config_snapshot list"
  con_toolConfigs :: "content_snapshot list"
  con_policySnapshot :: policy_snapshot
  con_evalEvidence :: eval_evidence

text \<open>An immutable release. The provenance fields of the deployment manifest are not modelled.\<close>

record agent_release = constituents +
  rel_releaseId :: string
  rel_orgId :: string
  rel_agentTargetId :: string
  rel_semver :: string
  rel_createdAt :: string
  rel_createdBy :: string

datatype transition_type =
    T_PROMOTE
  | T_CANARY_START
  | T_CANARY_REWEIGHT
  | T_CANARY_PROMOTE
  | T_CANARY_ABORT
  | T_AUTO_ABORT_CANARY
  | T_AUTO_ROLLBACK

datatype canary_stickiness = St_conversation | St_user

record canary_state =
  candidateReleaseId :: string
  percentBasisPoints :: jsnum
  stickiness :: canary_stickiness
  salt :: string
  canary_startedAt :: string
  canary_startedBy :: string

text \<open>
  A pointer row. \<open>canaryActiveKey\<close> is the marker attribute of the sparse index of active
  canaries. History rows mirror the pointer, without the marker.
\<close>

record pointer =
  ptr_orgId :: string
  ptr_agentTargetId :: string
  ptr_environment :: environment
  ptr_releaseId :: string
  ptr_previousReleaseId :: "string option"
  ptr_promotedAt :: string
  ptr_promotedBy :: string
  ptr_version :: nat
  ptr_canary :: "canary_state option"
  ptr_transitionType :: "transition_type option"
  ptr_canaryActiveKey :: "string option"

record promotion_approval =
  appr_approved :: bool
  appr_justification :: "string option"

record set_pointer_input =
  spi_agentTargetId :: string
  spi_environment :: environment
  spi_releaseId :: string
  spi_approval :: "promotion_approval option"

record start_canary_input =
  sci_agentTargetId :: string
  sci_environment :: environment
  sci_candidateReleaseId :: string
  sci_percentBasisPoints :: jsnum
  sci_stickiness :: canary_stickiness
  sci_approval :: "promotion_approval option"

record reweight_canary_input =
  rci_agentTargetId :: string
  rci_environment :: environment
  rci_percentBasisPoints :: jsnum

record canary_op_input =
  coi_agentTargetId :: string
  coi_environment :: environment
  coi_approval :: "promotion_approval option"

end
