(* ===== verification/PromotionLadder.thy ===== *)
theory PromotionLadder
  imports ReleaseTypes
begin

text \<open>
  The promotion ladder (backend/src/lambda/utils/promotion-ladder.ts): the order of the
  environments and the per-field comparison that keeps a higher environment's policy at least
  as strict as the one below it.
\<close>

definition ENVIRONMENT_ORDER :: "environment list" where
  "ENVIRONMENT_ORDER = [ENV_DEV, ENV_STAGING, ENV_PROD]"

text \<open>\<open>indexOf\<close>: the position of the first occurrence, or -1.\<close>

fun indexOf :: "'a list \<Rightarrow> 'a \<Rightarrow> int" where
  "indexOf [] x = -1"
| "indexOf (y # ys) x = (if y = x then 0 else (let i = indexOf ys x in if i < 0 then -1 else i + 1))"

definition predecessorEnvironment :: "environment \<Rightarrow> environment option" where
  "predecessorEnvironment e =
     (let index = indexOf ENVIRONMENT_ORDER e
      in if index \<le> 0 then None else Some (ENVIRONMENT_ORDER ! nat (index - 1)))"

datatype policy_field =
    F_taskSuccessMin
  | F_policyComplianceMin
  | F_latencyP95TargetMs
  | F_avgCostBudgetUsd
  | F_minSampleCount
  | F_requiredGateClasses
  | F_maxEvidenceAgeDays
  | F_allowNoBaselineOnAbsoluteFloors
  | F_canaryMaxBasisPoints

text \<open>\<open>policy[field]\<close> for the numeric fields.\<close>

fun num_field :: "promotion_policy \<Rightarrow> policy_field \<Rightarrow> rat" where
  "num_field p F_taskSuccessMin = taskSuccessMin p"
| "num_field p F_policyComplianceMin = policyComplianceMin p"
| "num_field p F_latencyP95TargetMs = latencyP95TargetMs p"
| "num_field p F_avgCostBudgetUsd = avgCostBudgetUsd p"
| "num_field p F_minSampleCount = pp_minSampleCount p"
| "num_field p F_maxEvidenceAgeDays = maxEvidenceAgeDays p"
| "num_field p F_canaryMaxBasisPoints = canaryMaxBasisPoints p"
| "num_field p F_requiredGateClasses = 0"
| "num_field p F_allowNoBaselineOnAbsoluteFloors = 0"

definition RISING_FLOOR_FIELDS :: "policy_field list" where
  "RISING_FLOOR_FIELDS = [F_taskSuccessMin, F_policyComplianceMin, F_minSampleCount]"

definition TIGHTENING_CEILING_FIELDS :: "policy_field list" where
  "TIGHTENING_CEILING_FIELDS =
     [F_latencyP95TargetMs, F_avgCostBudgetUsd, F_maxEvidenceAgeDays, F_canaryMaxBasisPoints]"

text \<open>The violated fields, in the order they are pushed; one entry per missing gate class.\<close>

definition comparePolicyStrictness :: "promotion_policy \<Rightarrow> promotion_policy \<Rightarrow> policy_field list" where
  "comparePolicyStrictness higher lower =
     filter (\<lambda>f. num_field higher f < num_field lower f) RISING_FLOOR_FIELDS @
     filter (\<lambda>f. num_field higher f > num_field lower f) TIGHTENING_CEILING_FIELDS @
     map (\<lambda>_. F_requiredGateClasses)
       (filter (\<lambda>pack. pack \<notin> set (requiredGateClasses higher)) (requiredGateClasses lower)) @
     (if allowNoBaselineOnAbsoluteFloors higher \<and> \<not> allowNoBaselineOnAbsoluteFloors lower
      then [F_allowNoBaselineOnAbsoluteFloors] else [])"

definition monotonic :: "promotion_policy \<Rightarrow> promotion_policy \<Rightarrow> bool" where
  "monotonic higher lower \<longleftrightarrow> comparePolicyStrictness higher lower = []"

section \<open>Strictness\<close>

text \<open>What at least as strict means, field by field.\<close>

definition at_least_as_strict :: "promotion_policy \<Rightarrow> promotion_policy \<Rightarrow> bool" where
  "at_least_as_strict h l \<longleftrightarrow>
     taskSuccessMin l \<le> taskSuccessMin h \<and> policyComplianceMin l \<le> policyComplianceMin h \<and>
     pp_minSampleCount l \<le> pp_minSampleCount h \<and> latencyP95TargetMs h \<le> latencyP95TargetMs l \<and>
     avgCostBudgetUsd h \<le> avgCostBudgetUsd l \<and> maxEvidenceAgeDays h \<le> maxEvidenceAgeDays l \<and>
     canaryMaxBasisPoints h \<le> canaryMaxBasisPoints l \<and>
     set (requiredGateClasses l) \<subseteq> set (requiredGateClasses h) \<and>
     (allowNoBaselineOnAbsoluteFloors h \<longrightarrow> allowNoBaselineOnAbsoluteFloors l)"

lemma monotonic_iff: "monotonic h l \<longleftrightarrow> at_least_as_strict h l"
  by (auto simp: monotonic_def at_least_as_strict_def comparePolicyStrictness_def
      RISING_FLOOR_FIELDS_def TIGHTENING_CEILING_FIELDS_def filter_empty_conv not_less)

lemma at_least_as_strict_refl [simp]: "at_least_as_strict p p"
  by (simp add: at_least_as_strict_def)

lemma at_least_as_strict_trans:
  "at_least_as_strict p q \<Longrightarrow> at_least_as_strict q r \<Longrightarrow> at_least_as_strict p r"
  unfolding at_least_as_strict_def by (elim conjE) (intro conjI; (blast | linarith)?)

text \<open>The predecessor of an environment is the one directly below it on the ladder: it is strictly
  lower, nothing lies between, and only DEV has none.\<close>

theorem predecessorEnvironment_spec:
  "(predecessorEnvironment e = None) = (e = ENV_DEV) \<and>
   (predecessorEnvironment e = Some p) = (p < e \<and> \<not> (\<exists>q. p < q \<and> q < e))"
proof -
  have ex: "(\<exists>q. P q) = (P ENV_DEV \<or> P ENV_STAGING \<or> P ENV_PROD)" for P :: "environment \<Rightarrow> bool"
    by (metis environment.exhaust)
  show ?thesis
    unfolding ex
    by (cases e; cases p) (simp_all add: predecessorEnvironment_def ENVIRONMENT_ORDER_def Let_def
        less_eq_environment_def less_environment_def)
qed

text \<open>The ladder check reports no violation exactly when the higher policy is at least as strict in
  every field; being so is a preorder, so checking adjacent pairs orders the whole ladder.\<close>

theorem comparePolicyStrictness_preorder:
  "(comparePolicyStrictness h l = []) = at_least_as_strict h l \<and>
   comparePolicyStrictness h h = [] \<and>
   (comparePolicyStrictness h m = [] \<longrightarrow> comparePolicyStrictness m l = [] \<longrightarrow>
    comparePolicyStrictness h l = [])"
  using monotonic_iff [of h l] monotonic_iff [of h h] monotonic_iff [of h m] monotonic_iff [of m l]
    at_least_as_strict_trans [of h m l]
  by (auto simp: monotonic_def)

theorem comparePolicyStrictness_preorder_witness:
  "comparePolicyStrictness (DEFAULT_PROMOTION_POLICY\<lparr>taskSuccessMin := 99 / 100\<rparr>) DEFAULT_PROMOTION_POLICY = []"
  using comparePolicyStrictness_preorder
    [of "DEFAULT_PROMOTION_POLICY\<lparr>taskSuccessMin := 99 / 100\<rparr>" DEFAULT_PROMOTION_POLICY
      "DEFAULT_PROMOTION_POLICY\<lparr>taskSuccessMin := 95 / 100\<rparr>"]
  by (simp add: at_least_as_strict_def DEFAULT_PROMOTION_POLICY_def)

end
