(* ===== verification/ReleaseGate.thy ===== *)
theory ReleaseGate
  imports PromotionLadder EvalComparison
begin

text \<open>
  The pure gate evaluator (backend/src/lambda/utils/release-gate.ts): staleness of the evidence,
  absolute thresholds, required packs, and the decision. \<open>Date.parse\<close> is an argument:
  \<open>None\<close> is NaN. The gate dereferences the comparison verdict when there is a baseline, so a
  missing one is a \<open>TypeError\<close>: the result \<open>None\<close>.
\<close>

datatype staleness_reason =
  SUITE_VERSION_SUPERSEDED | SUITE_NOT_FROZEN | EVIDENCE_TOO_OLD | EVIDENCE_UNREADABLE

record staleness_assessment =
  stale :: bool
  stale_reasons :: "staleness_reason list"

definition MS_PER_DAY :: rat where
  "MS_PER_DAY = 24 * 60 * 60 * 1000"

definition assessStaleness ::
  "(string \<Rightarrow> rat option) \<Rightarrow> nat \<Rightarrow> eval_suite \<Rightarrow> string \<Rightarrow> promotion_policy \<Rightarrow> string \<Rightarrow> staleness_assessment" where
  "assessStaleness dateParse pinnedSuiteVersion liveSuite runCompletedAt policy now =
     (let reasons =
        (if pinnedSuiteVersion < suite_version liveSuite then [SUITE_VERSION_SUPERSEDED] else []) @
        (if suite_status liveSuite \<noteq> SUITE_FROZEN then [SUITE_NOT_FROZEN] else []) @
        (case (dateParse runCompletedAt, dateParse now) of
           (Some runCompletedAtMs, Some nowMs) \<Rightarrow>
             (let ageMs = nowMs - runCompletedAtMs; ageDays = ageMs / MS_PER_DAY
              in if ageDays > maxEvidenceAgeDays policy then [EVIDENCE_TOO_OLD] else [])
         | _ \<Rightarrow> [EVIDENCE_UNREADABLE])
      in \<lparr>stale = length reasons > 0, stale_reasons = reasons\<rparr>)"

datatype gate_status = G_PASS | G_FAIL | G_NO_BASELINE | G_NO_BASELINE_PASS

datatype gate_reason =
    R_MATERIAL_REGRESSION
  | R_NOTHING_TO_COMPARE
  | R_VERDICT_NOT_PASS
  | R_STALE_EVIDENCE
  | R_THRESHOLD_FAILED
  | R_REQUIRED_PACK_MISSING
  | R_NO_BASELINE
  | R_NO_BASELINE_BOOTSTRAP_DISABLED

record release_gate_verdict =
  gv_status :: gate_status
  gv_reasons :: "gate_reason list"
  gv_failedThresholds :: "dimension list"
  gv_scoreVector :: "dimension_aggregate list"
  gv_staleness :: staleness_assessment
  gv_requiredPacksSatisfied :: bool

record release_gate_inputs =
  gi_hasBaseline :: bool
  gi_comparisonVerdict :: "comparison_verdict option"
  gi_candidateAggregates :: "dimension_aggregate list"
  gi_pinnedSuiteVersion :: nat
  gi_liveSuite :: eval_suite
  gi_runCompletedAt :: string
  gi_now :: string
  gi_policy :: promotion_policy

text \<open>The map built from the aggregates: a later one of the same dimension replaces an earlier.\<close>

definition aggByDimension :: "dimension_aggregate list \<Rightarrow> dimension \<Rightarrow> dimension_aggregate option" where
  "aggByDimension aggs = map_of (rev (map (\<lambda>a. (agg_dimension a, a)) aggs))"

definition thin :: "dimension_aggregate \<Rightarrow> promotion_policy \<Rightarrow> bool" where
  "thin a policy \<longleftrightarrow> of_nat (scoredCount a) < pp_minSampleCount policy"

definition below :: "rat option \<Rightarrow> rat \<Rightarrow> bool" where
  "below m bound = (case m of None \<Rightarrow> True | Some v \<Rightarrow> v < bound)"

definition above :: "rat option \<Rightarrow> rat \<Rightarrow> bool" where
  "above m bound = (case m of None \<Rightarrow> True | Some v \<Rightarrow> v > bound)"

definition evaluateAbsoluteThresholds ::
  "dimension_aggregate list \<Rightarrow> promotion_policy \<Rightarrow> dimension list" where
  "evaluateAbsoluteThresholds aggs policy =
     (let by = aggByDimension aggs
      in (case by Task_success of
            None \<Rightarrow> [Task_success]
          | Some a \<Rightarrow> if thin a policy \<or> below (passRate a) (taskSuccessMin policy)
                      then [Task_success] else []) @
         (case by Policy_compliance of
            None \<Rightarrow> []
          | Some a \<Rightarrow> if thin a policy \<or> below (passRate a) (policyComplianceMin policy)
                      then [Policy_compliance] else []) @
         (case by Latency of
            None \<Rightarrow> []
          | Some a \<Rightarrow> if thin a policy \<or> above (p95 a) (latencyP95TargetMs policy)
                      then [Latency] else []) @
         (case by Cost of
            None \<Rightarrow> []
          | Some a \<Rightarrow> if thin a policy \<or> above (meanUsd a) (avgCostBudgetUsd policy)
                      then [Cost] else []))"

definition evaluateRequiredPacks :: "eval_suite \<Rightarrow> promotion_policy \<Rightarrow> bool" where
  "evaluateRequiredPacks liveSuite policy =
     (if length (requiredGateClasses policy) = 0 then True
      else list_all (\<lambda>required. suite_gateClass liveSuite = Some required) (requiredGateClasses policy))"

definition evaluateReleaseGate ::
  "(string \<Rightarrow> rat option) \<Rightarrow> release_gate_inputs \<Rightarrow> release_gate_verdict option" where
  "evaluateReleaseGate dateParse inputs =
     (let policy = gi_policy inputs;
          staleness = assessStaleness dateParse (gi_pinnedSuiteVersion inputs) (gi_liveSuite inputs)
                        (gi_runCompletedAt inputs) policy (gi_now inputs);
          failedThresholds = evaluateAbsoluteThresholds (gi_candidateAggregates inputs) policy;
          requiredPacksSatisfied = evaluateRequiredPacks (gi_liveSuite inputs) policy;
          verdict = (\<lambda>st rs. \<lparr>gv_status = st, gv_reasons = rs, gv_failedThresholds = failedThresholds,
                       gv_scoreVector = gi_candidateAggregates inputs, gv_staleness = staleness,
                       gv_requiredPacksSatisfied = requiredPacksSatisfied\<rparr>);
          floorReasons = (if length failedThresholds > 0 then [R_THRESHOLD_FAILED] else []) @
                         (if \<not> requiredPacksSatisfied then [R_REQUIRED_PACK_MISSING] else [])
      in if stale staleness then Some (verdict G_FAIL [R_STALE_EVIDENCE])
         else if \<not> gi_hasBaseline inputs
         then (let absoluteFloorsMet = (length failedThresholds = 0 \<and> requiredPacksSatisfied)
               in if \<not> allowNoBaselineOnAbsoluteFloors policy
                  then Some (verdict G_NO_BASELINE [R_NO_BASELINE, R_NO_BASELINE_BOOTSTRAP_DISABLED])
                  else if absoluteFloorsMet then Some (verdict G_NO_BASELINE_PASS [R_NO_BASELINE])
                  else Some (verdict G_NO_BASELINE (R_NO_BASELINE # floorReasons)))
         else (case gi_comparisonVerdict inputs of
             None \<Rightarrow> None
           | Some v \<Rightarrow>
               (let reasons =
                  (if verdictStatus v = V_NOTHING_TO_COMPARE then [R_NOTHING_TO_COMPARE]
                   else if verdictStatus v \<noteq> V_PASS
                   then [if anyMaterialRegression v then R_MATERIAL_REGRESSION else R_VERDICT_NOT_PASS]
                   else []) @ floorReasons
                in Some (verdict (if length reasons = 0 then G_PASS else G_FAIL) reasons))))"

section \<open>When the gate opens\<close>

definition fresh_evidence :: "(string \<Rightarrow> rat option) \<Rightarrow> release_gate_inputs \<Rightarrow> bool" where
  "fresh_evidence dateParse i \<longleftrightarrow>
     suite_version (gi_liveSuite i) \<le> gi_pinnedSuiteVersion i \<and>
     suite_status (gi_liveSuite i) = SUITE_FROZEN \<and>
     (\<exists>r n. dateParse (gi_runCompletedAt i) = Some r \<and> dateParse (gi_now i) = Some n \<and>
        (n - r) / MS_PER_DAY \<le> maxEvidenceAgeDays (gi_policy i))"

definition floors_met :: "release_gate_inputs \<Rightarrow> bool" where
  "floors_met i \<longleftrightarrow>
     (let by = aggByDimension (gi_candidateAggregates i); p = gi_policy i
      in (\<exists>a r. by Task_success = Some a \<and> \<not> thin a p \<and> passRate a = Some r \<and> taskSuccessMin p \<le> r) \<and>
         (\<forall>a. by Policy_compliance = Some a \<longrightarrow>
            \<not> thin a p \<and> (\<exists>r. passRate a = Some r \<and> policyComplianceMin p \<le> r)) \<and>
         (\<forall>a. by Latency = Some a \<longrightarrow> \<not> thin a p \<and> (\<exists>v. p95 a = Some v \<and> v \<le> latencyP95TargetMs p)) \<and>
         (\<forall>a. by Cost = Some a \<longrightarrow> \<not> thin a p \<and> (\<exists>v. meanUsd a = Some v \<and> v \<le> avgCostBudgetUsd p))) \<and>
     (\<forall>c \<in> set (requiredGateClasses (gi_policy i)). suite_gateClass (gi_liveSuite i) = Some c)"

lemma stale_iff:
  "stale (assessStaleness dp (gi_pinnedSuiteVersion i) (gi_liveSuite i) (gi_runCompletedAt i)
     (gi_policy i) (gi_now i)) \<longleftrightarrow> \<not> fresh_evidence dp i"
  by (auto simp: assessStaleness_def fresh_evidence_def Let_def not_less not_le split: option.split)

lemma floors_met_iff:
  "evaluateAbsoluteThresholds (gi_candidateAggregates i) (gi_policy i) = [] \<and>
   evaluateRequiredPacks (gi_liveSuite i) (gi_policy i) \<longleftrightarrow> floors_met i"
  by (auto simp: evaluateAbsoluteThresholds_def evaluateRequiredPacks_def floors_met_def Let_def
      below_def above_def list_all_iff not_less split: option.splits if_splits)

definition gate_open :: "(string \<Rightarrow> rat option) \<Rightarrow> release_gate_inputs \<Rightarrow> bool" where
  "gate_open dateParse i \<longleftrightarrow>
     (case evaluateReleaseGate dateParse i of
        None \<Rightarrow> False
      | Some v \<Rightarrow> gv_status v = G_PASS \<or> gv_status v = G_NO_BASELINE_PASS)"

lemma gate_open_iff:
  "gate_open dp i \<longleftrightarrow> fresh_evidence dp i \<and> floors_met i \<and>
     (if gi_hasBaseline i
      then \<exists>v. gi_comparisonVerdict i = Some v \<and> verdictStatus v = V_PASS
      else allowNoBaselineOnAbsoluteFloors (gi_policy i))"
proof -
  have "stale (assessStaleness dp (gi_pinnedSuiteVersion i) (gi_liveSuite i) (gi_runCompletedAt i)
     (gi_policy i) (gi_now i)) = (\<not> fresh_evidence dp i)"
    by (rule stale_iff)
  then show ?thesis
    using floors_met_iff [of i]
    by (cases "gi_comparisonVerdict i")
      (auto simp: gate_open_def evaluateReleaseGate_def Let_def)
qed

text \<open>C5. The gate lets a release through exactly when its evidence is fresh (suite frozen, pinned
  version not superseded, readable timestamps within the maximum age), every absolute floor and
  required pack is met, and the comparison with the baseline passed or, with no baseline, the
  policy allows a bootstrap on the floors alone.\<close>

theorem evaluateReleaseGate_pass_iff:
  "(\<exists>v. evaluateReleaseGate dateParse i = Some v \<and> gv_status v \<in> {G_PASS, G_NO_BASELINE_PASS}) =
   (fresh_evidence dateParse i \<and> floors_met i \<and>
    (if gi_hasBaseline i
     then \<exists>v. gi_comparisonVerdict i = Some v \<and> verdictStatus v = V_PASS
     else allowNoBaselineOnAbsoluteFloors (gi_policy i)))"
  using gate_open_iff [of dateParse i] by (auto simp: gate_open_def split: option.splits)

lemma thin_antimono: "at_least_as_strict h l \<Longrightarrow> \<not> thin a h \<Longrightarrow> \<not> thin a l"
  by (simp add: at_least_as_strict_def thin_def)

lemma floors_met_antimono:
  assumes strict: "at_least_as_strict h l" and met: "floors_met (i\<lparr>gi_policy := h\<rparr>)"
  shows "floors_met (i\<lparr>gi_policy := l\<rparr>)"
proof -
  have thin: "\<not> thin a l" if "\<not> thin a h" for a
    using strict that by (rule thin_antimono)
  have le: "taskSuccessMin l \<le> taskSuccessMin h" "policyComplianceMin l \<le> policyComplianceMin h"
    "latencyP95TargetMs h \<le> latencyP95TargetMs l" "avgCostBudgetUsd h \<le> avgCostBudgetUsd l"
    "set (requiredGateClasses l) \<subseteq> set (requiredGateClasses h)"
    using strict by (simp_all add: at_least_as_strict_def)
  let ?by = "aggByDimension (gi_candidateAggregates i)"
  have at_least: "\<exists>r. m = Some r \<and> q \<le> r" if "\<exists>r. m = Some r \<and> p \<le> r" and "q \<le> p"
    for m :: "rat option" and p q
    using that order_trans by blast
  have at_most: "\<exists>r. m = Some r \<and> r \<le> q" if "\<exists>r. m = Some r \<and> r \<le> p" and "p \<le> q"
    for m :: "rat option" and p q
    using that order_trans by blast
  have met':
    "\<exists>a. ?by Task_success = Some a \<and> \<not> thin a h \<and> (\<exists>r. passRate a = Some r \<and> taskSuccessMin h \<le> r)"
    "\<And>a. ?by Policy_compliance = Some a \<Longrightarrow> \<not> thin a h \<and> (\<exists>r. passRate a = Some r \<and> policyComplianceMin h \<le> r)"
    "\<And>a. ?by Latency = Some a \<Longrightarrow> \<not> thin a h \<and> (\<exists>v. p95 a = Some v \<and> v \<le> latencyP95TargetMs h)"
    "\<And>a. ?by Cost = Some a \<Longrightarrow> \<not> thin a h \<and> (\<exists>v. meanUsd a = Some v \<and> v \<le> avgCostBudgetUsd h)"
    "\<And>c. c \<in> set (requiredGateClasses h) \<Longrightarrow> suite_gateClass (gi_liveSuite i) = Some c"
    using met by (simp_all add: floors_met_def Let_def)
  have "\<exists>a. ?by Task_success = Some a \<and> \<not> thin a l \<and> (\<exists>r. passRate a = Some r \<and> taskSuccessMin l \<le> r)"
    using met'(1) thin at_least [OF _ le(1)] by blast
  moreover have "?by Policy_compliance = Some a \<Longrightarrow>
      \<not> thin a l \<and> (\<exists>r. passRate a = Some r \<and> policyComplianceMin l \<le> r)" for a
    using met'(2) [of a] thin [of a] at_least [OF _ le(2), of "passRate a"] by blast
  moreover have "?by Latency = Some a \<Longrightarrow>
      \<not> thin a l \<and> (\<exists>v. p95 a = Some v \<and> v \<le> latencyP95TargetMs l)" for a
    using met'(3) [of a] thin [of a] at_most [OF _ le(3), of "p95 a"] by blast
  moreover have "?by Cost = Some a \<Longrightarrow>
      \<not> thin a l \<and> (\<exists>v. meanUsd a = Some v \<and> v \<le> avgCostBudgetUsd l)" for a
    using met'(4) [of a] thin [of a] at_most [OF _ le(4), of "meanUsd a"] by blast
  moreover have "c \<in> set (requiredGateClasses l) \<Longrightarrow> suite_gateClass (gi_liveSuite i) = Some c" for c
    using met'(5) le(5) by blast
  ultimately show ?thesis
    by (simp add: floors_met_def Let_def)
qed

text \<open>C27. Gating is monotone in the strictness the ladder compares: evidence that passes under a policy
  also passes under every policy that the ladder check accepts below it.\<close>

theorem evaluateReleaseGate_monotone:
  assumes "comparePolicyStrictness h l = []"
    and "evaluateReleaseGate dateParse (i\<lparr>gi_policy := h\<rparr>) = Some v"
    and "gv_status v \<in> {G_PASS, G_NO_BASELINE_PASS}"
  shows "\<exists>w. evaluateReleaseGate dateParse (i\<lparr>gi_policy := l\<rparr>) = Some w \<and>
    gv_status w \<in> {G_PASS, G_NO_BASELINE_PASS}"
proof -
  have strict: "at_least_as_strict h l"
    using assms(1) monotonic_iff by (simp add: monotonic_def)
  have "gate_open dateParse (i\<lparr>gi_policy := h\<rparr>)"
    using assms(2,3) by (auto simp: gate_open_def)
  moreover have "fresh_evidence dateParse (i\<lparr>gi_policy := l\<rparr>)"
    if "fresh_evidence dateParse (i\<lparr>gi_policy := h\<rparr>)"
    using that strict by (fastforce simp: fresh_evidence_def at_least_as_strict_def)
  moreover have "allowNoBaselineOnAbsoluteFloors h \<Longrightarrow> allowNoBaselineOnAbsoluteFloors l"
    using strict by (simp add: at_least_as_strict_def)
  ultimately have "gate_open dateParse (i\<lparr>gi_policy := l\<rparr>)"
    using floors_met_antimono [OF strict, of i] by (auto simp: gate_open_iff split: if_splits)
  then show ?thesis
    by (auto simp: gate_open_def split: option.splits)
qed

lemma evaluateReleaseGate_reasons_facts:
  "(evaluateReleaseGate dateParse i = None) =
     (fresh_evidence dateParse i \<and> gi_hasBaseline i \<and> gi_comparisonVerdict i = None)"
  "evaluateReleaseGate dateParse i = Some v \<Longrightarrow>
     (gv_status v = G_PASS) = (gv_reasons v = []) \<and>
     (gv_status v = G_NO_BASELINE_PASS) = (gv_reasons v = [R_NO_BASELINE]) \<and>
     (\<not> fresh_evidence dateParse i \<longrightarrow> gv_status v = G_FAIL \<and> gv_reasons v = [R_STALE_EVIDENCE])"
proof -
  have st: "stale (assessStaleness dateParse (gi_pinnedSuiteVersion i) (gi_liveSuite i)
      (gi_runCompletedAt i) (gi_policy i) (gi_now i)) = (\<not> fresh_evidence dateParse i)"
    by (rule stale_iff)
  show "(evaluateReleaseGate dateParse i = None) =
     (fresh_evidence dateParse i \<and> gi_hasBaseline i \<and> gi_comparisonVerdict i = None)"
    by (auto simp: evaluateReleaseGate_def Let_def st split: option.splits)
  assume v: "evaluateReleaseGate dateParse i = Some v"
  show "(gv_status v = G_PASS) = (gv_reasons v = []) \<and>
     (gv_status v = G_NO_BASELINE_PASS) = (gv_reasons v = [R_NO_BASELINE]) \<and>
     (\<not> fresh_evidence dateParse i \<longrightarrow> gv_status v = G_FAIL \<and> gv_reasons v = [R_STALE_EVIDENCE])"
    using v by (auto simp: evaluateReleaseGate_def Let_def st split: option.splits if_splits)
qed

text \<open>Every outcome carries its reasons: a pass against a baseline has none, a refusal always has
  one, and stale evidence is refused as stale whatever else holds. The evaluation throws only
  when a baseline is claimed and no comparison is supplied.\<close>

theorem evaluateReleaseGate_reasons:
  "(evaluateReleaseGate dateParse i = None) =
     (fresh_evidence dateParse i \<and> gi_hasBaseline i \<and> gi_comparisonVerdict i = None) \<and>
   (evaluateReleaseGate dateParse i = Some v \<longrightarrow>
     (gv_status v = G_PASS) = (gv_reasons v = []) \<and>
     (gv_status v = G_NO_BASELINE_PASS) = (gv_reasons v = [R_NO_BASELINE]) \<and>
     (\<not> fresh_evidence dateParse i \<longrightarrow> gv_status v = G_FAIL \<and> gv_reasons v = [R_STALE_EVIDENCE]))"
  using evaluateReleaseGate_reasons_facts [of dateParse i] by blast

text \<open>One suite carries one gate class, so a policy that requires two different packs is never met.\<close>

lemma two_packs_never_met:
  "c \<in> set (requiredGateClasses p) \<Longrightarrow> d \<in> set (requiredGateClasses p) \<Longrightarrow> c \<noteq> d \<Longrightarrow>
    \<not> evaluateRequiredPacks suite p"
  unfolding evaluateRequiredPacks_def list_all_iff by (metis length_0_conv length_pos_if_in_set less_irrefl option.inject)

section \<open>A release that passes\<close>

definition sample_suite :: eval_suite where
  "sample_suite =
     \<lparr>suite_id = ''s1'', suite_orgId = Some ''org'', suite_agentTargetId = ''agent'', suite_version = 2,
      suite_status = SUITE_FROZEN, suite_gateClass = None\<rparr>"

definition sample_task_aggregate :: dimension_aggregate where
  "sample_task_aggregate = (emptyAggregate Task_success)\<lparr>scoredCount := 8, passRate := Some (95 / 100)\<rparr>"

definition sample_inputs :: "promotion_policy \<Rightarrow> release_gate_inputs" where
  "sample_inputs p =
     \<lparr>gi_hasBaseline = False, gi_comparisonVerdict = None,
      gi_candidateAggregates = [sample_task_aggregate], gi_pinnedSuiteVersion = 2,
      gi_liveSuite = sample_suite, gi_runCompletedAt = ''1000'', gi_now = ''2000'', gi_policy = p\<rparr>"

definition sample_policy :: promotion_policy where
  "sample_policy = DEFAULT_PROMOTION_POLICY\<lparr>allowNoBaselineOnAbsoluteFloors := True\<rparr>"

definition sample_date :: "string \<Rightarrow> rat option" where
  "sample_date s = Some (of_nat (digits_value s))"

lemma sample_gate_open:
  "evaluateReleaseGate sample_date (sample_inputs sample_policy) =
     Some \<lparr>gv_status = G_NO_BASELINE_PASS, gv_reasons = [R_NO_BASELINE], gv_failedThresholds = [],
       gv_scoreVector = [sample_task_aggregate],
       gv_staleness = \<lparr>stale = False, stale_reasons = []\<rparr>, gv_requiredPacksSatisfied = True\<rparr>"
  by (simp add: evaluateReleaseGate_def Let_def sample_inputs_def sample_policy_def sample_suite_def
      sample_task_aggregate_def DEFAULT_PROMOTION_POLICY_def assessStaleness_def sample_date_def
      evaluateAbsoluteThresholds_def aggByDimension_def evaluateRequiredPacks_def emptyAggregate_def
      thin_def below_def MS_PER_DAY_def digits_value_def)

theorem evaluateReleaseGate_monotone_witness:
  "\<exists>w. evaluateReleaseGate sample_date
      ((sample_inputs sample_policy)\<lparr>gi_policy := sample_policy\<lparr>taskSuccessMin := 1 / 2\<rparr>\<rparr>) = Some w \<and>
    gv_status w \<in> {G_PASS, G_NO_BASELINE_PASS}"
proof (rule evaluateReleaseGate_monotone)
  show "comparePolicyStrictness sample_policy (sample_policy\<lparr>taskSuccessMin := 1 / 2\<rparr>) = []"
    by (simp add: comparePolicyStrictness_def RISING_FLOOR_FIELDS_def TIGHTENING_CEILING_FIELDS_def
        sample_policy_def DEFAULT_PROMOTION_POLICY_def)
  have "(sample_inputs sample_policy)\<lparr>gi_policy := sample_policy\<rparr> = sample_inputs sample_policy"
    by (simp add: sample_inputs_def)
  then show "evaluateReleaseGate sample_date ((sample_inputs sample_policy)\<lparr>gi_policy := sample_policy\<rparr>) =
     Some \<lparr>gv_status = G_NO_BASELINE_PASS, gv_reasons = [R_NO_BASELINE], gv_failedThresholds = [],
       gv_scoreVector = [sample_task_aggregate],
       gv_staleness = \<lparr>stale = False, stale_reasons = []\<rparr>, gv_requiredPacksSatisfied = True\<rparr>"
    using sample_gate_open by simp
qed simp

theorem evaluateReleaseGate_reasons_witness:
  "\<exists>v. evaluateReleaseGate sample_date (sample_inputs sample_policy) = Some v \<and>
    gv_status v = G_NO_BASELINE_PASS \<and> gv_reasons v = [R_NO_BASELINE]"
  using evaluateReleaseGate_reasons [THEN conjunct2, THEN mp, OF sample_gate_open] sample_gate_open by simp

end
