(* ===== verification/PointerStore.thy ===== *)
theory PointerStore
  imports ReleaseTypes Tables "HOL-Library.Product_Lexorder" "HOL-Library.Sublist"
begin

text \<open>
  The write boundary of environment pointers
  (backend/src/lambda/environment-release-pointer-store.ts), the append-only history it writes in
  the same transaction (environment-release-pointer-history-store.ts), and the floor derived
  from that history (utils/rollback-floor.ts). Keys are UTF-8 strings compared bytewise, as
  DynamoDB compares them. Concurrent promotions are a step relation over reads and conditional
  writes.
\<close>

section \<open>Keys\<close>

definition sortKey :: "string \<Rightarrow> environment \<Rightarrow> string" where
  "sortKey agentTargetId environment = agentTargetId @ ''#'' @ env_str environment"

definition historySortKeyPrefix :: "string \<Rightarrow> environment \<Rightarrow> string" where
  "historySortKeyPrefix agentTargetId environment = agentTargetId @ ''#'' @ env_str environment @ ''#''"

definition historySortKey :: "string \<Rightarrow> environment \<Rightarrow> string \<Rightarrow> nat \<Rightarrow> string" where
  "historySortKey agentTargetId environment promotedAt version =
     historySortKeyPrefix agentTargetId environment @ promotedAt @ ''#'' @ show_nat version"

section \<open>Errors of the database client\<close>

datatype raw_error =
    ConditionalCheckFailedException
  | TransactionCanceledException "string option list option" string
  | OtherException string

text \<open>Each cancellation reason may lack its code; the list itself may be missing.\<close>

definition isConditionalCheckFailed :: "raw_error \<Rightarrow> bool" where
  "isConditionalCheckFailed err = (case err of
       ConditionalCheckFailedException \<Rightarrow> True
     | TransactionCanceledException reasons message \<Rightarrow>
         (case reasons of
            Some rs \<Rightarrow> list_ex (\<lambda>r. r = Some ''ConditionalCheckFailed'') rs
          | None \<Rightarrow> sublist ''ConditionalCheckFailed'' message)
     | OtherException _ \<Rightarrow> False)"

section \<open>The atomic move\<close>

record store =
  st_pointers :: "(string \<times> string, pointer) table"
  st_history :: "(string \<times> string, pointer) table"

record set_params =
  sp_orgId :: string
  sp_agentTargetId :: string
  sp_environment :: environment
  sp_releaseId :: string
  sp_expectedVersion :: "nat option"
  sp_currentReleaseId :: "string option"
  sp_promotedBy :: string
  sp_canary :: "canary_state option"
  sp_transitionType :: "transition_type option"

definition nextVersion :: "set_params \<Rightarrow> nat" where
  "nextVersion params = (case sp_expectedVersion params of None \<Rightarrow> 0 | Some v \<Rightarrow> v) + 1"

text \<open>The pointer returned to the caller and recorded in the history.\<close>

definition moved_pointer :: "set_params \<Rightarrow> string \<Rightarrow> pointer" where
  "moved_pointer params promotedAt =
     \<lparr>ptr_orgId = sp_orgId params, ptr_agentTargetId = sp_agentTargetId params,
      ptr_environment = sp_environment params, ptr_releaseId = sp_releaseId params,
      ptr_previousReleaseId = sp_currentReleaseId params, ptr_promotedAt = promotedAt,
      ptr_promotedBy = sp_promotedBy params, ptr_version = nextVersion params,
      ptr_canary = sp_canary params,
      ptr_transitionType =
        Some (case sp_transitionType params of None \<Rightarrow> T_PROMOTE | Some t \<Rightarrow> t),
      ptr_canaryActiveKey = None\<rparr>"

text \<open>The stored item: the marker of the sparse index only with a canary.\<close>

definition pointer_item :: "set_params \<Rightarrow> string \<Rightarrow> pointer" where
  "pointer_item params promotedAt =
     (moved_pointer params promotedAt)
       \<lparr>ptr_canaryActiveKey := (case sp_canary params of
            None \<Rightarrow> None
          | Some _ \<Rightarrow> Some (sp_orgId params @ ''#'' @
              sortKey (sp_agentTargetId params) (sp_environment params)))\<rparr>"

text \<open>\<open>attribute_not_exists(orgId) OR version = :expectedVersion\<close>, the second half only with
  an expected version.\<close>

definition put_condition :: "nat option \<Rightarrow> pointer option \<Rightarrow> bool" where
  "put_condition expectedVersion stored = (case stored of
       None \<Rightarrow> True
     | Some row \<Rightarrow> (case expectedVersion of None \<Rightarrow> False | Some v \<Rightarrow> ptr_version row = v))"

definition transact_put :: "set_params \<Rightarrow> string \<Rightarrow> store \<Rightarrow> (raw_error + unit) \<times> store" where
  "transact_put params promotedAt st =
     (let k = (sp_orgId params, sortKey (sp_agentTargetId params) (sp_environment params));
          hk = (sp_orgId params, historySortKey (sp_agentTargetId params) (sp_environment params)
                  promotedAt (nextVersion params))
      in if put_condition (sp_expectedVersion params) (tbl_get (st_pointers st) k)
         then (Inr (), st\<lparr>st_pointers := tbl_put k (pointer_item params promotedAt) (st_pointers st),
                          st_history := tbl_put hk (moved_pointer params promotedAt) (st_history st)\<rparr>)
         else (Inl (TransactionCanceledException
                      (Some [Some ''ConditionalCheckFailed'', Some ''None'']) []), st))"

section \<open>Reads\<close>

definition read_pointer :: "store \<Rightarrow> string \<Rightarrow> string \<Rightarrow> environment \<Rightarrow> pointer option" where
  "read_pointer st orgId agentTargetId environment =
     tbl_get (st_pointers st) (orgId, sortKey agentTargetId environment)"

definition query_pointers_for_agent :: "store \<Rightarrow> string \<Rightarrow> string \<Rightarrow> pointer list" where
  "query_pointers_for_agent st orgId agentTargetId =
     map snd (tbl_query (\<lambda>k. fst k = orgId \<and> prefix (agentTargetId @ ''#'') (snd k)) (st_pointers st))"

text \<open>The bytes of \<open>\uffff\<close>, greater than any byte of a version.\<close>

definition high_sentinel :: string where
  "high_sentinel = [CHR 0xEF, CHR 0xBF, CHR 0xBF]"

definition query_history ::
  "store \<Rightarrow> string \<Rightarrow> string \<Rightarrow> environment \<Rightarrow> string option \<Rightarrow> pointer list" where
  "query_history st orgId agentTargetId environment until =
     (let pre = historySortKeyPrefix agentTargetId environment
      in map snd (tbl_query
           (\<lambda>k. fst k = orgId \<and>
              (case until of
                 None \<Rightarrow> prefix pre (snd k)
               | Some u \<Rightarrow> pre \<le> snd k \<and> snd k \<le> pre @ u @ ''#'' @ high_sentinel))
           (st_history st)))"

definition release_running_at ::
  "store \<Rightarrow> string \<Rightarrow> string \<Rightarrow> environment \<Rightarrow> string \<Rightarrow> pointer option" where
  "release_running_at st orgId agentTargetId environment until =
     (let rows = query_history st orgId agentTargetId environment (Some until)
      in if length rows = 0 then None else Some (rows ! (length rows - 1)))"

text \<open>The sparse index, in order of its sort key; its pages are concatenated.\<close>

definition query_active_canaries :: "store \<Rightarrow> pointer list" where
  "query_active_canaries st =
     sort_key (\<lambda>p. the (ptr_canaryActiveKey p))
       (filter (\<lambda>p. ptr_canaryActiveKey p \<noteq> None) (map snd (st_pointers st)))"

section \<open>Keys determine what they are built from\<close>

lemma sortKey_inject [simp]: "sortKey a e = sortKey b f \<longleftrightarrow> a = b \<and> e = f"
proof
  assume "sortKey a e = sortKey b f"
  then have "a @ CHR ''#'' # env_str e = b @ CHR ''#'' # env_str f"
    by (simp add: sortKey_def)
  from last_separator_inject [OF this env_str_no_hash env_str_no_hash] show "a = b \<and> e = f"
    by simp
qed simp

lemma historySortKey_inject:
  assumes "historySortKey a e s v = historySortKey b f t w"
    and "CHR ''#'' \<notin> set s" and "CHR ''#'' \<notin> set t"
  shows "a = b \<and> e = f \<and> s = t \<and> v = w"
proof -
  have "(sortKey a e @ CHR ''#'' # s) @ CHR ''#'' # show_nat v =
      (sortKey b f @ CHR ''#'' # t) @ CHR ''#'' # show_nat w"
    using assms(1) by (simp add: historySortKey_def historySortKeyPrefix_def sortKey_def)
  from last_separator_inject [OF this show_nat_no_hash show_nat_no_hash]
  have "sortKey a e @ CHR ''#'' # s = sortKey b f @ CHR ''#'' # t" and v: "v = w"
    by simp_all
  from last_separator_inject [OF this(1) assms(2,3)] v show ?thesis
    by simp
qed

section \<open>What one move does\<close>

lemma moved_pointer_simps [simp]:
  "ptr_orgId (moved_pointer q ts) = sp_orgId q"
  "ptr_agentTargetId (moved_pointer q ts) = sp_agentTargetId q"
  "ptr_environment (moved_pointer q ts) = sp_environment q"
  "ptr_releaseId (moved_pointer q ts) = sp_releaseId q"
  "ptr_previousReleaseId (moved_pointer q ts) = sp_currentReleaseId q"
  "ptr_promotedAt (moved_pointer q ts) = ts"
  "ptr_promotedBy (moved_pointer q ts) = sp_promotedBy q"
  "ptr_version (moved_pointer q ts) = nextVersion q"
  "ptr_canary (moved_pointer q ts) = sp_canary q"
  "ptr_canaryActiveKey (moved_pointer q ts) = None"
  by (simp_all add: moved_pointer_def)

lemma pointer_item_simps [simp]:
  "ptr_orgId (pointer_item q ts) = sp_orgId q"
  "ptr_agentTargetId (pointer_item q ts) = sp_agentTargetId q"
  "ptr_environment (pointer_item q ts) = sp_environment q"
  "ptr_releaseId (pointer_item q ts) = sp_releaseId q"
  "ptr_version (pointer_item q ts) = nextVersion q"
  "ptr_canary (pointer_item q ts) = sp_canary q"
  "(pointer_item q ts)\<lparr>ptr_canaryActiveKey := None\<rparr> = moved_pointer q ts"
  "(ptr_canaryActiveKey (pointer_item q ts) = None) = (sp_canary q = None)"
  by (simp_all add: pointer_item_def moved_pointer_def split: option.split)

lemma transact_put_Inr:
  "transact_put q ts st = (Inr u, st') \<longleftrightarrow>
     put_condition (sp_expectedVersion q)
       (read_pointer st (sp_orgId q) (sp_agentTargetId q) (sp_environment q)) \<and>
     st' = st\<lparr>st_pointers := tbl_put (sp_orgId q, sortKey (sp_agentTargetId q) (sp_environment q))
                 (pointer_item q ts) (st_pointers st),
              st_history := tbl_put (sp_orgId q,
                 historySortKey (sp_agentTargetId q) (sp_environment q) ts (nextVersion q))
                 (moved_pointer q ts) (st_history st)\<rparr>"
  by (auto simp: transact_put_def read_pointer_def Let_def)

lemma transact_put_Inl:
  "transact_put q ts st = (Inl e, st') \<Longrightarrow> isConditionalCheckFailed e \<and> st' = st \<and>
     \<not> put_condition (sp_expectedVersion q)
       (read_pointer st (sp_orgId q) (sp_agentTargetId q) (sp_environment q))"
  by (auto simp: transact_put_def read_pointer_def Let_def isConditionalCheckFailed_def split: if_splits)

lemma read_after_put:
  assumes "transact_put q ts st = (Inr u, st')"
  shows "read_pointer st' o' a e =
    (if (o', a, e) = (sp_orgId q, sp_agentTargetId q, sp_environment q)
     then Some (pointer_item q ts) else read_pointer st o' a e)"
  using assms by (auto simp: transact_put_Inr read_pointer_def tbl.get_put)

section \<open>The invariant of pointers and history\<close>

definition history_of :: "store \<Rightarrow> string \<Rightarrow> string \<Rightarrow> environment \<Rightarrow> pointer set" where
  "history_of st org a e =
     {h. (\<exists>k. tbl_get (st_history st) k = Some h) \<and>
         ptr_orgId h = org \<and> ptr_agentTargetId h = a \<and> ptr_environment h = e}"

text \<open>The history of a pointer has one row for each version up to the current one, which it records
  as it stands; without a pointer there is no history.\<close>

definition history_consistent :: "pointer set \<Rightarrow> pointer option \<Rightarrow> bool" where
  "history_consistent H ptr = (case ptr of
       None \<Rightarrow> H = {}
     | Some p \<Rightarrow> ptr_version ` H = {1..ptr_version p} \<and> inj_on ptr_version H \<and>
         p\<lparr>ptr_canaryActiveKey := None\<rparr> \<in> H)"

definition pointer_key :: "pointer \<Rightarrow> string \<times> string" where
  "pointer_key p = (ptr_orgId p, sortKey (ptr_agentTargetId p) (ptr_environment p))"

definition history_key :: "pointer \<Rightarrow> string \<times> string" where
  "history_key h = (ptr_orgId h, historySortKey (ptr_agentTargetId h) (ptr_environment h)
     (ptr_promotedAt h) (ptr_version h))"

definition store_inv :: "store \<Rightarrow> bool" where
  "store_inv st \<longleftrightarrow>
     tbl_wf (st_pointers st) \<and> tbl_wf (st_history st) \<and>
     (\<forall>k p. tbl_get (st_pointers st) k = Some p \<longrightarrow>
        k = pointer_key p \<and> (ptr_canaryActiveKey p = None) = (ptr_canary p = None)) \<and>
     (\<forall>k h. tbl_get (st_history st) k = Some h \<longrightarrow>
        k = history_key h \<and> CHR ''#'' \<notin> set (ptr_promotedAt h)) \<and>
     (\<forall>org a e. history_consistent (history_of st org a e) (read_pointer st org a e))"

lemma store_invD:
  assumes "store_inv st"
  shows "tbl_wf (st_pointers st)" and "tbl_wf (st_history st)"
    and "tbl_get (st_pointers st) k = Some p \<Longrightarrow>
      k = pointer_key p \<and> (ptr_canaryActiveKey p = None) = (ptr_canary p = None)"
    and "tbl_get (st_history st) k = Some h \<Longrightarrow> k = history_key h \<and> CHR ''#'' \<notin> set (ptr_promotedAt h)"
    and "history_consistent (history_of st org a e) (read_pointer st org a e)"
  using assms unfolding store_inv_def by (blast+)

lemma store_inv_empty: "store_inv \<lparr>st_pointers = [], st_history = []\<rparr>"
  by (simp add: store_inv_def history_consistent_def history_of_def read_pointer_def)

lemma read_pointer_fields:
  assumes "store_inv st" and "read_pointer st org a e = Some p"
  shows "ptr_orgId p = org \<and> ptr_agentTargetId p = a \<and> ptr_environment p = e"
  using store_invD(3) [OF assms(1), of "(org, sortKey a e)" p] assms(2)
  by (simp add: read_pointer_def pointer_key_def)

lemma history_version_le:
  assumes "store_inv st" and "h \<in> history_of st org a e"
  shows "\<exists>p. read_pointer st org a e = Some p \<and> 1 \<le> ptr_version h \<and> ptr_version h \<le> ptr_version p"
proof -
  have "history_consistent (history_of st org a e) (read_pointer st org a e)"
    using assms(1) by (rule store_invD(5))
  then obtain p where "read_pointer st org a e = Some p"
    and "ptr_version ` history_of st org a e = {1..ptr_version p}"
    using assms(2) by (auto simp: history_consistent_def split: option.splits)
  then show ?thesis
    using assms(2) by (metis atLeastAtMost_iff imageI)
qed

text \<open>The moves the code makes: an expected version comes from a row that was read.\<close>

definition versioned_move :: "store \<Rightarrow> set_params \<Rightarrow> bool" where
  "versioned_move st q \<longleftrightarrow> sp_expectedVersion q = None \<or>
     read_pointer st (sp_orgId q) (sp_agentTargetId q) (sp_environment q) \<noteq> None"

lemma nextVersion_fresh:
  assumes "store_inv st" and "versioned_move st q"
    and "put_condition (sp_expectedVersion q)
      (read_pointer st (sp_orgId q) (sp_agentTargetId q) (sp_environment q))"
    and "h \<in> history_of st (sp_orgId q) (sp_agentTargetId q) (sp_environment q)"
  shows "ptr_version h \<noteq> nextVersion q"
  using history_version_le [OF assms(1,4)] assms(3)
  by (auto simp: put_condition_def nextVersion_def split: option.splits)

lemma fresh_update_range:
  assumes "m k = None"
  shows "(\<exists>j. (m(k := Some v)) j = Some x) \<longleftrightarrow> x = v \<or> (\<exists>j. m j = Some x)"
proof
  assume "x = v \<or> (\<exists>j. m j = Some x)"
  then show "\<exists>j. (m(k := Some v)) j = Some x"
  proof
    assume "\<exists>j. m j = Some x"
    then obtain j where "m j = Some x"
      by blast
    with assms have "(m(k := Some v)) j = Some x"
      by auto
    then show ?thesis
      by blast
  qed auto
qed (auto split: if_splits)

lemma history_key_fresh:
  assumes inv: "store_inv st" and vm: "versioned_move st q" and ts: "CHR ''#'' \<notin> set ts"
    and put: "transact_put q ts st = (Inr u, st')"
  shows "tbl_get (st_history st) (sp_orgId q,
    historySortKey (sp_agentTargetId q) (sp_environment q) ts (nextVersion q)) = None"
proof (rule ccontr)
  let ?hk = "(sp_orgId q, historySortKey (sp_agentTargetId q) (sp_environment q) ts (nextVersion q))"
  have cond: "put_condition (sp_expectedVersion q)
      (read_pointer st (sp_orgId q) (sp_agentTargetId q) (sp_environment q))"
    using put by (simp add: transact_put_Inr)
  assume "tbl_get (st_history st) ?hk \<noteq> None"
  then obtain h where h: "tbl_get (st_history st) ?hk = Some h"
    by blast
  with store_invD(4) [OF inv h] have hk: "?hk = history_key h"
    and nohash: "CHR ''#'' \<notin> set (ptr_promotedAt h)"
    by simp_all
  from hk have "ptr_orgId h = sp_orgId q"
    and keys: "historySortKey (sp_agentTargetId q) (sp_environment q) ts (nextVersion q) =
      historySortKey (ptr_agentTargetId h) (ptr_environment h) (ptr_promotedAt h) (ptr_version h)"
    by (simp_all add: history_key_def)
  with historySortKey_inject [OF keys ts nohash]
  have "ptr_orgId h = sp_orgId q \<and> ptr_agentTargetId h = sp_agentTargetId q \<and>
      ptr_environment h = sp_environment q \<and> ptr_version h = nextVersion q"
    by simp
  with h nextVersion_fresh [OF inv vm cond, of h] show False
    by (auto simp: history_of_def)
qed

lemma history_of_put:
  assumes inv: "store_inv st" and vm: "versioned_move st q" and ts: "CHR ''#'' \<notin> set ts"
    and put: "transact_put q ts st = (Inr u, st')"
  shows "history_of st' org a e =
    (if (org, a, e) = (sp_orgId q, sp_agentTargetId q, sp_environment q)
     then insert (moved_pointer q ts) (history_of st org a e) else history_of st org a e)"
proof -
  let ?hk = "(sp_orgId q, historySortKey (sp_agentTargetId q) (sp_environment q) ts (nextVersion q))"
  have st': "st_history st' = tbl_put ?hk (moved_pointer q ts) (st_history st)"
    using put by (auto simp: transact_put_Inr)
  have fresh: "tbl_get (st_history st) ?hk = None"
    using inv vm ts put by (rule history_key_fresh)
  have "(\<exists>k. tbl_get (st_history st') k = Some h) \<longleftrightarrow>
      h = moved_pointer q ts \<or> (\<exists>k. tbl_get (st_history st) k = Some h)" for h
    unfolding st' tbl.get_put using fresh by (rule fresh_update_range)
  then show ?thesis
    by (auto simp: history_of_def)
qed

lemma store_inv_put:
  assumes inv: "store_inv st" and vm: "versioned_move st q" and ts: "CHR ''#'' \<notin> set ts"
    and put: "transact_put q ts st = (Inr u, st')"
  shows "store_inv st'"
proof -
  have cond: "put_condition (sp_expectedVersion q)
      (read_pointer st (sp_orgId q) (sp_agentTargetId q) (sp_environment q))"
    and ptrs: "st_pointers st' = tbl_put (pointer_key (pointer_item q ts)) (pointer_item q ts) (st_pointers st)"
    and hist: "st_history st' = tbl_put (history_key (moved_pointer q ts)) (moved_pointer q ts) (st_history st)"
    using put by (auto simp: transact_put_Inr pointer_key_def history_key_def)
  have "history_consistent (history_of st' org a e) (read_pointer st' org a e)" for org a e
  proof (cases "(org, a, e) = (sp_orgId q, sp_agentTargetId q, sp_environment q)")
    case False
    then show ?thesis
      unfolding history_of_put [OF inv vm ts put] read_after_put [OF put]
      using store_invD(5) [OF inv] by (simp add: if_not_P)
  next
    case True
    let ?H = "history_of st org a e"
    have old: "history_consistent ?H (read_pointer st org a e)"
      using inv by (rule store_invD(5))
    have "ptr_version ` ?H = {1..nextVersion q - 1} \<and> inj_on ptr_version ?H"
      using old cond vm True
      by (auto simp: history_consistent_def put_condition_def versioned_move_def nextVersion_def
          split: option.splits)
    moreover have "1 \<le> nextVersion q"
      by (simp add: nextVersion_def)
    then have "{1..nextVersion q} = insert (nextVersion q) {1..nextVersion q - 1}"
      by auto
    moreover have "nextVersion q \<notin> {1..nextVersion q - 1}"
      by (simp add: nextVersion_def)
    ultimately show ?thesis
      using True image_eqI [of "nextVersion q" ptr_version _ ?H]
      by (auto simp: history_consistent_def history_of_put [OF inv vm ts put] read_after_put [OF put])
  qed
  then show ?thesis
    using store_invD [OF inv] ts
    by (auto simp: store_inv_def ptrs hist tbl.get_put split: if_splits)
qed

section \<open>Concurrent promotions\<close>

text \<open>
  Any number of clients read a pointer and later move it under the version they read; between the
  two, other clients may have moved it. A client may move from an old read as often as it likes.
\<close>

type_synonym pointer_id = "string \<times> string \<times> environment"

record sys =
  sys_store :: store
  sys_snaps :: "nat \<Rightarrow> (pointer_id \<times> pointer option) option"

definition sys_init :: sys where
  "sys_init = \<lparr>sys_store = \<lparr>st_pointers = [], st_history = []\<rparr>, sys_snaps = (\<lambda>_. None)\<rparr>"

definition move_from :: "pointer_id \<Rightarrow> pointer option \<Rightarrow> set_params \<Rightarrow> bool" where
  "move_from i seen q \<longleftrightarrow>
     i = (sp_orgId q, sp_agentTargetId q, sp_environment q) \<and>
     sp_expectedVersion q = map_option ptr_version seen"

inductive sys_step :: "sys \<Rightarrow> sys \<Rightarrow> bool" where
  sys_read:
    "sys_step s (s\<lparr>sys_snaps := (sys_snaps s)(c := Some ((org, a, e), read_pointer (sys_store s) org a e))\<rparr>)"
| sys_write:
    "sys_snaps s c = Some (i, seen) \<Longrightarrow> move_from i seen q \<Longrightarrow> CHR ''#'' \<notin> set ts \<Longrightarrow>
     transact_put q ts (sys_store s) = (r, st') \<Longrightarrow> sys_step s (s\<lparr>sys_store := st'\<rparr>)"

inductive_cases sys_stepE: "sys_step s s'"

text \<open>Every snapshot is of an existing row that has only moved forward since.\<close>

definition sys_inv :: "sys \<Rightarrow> bool" where
  "sys_inv s \<longleftrightarrow> store_inv (sys_store s) \<and>
     (\<forall>c org a e p. sys_snaps s c = Some ((org, a, e), Some p) \<longrightarrow>
        (\<exists>p'. read_pointer (sys_store s) org a e = Some p' \<and> ptr_version p \<le> ptr_version p'))"

lemma put_version_grows:
  assumes "transact_put q ts st = (r, st')" and "read_pointer st org a e = Some p"
  shows "\<exists>p'. read_pointer st' org a e = Some p' \<and> ptr_version p \<le> ptr_version p'"
proof (cases r)
  case (Inl err)
  with assms transact_put_Inl show ?thesis
    by blast
next
  case (Inr u)
  with assms(1) have put: "transact_put q ts st = (Inr u, st')"
    by simp
  then have "put_condition (sp_expectedVersion q)
      (read_pointer st (sp_orgId q) (sp_agentTargetId q) (sp_environment q))"
    by (simp add: transact_put_Inr)
  with assms(2) show ?thesis
    by (auto simp: read_after_put [OF put] put_condition_def nextVersion_def split: option.splits)
qed

lemma sys_inv_step:
  assumes "sys_inv s" and "sys_step s s'"
  shows "sys_inv s'"
  using assms(2)
proof (cases rule: sys_step.cases)
  case (sys_read c org a e)
  with assms(1) show ?thesis
    by (auto simp: sys_inv_def)
next
  case (sys_write c i seen q ts r st')
  have vm: "versioned_move (sys_store s) q"
    using assms(1) sys_write(2,3)
    by (cases seen) (fastforce simp: sys_inv_def versioned_move_def move_from_def)+
  have "store_inv st'"
  proof (cases r)
    case (Inl err)
    with sys_write(5) assms(1) transact_put_Inl show ?thesis
      by (fastforce simp: sys_inv_def)
  next
    case (Inr u)
    with sys_write(5) have "transact_put q ts (sys_store s) = (Inr u, st')"
      by simp
    from store_inv_put [OF _ vm sys_write(4) this] assms(1) show ?thesis
      by (simp add: sys_inv_def)
  qed
  moreover have "\<exists>p'. read_pointer st' org a e = Some p' \<and> ptr_version p \<le> ptr_version p'"
    if snap: "sys_snaps s c' = Some ((org, a, e), Some p)" for c' org a e p
  proof -
    obtain p1 where "read_pointer (sys_store s) org a e = Some p1" and "ptr_version p \<le> ptr_version p1"
      using snap assms(1) unfolding sys_inv_def by blast
    with put_version_grows [OF sys_write(5)] show ?thesis
      using le_trans by blast
  qed
  ultimately show ?thesis
    using sys_write(1) by (simp add: sys_inv_def)
qed

lemma sys_inv_reachable: "sys_step\<^sup>*\<^sup>* sys_init s \<Longrightarrow> sys_inv s"
  by (induction rule: rtranclp_induct)
    (simp_all add: sys_inv_step, simp add: sys_inv_def sys_init_def store_inv_empty)

lemma version_monotone:
  "sys_step\<^sup>*\<^sup>* s s' \<Longrightarrow> read_pointer (sys_store s) org a e = Some p \<Longrightarrow>
    \<exists>p'. read_pointer (sys_store s') org a e = Some p' \<and> ptr_version p \<le> ptr_version p'"
proof (induction rule: rtranclp_induct)
  case (step s1 s2)
  then obtain p1 where p1: "read_pointer (sys_store s1) org a e = Some p1" "ptr_version p \<le> ptr_version p1"
    by blast
  from step.hyps(2) show ?case
  proof (cases rule: sys_step.cases)
    case (sys_write c i seen q ts r st')
    with put_version_grows [OF sys_write(5) p1(1)] p1(2) show ?thesis
      using le_trans by fastforce
  qed (use p1 in auto)
qed auto

text \<open>C1. However promotions interleave, the history of a pointer has exactly one row for every version
  from 1 to the current one, records the current row as it stands, and is empty while there is no
  pointer; a row is in the index of active canaries exactly when it carries a canary.\<close>

theorem history_gap_free:
  assumes "sys_step\<^sup>*\<^sup>* sys_init s"
  shows "case read_pointer (sys_store s) org a e of
      None \<Rightarrow> history_of (sys_store s) org a e = {}
    | Some p \<Rightarrow> bij_betw ptr_version (history_of (sys_store s) org a e) {1..ptr_version p} \<and>
        p\<lparr>ptr_canaryActiveKey := None\<rparr> \<in> history_of (sys_store s) org a e \<and>
        (ptr_canaryActiveKey p = None) = (ptr_canary p = None)"
proof -
  have inv: "store_inv (sys_store s)"
    using sys_inv_reachable [OF assms] by (simp add: sys_inv_def)
  have "(ptr_canaryActiveKey p = None) = (ptr_canary p = None)"
    if "read_pointer (sys_store s) org a e = Some p" for p
    using store_invD(3) [OF inv, of "(org, sortKey a e)" p] that by (simp add: read_pointer_def)
  then show ?thesis
    using store_invD(5) [OF inv, of org a e]
    by (auto simp: history_consistent_def bij_betw_def split: option.splits)
qed

text \<open>C4. Of two clients that read the same version of a pointer, at most one moves it: once one has,
  the other's move is refused as a conditional-check failure and writes nothing, whatever
  happened in between.\<close>

theorem optimistic_lock_one_winner:
  assumes "sys_step\<^sup>*\<^sup>* sys_init s"
    and "sys_snaps s c1 = Some ((org, a, e), seen1)" and "sys_snaps s c2 = Some ((org, a, e), seen2)"
    and "map_option ptr_version seen1 = map_option ptr_version seen2"
    and "move_from (org, a, e) seen1 q1" and "transact_put q1 ts1 (sys_store s) = (Inr u, st1)"
    and "sys_step\<^sup>*\<^sup>* (s\<lparr>sys_store := st1\<rparr>) s2"
    and "move_from (org, a, e) seen2 q2"
  shows "\<exists>err. transact_put q2 ts2 (sys_store s2) = (Inl err, sys_store s2) \<and>
    isConditionalCheckFailed err"
proof -
  have "read_pointer st1 org a e = Some (pointer_item q1 ts1)"
    using assms(5) by (simp add: read_after_put [OF assms(6)] move_from_def)
  then obtain p where p: "read_pointer (sys_store s2) org a e = Some p" "nextVersion q1 \<le> ptr_version p"
    using version_monotone [OF assms(7), of org a e "pointer_item q1 ts1"] by auto
  have "sp_expectedVersion q1 = sp_expectedVersion q2"
    using assms(4,5,8) by (simp add: move_from_def)
  with p(2) have "\<not> put_condition (sp_expectedVersion q2) (Some p)"
    by (auto simp: put_condition_def nextVersion_def split: option.splits)
  with p(1) assms(8) have "\<not> put_condition (sp_expectedVersion q2)
      (read_pointer (sys_store s2) (sp_orgId q2) (sp_agentTargetId q2) (sp_environment q2))"
    by (auto simp: move_from_def)
  then show ?thesis
    by (auto simp: transact_put_def read_pointer_def Let_def isConditionalCheckFailed_def)
qed

section \<open>What ran on a date\<close>

lemma sorted_last_max: "sorted xs \<Longrightarrow> x \<in> set xs \<Longrightarrow> x \<le> last xs"
  for x :: "'a::linorder"
  by (induction xs) auto

lemma append_le_same_prefix [simp]: "(pre @ x \<le> pre @ y) = (x \<le> y)"
  for pre :: string
  by (induction pre) simp_all

lemma append_le_same_length:
  "length x = length y \<Longrightarrow> (x @ u \<le> y @ v) = (x < y \<or> x = y \<and> u \<le> v)"
  for x y :: string
  by (induction x y rule: list_induct2) auto

lemma append_less_same_length:
  "length x = length y \<Longrightarrow> x < y \<Longrightarrow> x @ u < y @ v"
  for x y :: string
  by (induction x y rule: list_induct2) auto

lemma append_less_same_prefix [simp]: "(pre @ x < pre @ y) = (x < y)"
  for pre :: string
  by (induction pre) simp_all

lemma between_prefix: "pre \<le> k \<Longrightarrow> k \<le> pre @ z \<Longrightarrow> prefix pre k"
  for pre :: string
proof (induction pre arbitrary: k)
  case (Cons c pre)
  then show ?case
    by (cases k) auto
qed simp

lemma show_nat_below_sentinel: "show_nat v \<le> high_sentinel"
proof (cases "show_nat v")
  case (Cons c cs)
  then have "(of_char c :: nat) < 58"
    using show_nat_digits [of c v] by simp
  then have "c < CHR 0xEF"
    by (simp add: less_char_def)
  then show ?thesis
    by (simp add: Cons high_sentinel_def)
qed simp

lemma historySortKey_alt: "historySortKey a e s v = a @ CHR ''#'' # env_str e @ CHR ''#'' # s @ CHR ''#'' # show_nat v"
  by (simp add: historySortKey_def historySortKeyPrefix_def)

lemma prefix_same_pair:
  assumes "CHR ''#'' \<notin> set a" and "CHR ''#'' \<notin> set b"
    and "prefix (historySortKeyPrefix a e) (historySortKey b f s v)"
  shows "a = b \<and> e = f"
proof -
  obtain z where "a @ CHR ''#'' # env_str e @ CHR ''#'' # z =
      b @ CHR ''#'' # env_str f @ CHR ''#'' # s @ CHR ''#'' # show_nat v"
    using assms(3) by (auto simp: prefix_def historySortKeyPrefix_def historySortKey_alt)
  from first_separator_inject [OF this assms(1,2)]
  have a: "a = b" and "env_str e @ CHR ''#'' # z = env_str f @ CHR ''#'' # s @ CHR ''#'' # show_nat v"
    by simp_all
  from first_separator_inject [OF this(2) env_str_no_hash env_str_no_hash] a show ?thesis
    by simp
qed

text \<open>Timestamps are ISO strings of one length, distinct for the moves of one pointer and increasing
  with the version; agent identifiers contain no separator.\<close>

definition dated_history :: "store \<Rightarrow> string \<Rightarrow> string \<Rightarrow> environment \<Rightarrow> nat \<Rightarrow> bool" where
  "dated_history st org a e n \<longleftrightarrow>
     CHR ''#'' \<notin> set a \<and>
     (\<forall>k h. tbl_get (st_history st) k = Some h \<longrightarrow> CHR ''#'' \<notin> set (ptr_agentTargetId h)) \<and>
     (\<forall>h \<in> history_of st org a e. length (ptr_promotedAt h) = n) \<and>
     (\<forall>h \<in> history_of st org a e. \<forall>h' \<in> history_of st org a e.
        ptr_version h < ptr_version h' \<longrightarrow> ptr_promotedAt h < ptr_promotedAt h')"

lemma history_in_range:
  assumes inv: "store_inv st" and dated: "dated_history st org a e (length until)"
    and h: "tbl_get (st_history st) k = Some h"
  shows "(fst k = org \<and> historySortKeyPrefix a e \<le> snd k \<and>
      snd k \<le> historySortKeyPrefix a e @ until @ ''#'' @ high_sentinel) \<longleftrightarrow>
    h \<in> history_of st org a e \<and> ptr_promotedAt h \<le> until"
proof -
  have k: "k = history_key h"
    using store_invD(4) [OF inv h] by simp
  have nohash: "CHR ''#'' \<notin> set a" "CHR ''#'' \<notin> set (ptr_agentTargetId h)"
    using dated h unfolding dated_history_def by blast+
  show ?thesis
  proof (cases "h \<in> history_of st org a e")
    case True
    then have "length (ptr_promotedAt h) = length until"
      using dated by (auto simp: dated_history_def)
    moreover have "historySortKeyPrefix a e \<le> historySortKeyPrefix a e @ z" for z
      using append_le_same_prefix [of "historySortKeyPrefix a e" "[]" z] by simp
    ultimately show ?thesis
      using True show_nat_below_sentinel [of "ptr_version h"]
      by (auto simp: k history_key_def history_of_def historySortKey_def append_le_same_length)
  next
    case False
    have "\<not> (fst k = org \<and> historySortKeyPrefix a e \<le> snd k \<and>
        snd k \<le> historySortKeyPrefix a e @ until @ ''#'' @ high_sentinel)"
    proof
      assume range: "fst k = org \<and> historySortKeyPrefix a e \<le> snd k \<and>
        snd k \<le> historySortKeyPrefix a e @ until @ ''#'' @ high_sentinel"
      then have "prefix (historySortKeyPrefix a e) (snd k)"
        using between_prefix by blast
      then have "a = ptr_agentTargetId h \<and> e = ptr_environment h"
        using prefix_same_pair [OF nohash] by (simp add: k history_key_def)
      with range h False show False
        by (auto simp: k history_key_def history_of_def)
    qed
    with False show ?thesis
      by simp
  qed
qed

lemma set_query_history:
  assumes "store_inv st" and "dated_history st org a e (length until)"
  shows "set (tbl_query (\<lambda>k. fst k = org \<and> historySortKeyPrefix a e \<le> snd k \<and>
        snd k \<le> historySortKeyPrefix a e @ until @ ''#'' @ high_sentinel) (st_history st)) =
    {(history_key h, h) |h. h \<in> history_of st org a e \<and> ptr_promotedAt h \<le> until}"
proof -
  have wf: "tbl_wf (st_history st)"
    using assms(1) by (rule store_invD(2))
  have "tbl_get (st_history st) (history_key h) = Some h" if "h \<in> history_of st org a e" for h
    using that store_invD(4) [OF assms(1)] by (force simp: history_of_def)
  then show ?thesis
    unfolding tbl.set_query [OF wf]
    using history_in_range [OF assms] store_invD(4) [OF assms(1)] by blast
qed

lemma history_key_less:
  assumes "dated_history st org a e n"
    and "h \<in> history_of st org a e" and "h' \<in> history_of st org a e" and "ptr_version h < ptr_version h'"
  shows "history_key h < history_key h'"
proof -
  have "length (ptr_promotedAt h) = length (ptr_promotedAt h')" and "ptr_promotedAt h < ptr_promotedAt h'"
    using assms unfolding dated_history_def by auto
  from append_less_same_length [OF this] show ?thesis
    using assms(2,3) by (simp add: history_key_def history_of_def historySortKey_def less_prod_simp)
qed

lemma release_running_at_correct_facts:
  assumes "store_inv st" and "dated_history st org a e (length until)"
  shows "(release_running_at st org a e until = None) =
      (\<forall>h \<in> history_of st org a e. \<not> ptr_promotedAt h \<le> until)"
    and "release_running_at st org a e until = Some h \<Longrightarrow>
      h \<in> history_of st org a e \<and> ptr_promotedAt h \<le> until \<and>
      (\<forall>h' \<in> history_of st org a e. ptr_promotedAt h' \<le> until \<longrightarrow> ptr_version h' \<le> ptr_version h)"
proof -
  define rows where "rows = tbl_query (\<lambda>k. fst k = org \<and> historySortKeyPrefix a e \<le> snd k \<and>
        snd k \<le> historySortKeyPrefix a e @ until @ ''#'' @ high_sentinel) (st_history st)"
  have running: "release_running_at st org a e until = (if rows = [] then None else Some (snd (last rows)))"
    by (simp add: release_running_at_def query_history_def Let_def rows_def last_conv_nth)
  have rows: "set rows = {(history_key h, h) |h. h \<in> history_of st org a e \<and> ptr_promotedAt h \<le> until}"
    unfolding rows_def using assms by (rule set_query_history)
  have "set rows = {} \<longleftrightarrow> (\<forall>h \<in> history_of st org a e. \<not> ptr_promotedAt h \<le> until)"
    unfolding rows by blast
  then show "(release_running_at st org a e until = None) =
      (\<forall>h \<in> history_of st org a e. \<not> ptr_promotedAt h \<le> until)"
    by (simp add: running)
  assume "release_running_at st org a e until = Some h"
  then have ne: "rows \<noteq> []" and h: "h = snd (last rows)"
    by (auto simp: running split: if_splits)
  then have last: "last rows = (history_key h, h)" and mem: "h \<in> history_of st org a e"
    and le: "ptr_promotedAt h \<le> until"
    using last_in_set [OF ne] rows by auto
  have "ptr_version h' \<le> ptr_version h"
    if h': "h' \<in> history_of st org a e" "ptr_promotedAt h' \<le> until" for h'
  proof (rule ccontr)
    assume "\<not> ptr_version h' \<le> ptr_version h"
    then have less: "history_key h < history_key h'"
      using history_key_less [OF assms(2) mem h'(1)] by simp
    have "(history_key h', h') \<in> set rows"
      using h' rows by blast
    moreover have "sorted (map fst rows)"
      unfolding rows_def by (rule tbl.sorted_query [OF store_invD(2) [OF assms(1)]])
    ultimately have "history_key h' \<le> fst (last rows)"
      using ne sorted_last_max [of "map fst rows" "history_key h'"] by (force simp: last_map)
    with less last show False
      by simp
  qed
  with mem le show "h \<in> history_of st org a e \<and> ptr_promotedAt h \<le> until \<and>
      (\<forall>h' \<in> history_of st org a e. ptr_promotedAt h' \<le> until \<longrightarrow> ptr_version h' \<le> ptr_version h)"
    by blast
qed


text \<open>The distinctness of the timestamps is needed: the version is printed without padding, so of two
  moves in one millisecond version 10 sorts before version 9.\<close>

lemma equal_millisecond_versions_misordered:
  "historySortKey a e ts 10 < historySortKey a e ts 9"
proof -
  have "show_nat 10 = ''10''" and "show_nat 9 = ''9''"
    by code_simp+
  then show ?thesis
    by (simp add: historySortKey_def less_char_def)
qed

section \<open>The rollback floor\<close>

definition HUMAN_STABLE_TRANSITIONS :: "transition_type list" where
  "HUMAN_STABLE_TRANSITIONS = [T_PROMOTE, T_CANARY_PROMOTE]"

definition isHumanStableTransition :: "transition_type option \<Rightarrow> bool" where
  "isHumanStableTransition t =
     ((case t of None \<Rightarrow> T_PROMOTE | Some x \<Rightarrow> x) \<in> set HUMAN_STABLE_TRANSITIONS)"

text \<open>The scan from the newest row down.\<close>

fun scan_human :: "pointer list \<Rightarrow> string option" where
  "scan_human [] = None"
| "scan_human (entry # older) =
     (if isHumanStableTransition (ptr_transitionType entry) then Some (ptr_releaseId entry)
      else scan_human older)"

definition deriveLastHumanStableReleaseId :: "pointer list \<Rightarrow> string option" where
  "deriveLastHumanStableReleaseId history = scan_human (rev history)"

datatype floor_refusal = BELOW_HUMAN_FLOOR | NO_HUMAN_BASELINE

datatype floor_action = FA_ABORT_CANARY | FA_ROLLBACK_STABLE | FA_BOTH

definition decideRollbackAction ::
  "floor_action \<Rightarrow> string option \<Rightarrow> string option \<Rightarrow> floor_refusal option" where
  "decideRollbackAction action proposedLanding lastHumanStable =
     (if action = FA_ABORT_CANARY then None
      else if lastHumanStable = None then Some NO_HUMAN_BASELINE
      else if proposedLanding \<noteq> lastHumanStable then Some BELOW_HUMAN_FLOOR
      else None)"

definition RELEASE_ROLLBACK_SYSTEM_ACTOR :: string where
  "RELEASE_ROLLBACK_SYSTEM_ACTOR = ''system:release-rollback-evaluator''"

text \<open>The one move the automated actor may make; principal and transition are minted here.\<close>

definition auto_abort_params :: "string \<Rightarrow> string \<Rightarrow> environment \<Rightarrow> string \<Rightarrow> nat \<Rightarrow> set_params" where
  "auto_abort_params orgId agentTargetId environment releaseId expectedVersion =
     \<lparr>sp_orgId = orgId, sp_agentTargetId = agentTargetId, sp_environment = environment,
      sp_releaseId = releaseId, sp_expectedVersion = Some expectedVersion,
      sp_currentReleaseId = Some releaseId, sp_promotedBy = RELEASE_ROLLBACK_SYSTEM_ACTOR,
      sp_canary = None, sp_transitionType = Some T_AUTO_ABORT_CANARY\<rparr>"

lemma scan_human_filter:
  "scan_human hs = map_option ptr_releaseId
     (case filter (\<lambda>h. isHumanStableTransition (ptr_transitionType h)) hs of [] \<Rightarrow> None | h # _ \<Rightarrow> Some h)"
  by (induction hs) auto

lemma derive_filter_cong:
  "filter (\<lambda>h. isHumanStableTransition (ptr_transitionType h)) hs =
   filter (\<lambda>h. isHumanStableTransition (ptr_transitionType h)) hs' \<Longrightarrow>
   deriveLastHumanStableReleaseId hs = deriveLastHumanStableReleaseId hs'"
  by (simp add: deriveLastHumanStableReleaseId_def scan_human_filter flip: rev_filter)

text \<open>A row that is not a human cutover does not change the human rows of any query.\<close>

lemma query_filter_put:
  assumes "tbl_wf t" and "\<not> Q v" and "\<And>x. tbl_get t k = Some x \<Longrightarrow> \<not> Q x"
  shows "filter (\<lambda>kv. Q (snd kv)) (tbl_query P (tbl_put k v t)) = filter (\<lambda>kv. Q (snd kv)) (tbl_query P t)"
proof (rule map_sorted_distinct_set_unique [where f = fst])
  have sd: "sorted (map fst (filter (\<lambda>kv. Q (snd kv)) (tbl_query P t')))"
    "distinct (map fst (filter (\<lambda>kv. Q (snd kv)) (tbl_query P t')))" if "tbl_wf t'" for t'
    using tbl.sorted_query [OF that, of P] tbl.distinct_query [OF that, of P]
    by (simp_all add: sorted_filter distinct_map_filter)
  have wf': "tbl_wf (tbl_put k v t)"
    using assms(1) by simp
  show set_eq: "set (filter (\<lambda>kv. Q (snd kv)) (tbl_query P (tbl_put k v t))) =
      set (filter (\<lambda>kv. Q (snd kv)) (tbl_query P t))"
    using assms by (auto simp: tbl.set_query [OF assms(1)] tbl.set_query [OF wf'] tbl.get_put
        split: if_splits)
  show "inj_on fst (set (filter (\<lambda>kv. Q (snd kv)) (tbl_query P (tbl_put k v t))) \<union>
      set (filter (\<lambda>kv. Q (snd kv)) (tbl_query P t)))"
    using sd(2) [OF assms(1)] unfolding set_eq by (simp add: distinct_map)
  show "sorted (map fst (filter (\<lambda>kv. Q (snd kv)) (tbl_query P (tbl_put k v t))))"
    and "distinct (map fst (filter (\<lambda>kv. Q (snd kv)) (tbl_query P (tbl_put k v t))))"
    using sd [OF wf'] by blast+
  show "sorted (map fst (filter (\<lambda>kv. Q (snd kv)) (tbl_query P t)))"
    and "distinct (map fst (filter (\<lambda>kv. Q (snd kv)) (tbl_query P t)))"
    using sd [OF assms(1)] by blast+
qed

lemma auto_abort_keeps_floor_facts:
  assumes "store_inv st" and "read_pointer st org a e = Some p"
    and "transact_put (auto_abort_params org a e (ptr_releaseId p) (ptr_version p)) ts st = (Inr u, st')"
    and "CHR ''#'' \<notin> set ts"
  shows "\<exists>p'. read_pointer st' org a e = Some p' \<and> ptr_releaseId p' = ptr_releaseId p \<and>
      ptr_version p' = ptr_version p + 1 \<and> ptr_canary p' = None \<and> ptr_canaryActiveKey p' = None \<and>
      ptr_transitionType p' = Some T_AUTO_ABORT_CANARY \<and>
      ptr_promotedBy p' = RELEASE_ROLLBACK_SYSTEM_ACTOR"
    and "deriveLastHumanStableReleaseId (query_history st' org2 a2 e2 until) =
      deriveLastHumanStableReleaseId (query_history st org2 a2 e2 until)"
proof -
  let ?q = "auto_abort_params org a e (ptr_releaseId p) (ptr_version p)"
  let ?hk = "(org, historySortKey a e ts (nextVersion ?q))"
  show "\<exists>p'. read_pointer st' org a e = Some p' \<and> ptr_releaseId p' = ptr_releaseId p \<and>
      ptr_version p' = ptr_version p + 1 \<and> ptr_canary p' = None \<and> ptr_canaryActiveKey p' = None \<and>
      ptr_transitionType p' = Some T_AUTO_ABORT_CANARY \<and>
      ptr_promotedBy p' = RELEASE_ROLLBACK_SYSTEM_ACTOR"
    by (simp add: read_after_put [OF assms(3)] auto_abort_params_def pointer_item_def
        moved_pointer_def nextVersion_def)
  have vm: "versioned_move st ?q"
    using assms(2) by (simp add: versioned_move_def auto_abort_params_def)
  have put: "st_history st' = tbl_put ?hk (moved_pointer ?q ts) (st_history st)"
    using assms(3) by (simp add: transact_put_Inr auto_abort_params_def)
  have auto: "\<not> isHumanStableTransition (ptr_transitionType (moved_pointer ?q ts))"
    by (simp add: moved_pointer_def auto_abort_params_def isHumanStableTransition_def
        HUMAN_STABLE_TRANSITIONS_def)
  have "tbl_get (st_history st) ?hk = None"
    using history_key_fresh [OF assms(1) vm assms(4,3)] by (simp add: auto_abort_params_def)
  then have "filter (\<lambda>kv. isHumanStableTransition (ptr_transitionType (snd kv))) (tbl_query P (st_history st')) =
      filter (\<lambda>kv. isHumanStableTransition (ptr_transitionType (snd kv))) (tbl_query P (st_history st))" for P
    unfolding put using auto store_invD(2) [OF assms(1)]
    by (intro query_filter_put [where Q = "\<lambda>h. isHumanStableTransition (ptr_transitionType h)"]) auto
  then show "deriveLastHumanStableReleaseId (query_history st' org2 a2 e2 until) =
      deriveLastHumanStableReleaseId (query_history st org2 a2 e2 until)"
    by (intro derive_filter_cong) (simp add: query_history_def Let_def filter_map comp_def)
qed

text \<open>The automated abort of a canary leaves the stable release where it is, removes the canary and
  its index entry, is recorded as a system transition, and does not move the floor: the last
  human-promoted release derived from the history is the same before and after.\<close>

theorem auto_abort_keeps_floor:
  assumes "store_inv st" and "read_pointer st org a e = Some p"
    and "transact_put (auto_abort_params org a e (ptr_releaseId p) (ptr_version p)) ts st = (Inr u, st')"
    and "CHR ''#'' \<notin> set ts"
  shows "(\<exists>p'. read_pointer st' org a e = Some p' \<and> ptr_releaseId p' = ptr_releaseId p \<and>
      ptr_version p' = ptr_version p + 1 \<and> ptr_canary p' = None \<and> ptr_canaryActiveKey p' = None \<and>
      ptr_transitionType p' = Some T_AUTO_ABORT_CANARY \<and>
      ptr_promotedBy p' = RELEASE_ROLLBACK_SYSTEM_ACTOR) \<and>
    deriveLastHumanStableReleaseId (query_history st' org a e until) =
      deriveLastHumanStableReleaseId (query_history st org a e until)"
  using auto_abort_keeps_floor_facts [OF assms] by blast

text \<open>A flip of the stable release by the automated actor is admitted only onto the last release a
  human promoted, and never when no human promoted one; aborting a canary is always admitted.\<close>

theorem decideRollbackAction_floor:
  "decideRollbackAction action landing lastHuman = None \<longleftrightarrow>
     action = FA_ABORT_CANARY \<or> (\<exists>r. lastHuman = Some r \<and> landing = Some r)"
  by (cases lastHuman) (auto simp: decideRollbackAction_def)

section \<open>A promotion and its race\<close>

definition first_move :: "string \<Rightarrow> set_params" where
  "first_move rel =
     \<lparr>sp_orgId = ''org'', sp_agentTargetId = ''agent'', sp_environment = ENV_DEV, sp_releaseId = rel,
      sp_expectedVersion = None, sp_currentReleaseId = None, sp_promotedBy = ''alice'',
      sp_canary = None, sp_transitionType = None\<rparr>"

definition two_readers :: sys where
  "two_readers = sys_init\<lparr>sys_snaps :=
     (\<lambda>c. if c < 2 then Some ((''org'', ''agent'', ENV_DEV), None) else None)\<rparr>"

definition one_row :: store where
  "one_row = snd (transact_put (first_move ''r1'') ''2026-01-01'' (sys_store sys_init))"

lemma put_first_move:
  "transact_put (first_move ''r1'') ''2026-01-01'' (sys_store sys_init) = (Inr (), one_row)"
  by (simp add: one_row_def transact_put_def sys_init_def put_condition_def Let_def)

lemma two_readers_reachable: "sys_step\<^sup>*\<^sup>* sys_init two_readers"
proof -
  let ?s1 = "sys_init\<lparr>sys_snaps := (sys_snaps sys_init)(0 := Some ((''org'', ''agent'', ENV_DEV), None))\<rparr>"
  let ?s2 = "?s1\<lparr>sys_snaps := (sys_snaps ?s1)(1 := Some ((''org'', ''agent'', ENV_DEV), None))\<rparr>"
  have none: "read_pointer (sys_store sys_init) ''org'' ''agent'' ENV_DEV = None"
    by (simp add: read_pointer_def sys_init_def)
  have "sys_step sys_init ?s1"
    using sys_read [of sys_init 0 "''org''" "''agent''" ENV_DEV] none by simp
  moreover have "sys_step ?s1 ?s2"
    using sys_read [of ?s1 1 "''org''" "''agent''" ENV_DEV] none by simp
  moreover have "?s2 = two_readers"
    by (auto simp: two_readers_def sys_init_def fun_eq_iff)
  ultimately show ?thesis
    by (metis (no_types) rtranclp.rtrancl_refl rtranclp.rtrancl_into_rtrancl)
qed

lemma one_row_reachable: "sys_step\<^sup>*\<^sup>* sys_init (two_readers\<lparr>sys_store := one_row\<rparr>)"
proof -
  have "sys_step two_readers (two_readers\<lparr>sys_store := one_row\<rparr>)"
    by (rule sys_write [of _ 0 "(''org'', ''agent'', ENV_DEV)" None "first_move ''r1''" "''2026-01-01''" "Inr ()"])
      (use put_first_move in \<open>simp_all add: two_readers_def move_from_def first_move_def sys_init_def\<close>)
  with two_readers_reachable show ?thesis
    by (rule rtranclp.rtrancl_into_rtrancl)
qed

lemma read_one_row: "read_pointer one_row ''org'' ''agent'' ENV_DEV = Some (pointer_item (first_move ''r1'') ''2026-01-01'')"
  using read_after_put [OF put_first_move] by (simp add: first_move_def)

theorem history_gap_free_witness:
  "bij_betw ptr_version (history_of one_row ''org'' ''agent'' ENV_DEV) {1..1}"
  using history_gap_free [OF one_row_reachable, of "''org''" "''agent''" ENV_DEV] read_one_row
  by (simp add: nextVersion_def first_move_def)

theorem optimistic_lock_one_winner_witness:
  "\<exists>err. transact_put (first_move ''r2'') ''2026-01-02'' one_row = (Inl err, one_row) \<and>
     isConditionalCheckFailed err"
proof -
  have snap: "sys_snaps two_readers 0 = Some ((''org'', ''agent'', ENV_DEV), None)"
    "sys_snaps two_readers 1 = Some ((''org'', ''agent'', ENV_DEV), None)"
    by (simp_all add: two_readers_def)
  have mv: "move_from (''org'', ''agent'', ENV_DEV) None (first_move r)" for r
    by (simp add: move_from_def first_move_def)
  have put: "transact_put (first_move ''r1'') ''2026-01-01'' (sys_store two_readers) = (Inr (), one_row)"
    using put_first_move by (simp add: two_readers_def)
  from optimistic_lock_one_winner [OF two_readers_reachable snap refl mv put rtranclp.rtrancl_refl mv]
  show ?thesis
    by simp
qed

lemma one_row_inv: "store_inv one_row"
  using sys_inv_reachable [OF one_row_reachable] by (simp add: sys_inv_def)

lemma one_row_history: "history_of one_row ''org'' ''agent'' ENV_DEV = {moved_pointer (first_move ''r1'') ''2026-01-01''}"
  by (auto simp: history_of_def one_row_def transact_put_def sys_init_def put_condition_def Let_def
      tbl.get_put first_move_def moved_pointer_def split: if_splits)


theorem auto_abort_keeps_floor_witness:
  "\<exists>st'. snd (transact_put (auto_abort_params ''org'' ''agent'' ENV_DEV ''r1'' 1) ''2026-03-01'' one_row) = st' \<and>
     deriveLastHumanStableReleaseId (query_history st' ''org'' ''agent'' ENV_DEV None) =
       deriveLastHumanStableReleaseId (query_history one_row ''org'' ''agent'' ENV_DEV None)"
proof -
  let ?p = "pointer_item (first_move ''r1'') ''2026-01-01''"
  have p: "ptr_releaseId ?p = ''r1''" "ptr_version ?p = 1"
    by (simp_all add: first_move_def nextVersion_def)
  let ?q = "auto_abort_params ''org'' ''agent'' ENV_DEV ''r1'' 1"
  have "put_condition (sp_expectedVersion ?q)
      (read_pointer one_row (sp_orgId ?q) (sp_agentTargetId ?q) (sp_environment ?q))"
    using read_one_row p by (simp add: auto_abort_params_def put_condition_def)
  then have "transact_put (auto_abort_params ''org'' ''agent'' ENV_DEV (ptr_releaseId ?p) (ptr_version ?p))
      ''2026-03-01'' one_row = (Inr (), snd (transact_put ?q ''2026-03-01'' one_row))"
    unfolding p by (simp add: transact_put_def read_pointer_def Let_def)
  from auto_abort_keeps_floor [OF one_row_inv read_one_row this, THEN conjunct2] show ?thesis
    by simp
qed

end
