(* ===== verification/LayeredConfig.thy ===== *)
theory LayeredConfig
  imports ReleaseTypes
begin

text \<open>
  The field-level merge of layered configuration that
  backend/src/lambda/utils/promotion-policy-store.ts performs twice, for promotion and for
  rollback policies: for each field, the highest-precedence source that supplies a value which
  passes the field's validator wins; an invalid value falls through. The merge is one
  definition, its contract the locale \<open>layered_config\<close>, which both policies interpret.
\<close>

section \<open>Validators\<close>

fun isFiniteNumber :: "jsval \<Rightarrow> bool" where
  "isFiniteNumber (JNum n) = is_finite n"
| "isFiniteNumber _ = False"

text \<open>\<open>v >= 0 \<and> v <= b\<close> on a value already known to be a finite number.\<close>

fun num_ge :: "jsval \<Rightarrow> rat \<Rightarrow> bool" where
  "num_ge (JNum n) b = js_le (Fin b) n"
| "num_ge _ b = False"

fun num_le :: "jsval \<Rightarrow> rat \<Rightarrow> bool" where
  "num_le (JNum n) b = js_le n (Fin b)"
| "num_le _ b = False"

definition isSaneRate :: "jsval \<Rightarrow> bool" where
  "isSaneRate v \<longleftrightarrow> isFiniteNumber v \<and> num_ge v 0 \<and> num_le v 1"

definition isSaneNonNegative :: "jsval \<Rightarrow> bool" where
  "isSaneNonNegative v \<longleftrightarrow> isFiniteNumber v \<and> num_ge v 0"

definition isSaneBasisPoints :: "jsval \<Rightarrow> bool" where
  "isSaneBasisPoints v \<longleftrightarrow> isFiniteNumber v \<and> num_ge v 0 \<and> num_le v 10000"

fun isSaneStringArray :: "jsval \<Rightarrow> bool" where
  "isSaneStringArray (JArr vs) = list_all is_str vs"
| "isSaneStringArray _ = False"

definition isSaneBoolean :: "jsval \<Rightarrow> bool" where
  "isSaneBoolean v \<longleftrightarrow> is_bool v"

definition isSaneNullableRate :: "jsval \<Rightarrow> bool" where
  "isSaneNullableRate v \<longleftrightarrow> v = JNull \<or> isSaneRate v"

definition isSaneNullableNonNegative :: "jsval \<Rightarrow> bool" where
  "isSaneNullableNonNegative v \<longleftrightarrow> v = JNull \<or> isSaneNonNegative v"

definition isRollbackAction :: "jsval \<Rightarrow> bool" where
  "isRollbackAction v \<longleftrightarrow>
     v = JStr ''ABORT_CANARY'' \<or> v = JStr ''ROLLBACK_STABLE'' \<or> v = JStr ''BOTH''"

fun isPlainObject :: "jsval \<Rightarrow> bool" where
  "isPlainObject (JObj _) = True"
| "isPlainObject _ = False"

lemma isFiniteNumber_iff: "isFiniteNumber v \<longleftrightarrow> (\<exists>q. v = JNum (Fin q))"
  by (cases v) (auto simp: is_finite_iff)

lemma isSaneRate_iff: "isSaneRate v \<longleftrightarrow> (\<exists>q. v = JNum (Fin q) \<and> 0 \<le> q \<and> q \<le> 1)"
  by (auto simp: isSaneRate_def isFiniteNumber_iff)

lemma isSaneNonNegative_iff: "isSaneNonNegative v \<longleftrightarrow> (\<exists>q. v = JNum (Fin q) \<and> 0 \<le> q)"
  by (auto simp: isSaneNonNegative_def isFiniteNumber_iff)

lemma isSaneBasisPoints_iff: "isSaneBasisPoints v \<longleftrightarrow> (\<exists>q. v = JNum (Fin q) \<and> 0 \<le> q \<and> q \<le> 10000)"
  by (auto simp: isSaneBasisPoints_def isFiniteNumber_iff)

lemma isSaneBoolean_iff: "isSaneBoolean v \<longleftrightarrow> (\<exists>b. v = JBool b)"
  by (cases v) (auto simp: isSaneBoolean_def)

lemma isSaneStringArray_iff: "isSaneStringArray v \<longleftrightarrow> (\<exists>ss. v = JArr (map JStr ss))"
proof -
  have "list_all is_str vs \<longleftrightarrow> (\<exists>ss. vs = map JStr ss)" for vs
  proof (induction vs)
    case (Cons v vs)
    then show ?case
      by (cases v) (auto simp: Cons_eq_map_conv)
  qed simp
  then show ?thesis
    by (cases v) auto
qed

lemma sane_values [simp]:
  "isSaneRate (JNum (Fin q)) \<longleftrightarrow> 0 \<le> q \<and> q \<le> 1"
  "isSaneNonNegative (JNum (Fin q)) \<longleftrightarrow> 0 \<le> q"
  "isSaneBasisPoints (JNum (Fin q)) \<longleftrightarrow> 0 \<le> q \<and> q \<le> 10000"
  "isSaneBoolean (JBool b)" "isSaneStringArray (JArr (map JStr ss))"
  "isSaneNullableRate JNull" "isSaneNullableNonNegative JNull"
  by (auto simp: isSaneRate_def isSaneNonNegative_def isSaneBasisPoints_def isSaneBoolean_def
      isSaneNullableRate_def isSaneNullableNonNegative_def isSaneStringArray_iff)

lemma insane_JUndef [simp]:
  "\<not> isSaneRate JUndef" "\<not> isSaneNonNegative JUndef" "\<not> isSaneBasisPoints JUndef"
  "\<not> isSaneBoolean JUndef" "\<not> isSaneNullableRate JUndef" "\<not> isSaneNullableNonNegative JUndef"
  "\<not> isRollbackAction JUndef"
  by (auto simp: isSaneRate_def isSaneNonNegative_def isSaneBasisPoints_def isSaneBoolean_def
      isSaneNullableRate_def isSaneNullableNonNegative_def isRollbackAction_def)

lemmas sane_iffs = isSaneRate_iff isSaneNonNegative_iff isSaneBasisPoints_iff isSaneBoolean_iff
  isSaneStringArray_iff isSaneNullableRate_def isSaneNullableNonNegative_def isRollbackAction_def

section \<open>The merge\<close>

text \<open>One source against one field; an absent source is \<open>None\<close>.\<close>

definition merge_source ::
  "('f \<Rightarrow> string) \<Rightarrow> ('f \<Rightarrow> jsval \<Rightarrow> bool) \<Rightarrow> ('f \<Rightarrow> jsval \<Rightarrow> 'p \<Rightarrow> 'p) \<Rightarrow> 'f \<Rightarrow> 'p \<Rightarrow> jsobj option \<Rightarrow> 'p" where
  "merge_source name valid upd f result source = (case source of
       None \<Rightarrow> result
     | Some ob \<Rightarrow>
        (let candidate = js_prop ob (name f)
         in if candidate = JUndef then result
            else if valid f candidate then upd f candidate result else result))"

definition merge_layers ::
  "'f list \<Rightarrow> ('f \<Rightarrow> string) \<Rightarrow> ('f \<Rightarrow> jsval \<Rightarrow> bool) \<Rightarrow> ('f \<Rightarrow> jsval \<Rightarrow> 'p \<Rightarrow> 'p) \<Rightarrow> 'p \<Rightarrow>
   jsobj option list \<Rightarrow> 'p" where
  "merge_layers flds name valid upd dflt sources =
     foldl (\<lambda>result f. foldl (merge_source name valid upd f) result sources) dflt flds"

text \<open>What the merge should give for one field: the last valid candidate, or the default.\<close>

definition candidate_of :: "string \<Rightarrow> jsobj option \<Rightarrow> jsval" where
  "candidate_of k source = (case source of None \<Rightarrow> JUndef | Some ob \<Rightarrow> js_prop ob k)"

definition last_valid :: "('v \<Rightarrow> bool) \<Rightarrow> 'v \<Rightarrow> 'v list \<Rightarrow> 'v" where
  "last_valid P dflt vs = (if filter P vs = [] then dflt else last (filter P vs))"

lemma last_valid_snoc [simp]: "last_valid P dflt (vs @ [v]) = (if P v then v else last_valid P dflt vs)"
  by (simp add: last_valid_def)

lemma last_valid_Nil [simp]: "last_valid P dflt [] = dflt"
  by (simp add: last_valid_def)

lemma last_valid_P: "P dflt \<Longrightarrow> P (last_valid P dflt vs)"
  by (induction vs rule: rev_induct) auto

locale layered_config =
  fixes flds :: "'f list"
    and name :: "'f \<Rightarrow> string"
    and valid :: "'f \<Rightarrow> jsval \<Rightarrow> bool"
    and upd :: "'f \<Rightarrow> jsval \<Rightarrow> 'p \<Rightarrow> 'p"
    and get :: "'p \<Rightarrow> 'f \<Rightarrow> jsval"
    and dflt :: 'p
  assumes all_fields: "set flds = UNIV" "distinct flds"
    and get_upd: "valid f v \<Longrightarrow> get (upd f v p) g = (if g = f then v else get p g)"
    and default_valid: "valid f (get dflt f)"
    and undef_invalid: "\<not> valid f JUndef"
begin

lemma merge_source_get:
  "get (merge_source name valid upd f p src) g =
     (if g = f \<and> valid f (candidate_of (name f) src) then candidate_of (name f) src else get p g)"
  using undef_invalid [of f]
  by (auto simp: merge_source_def candidate_of_def Let_def get_upd split: option.split)

lemma merge_sources_get:
  "get (foldl (merge_source name valid upd f) p sources) g =
     (if g = f then last_valid (valid f) (get p f) (map (candidate_of (name f)) sources) else get p g)"
  by (induction sources rule: rev_induct) (auto simp: merge_source_get split: if_splits)

lemma merge_fields_get:
  assumes "distinct fs"
  shows "get (foldl (\<lambda>r f. foldl (merge_source name valid upd f) r sources) p fs) g =
     (if g \<in> set fs then last_valid (valid g) (get p g) (map (candidate_of (name g)) sources) else get p g)"
  using assms
proof (induction fs rule: rev_induct)
  case (snoc f fs)
  then show ?case
    by (auto simp: merge_sources_get)
qed simp

lemma merge_get:
  "get (merge_layers flds name valid upd dflt sources) f =
     last_valid (valid f) (get dflt f) (map (candidate_of (name f)) sources)"
  unfolding merge_layers_def by (simp add: merge_fields_get all_fields)

lemma merge_valid: "valid f (get (merge_layers flds name valid upd dflt sources) f)"
  unfolding merge_get by (rule last_valid_P) (rule default_valid)

lemma merge_top:
  assumes "valid f (candidate_of (name f) src)"
  shows "get (merge_layers flds name valid upd dflt (sources @ [src])) f = candidate_of (name f) src"
  using assms by (simp add: merge_get)

lemma merge_fall_through:
  assumes "\<not> valid f (candidate_of (name f) src)"
  shows "get (merge_layers flds name valid upd dflt (sources @ [src])) f =
    get (merge_layers flds name valid upd dflt sources) f"
  using assms by (simp add: merge_get)

end

section \<open>Shapes of containers\<close>

text \<open>A present field whose primitive type is wrong.\<close>

definition has_wrong_type ::
  "'f list \<Rightarrow> ('f \<Rightarrow> string) \<Rightarrow> ('f \<Rightarrow> jsval \<Rightarrow> bool) \<Rightarrow> jsobj \<Rightarrow> bool" where
  "has_wrong_type flds name type_guard container =
     list_ex (\<lambda>f. js_prop container (name f) \<noteq> JUndef \<and> \<not> type_guard f (js_prop container (name f))) flds"

text \<open>A container of overrides keyed by agent or environment.\<close>

definition overrides_readable :: "(jsobj \<Rightarrow> bool) \<Rightarrow> jsval \<Rightarrow> bool" where
  "overrides_readable wrong v = (case v of
       JUndef \<Rightarrow> True
     | JObj entries \<Rightarrow>
         list_all (\<lambda>kv. case snd kv of JObj ob \<Rightarrow> \<not> wrong ob | _ \<Rightarrow> False) entries
     | _ \<Rightarrow> False)"

definition container_readable :: "(jsobj \<Rightarrow> bool) \<Rightarrow> jsval \<Rightarrow> bool" where
  "container_readable wrong v = (case v of
       JUndef \<Rightarrow> True | JObj ob \<Rightarrow> \<not> wrong ob | _ \<Rightarrow> False)"

text \<open>\<open>container?.[key]\<close> as a source of the merge, on a readable container.\<close>

definition override_at :: "jsval \<Rightarrow> string \<Rightarrow> jsobj option" where
  "override_at v k = (case v of
       JObj entries \<Rightarrow> (case js_prop entries k of JObj ob \<Rightarrow> Some ob | _ \<Rightarrow> None)
     | _ \<Rightarrow> None)"

definition as_source :: "jsval \<Rightarrow> jsobj option" where
  "as_source v = (case v of JObj ob \<Rightarrow> Some ob | _ \<Rightarrow> None)"

end
