(* ===== verification/PolicyStore.thy ===== *)
theory PolicyStore
  imports LayeredConfig PromotionLadder
begin

text \<open>
  Per-organisation policy configuration (backend/src/lambda/utils/promotion-policy-store.ts) and
  the rollback policy type (backend/src/lambda/utils/rollback-policy.ts). Both policies are
  resolved from one untrusted row; the result \<open>None\<close> is \<open>UNREADABLE\<close>. The two
  policies interpret the merge contract \<open>layered_config\<close>.
\<close>

section \<open>The promotion policy as a record of fields\<close>

definition POLICY_FIELDS :: "policy_field list" where
  "POLICY_FIELDS =
     [F_taskSuccessMin, F_policyComplianceMin, F_latencyP95TargetMs, F_avgCostBudgetUsd,
      F_minSampleCount, F_requiredGateClasses, F_maxEvidenceAgeDays,
      F_allowNoBaselineOnAbsoluteFloors, F_canaryMaxBasisPoints]"

fun policy_field_name :: "policy_field \<Rightarrow> string" where
  "policy_field_name F_taskSuccessMin = ''taskSuccessMin''"
| "policy_field_name F_policyComplianceMin = ''policyComplianceMin''"
| "policy_field_name F_latencyP95TargetMs = ''latencyP95TargetMs''"
| "policy_field_name F_avgCostBudgetUsd = ''avgCostBudgetUsd''"
| "policy_field_name F_minSampleCount = ''minSampleCount''"
| "policy_field_name F_requiredGateClasses = ''requiredGateClasses''"
| "policy_field_name F_maxEvidenceAgeDays = ''maxEvidenceAgeDays''"
| "policy_field_name F_allowNoBaselineOnAbsoluteFloors = ''allowNoBaselineOnAbsoluteFloors''"
| "policy_field_name F_canaryMaxBasisPoints = ''canaryMaxBasisPoints''"

fun FIELD_VALIDATORS :: "policy_field \<Rightarrow> jsval \<Rightarrow> bool" where
  "FIELD_VALIDATORS F_taskSuccessMin v = isSaneRate v"
| "FIELD_VALIDATORS F_policyComplianceMin v = isSaneRate v"
| "FIELD_VALIDATORS F_latencyP95TargetMs v = isSaneNonNegative v"
| "FIELD_VALIDATORS F_avgCostBudgetUsd v = isSaneNonNegative v"
| "FIELD_VALIDATORS F_minSampleCount v = isSaneNonNegative v"
| "FIELD_VALIDATORS F_requiredGateClasses v = isSaneStringArray v"
| "FIELD_VALIDATORS F_maxEvidenceAgeDays v = isSaneNonNegative v"
| "FIELD_VALIDATORS F_allowNoBaselineOnAbsoluteFloors v = isSaneBoolean v"
| "FIELD_VALIDATORS F_canaryMaxBasisPoints v = isSaneBasisPoints v"

fun FIELD_TYPE_GUARDS :: "policy_field \<Rightarrow> jsval \<Rightarrow> bool" where
  "FIELD_TYPE_GUARDS F_requiredGateClasses v = isSaneStringArray v"
| "FIELD_TYPE_GUARDS F_allowNoBaselineOnAbsoluteFloors v = is_bool v"
| "FIELD_TYPE_GUARDS _ v = is_num v"

fun num_of :: "jsval \<Rightarrow> rat" where
  "num_of (JNum (Fin q)) = q"
| "num_of _ = 0"

fun str_of :: "jsval \<Rightarrow> string" where
  "str_of (JStr s) = s"
| "str_of _ = []"

fun strs_of :: "jsval \<Rightarrow> string list" where
  "strs_of (JArr vs) = map str_of vs"
| "strs_of _ = []"

fun bool_of :: "jsval \<Rightarrow> bool" where
  "bool_of (JBool b) = b"
| "bool_of _ = False"

text \<open>\<open>result[field] = candidate\<close>, on a candidate that passed its validator.\<close>

fun policy_set :: "policy_field \<Rightarrow> jsval \<Rightarrow> promotion_policy \<Rightarrow> promotion_policy" where
  "policy_set F_taskSuccessMin v p = p\<lparr>taskSuccessMin := num_of v\<rparr>"
| "policy_set F_policyComplianceMin v p = p\<lparr>policyComplianceMin := num_of v\<rparr>"
| "policy_set F_latencyP95TargetMs v p = p\<lparr>latencyP95TargetMs := num_of v\<rparr>"
| "policy_set F_avgCostBudgetUsd v p = p\<lparr>avgCostBudgetUsd := num_of v\<rparr>"
| "policy_set F_minSampleCount v p = p\<lparr>pp_minSampleCount := num_of v\<rparr>"
| "policy_set F_requiredGateClasses v p = p\<lparr>requiredGateClasses := strs_of v\<rparr>"
| "policy_set F_maxEvidenceAgeDays v p = p\<lparr>maxEvidenceAgeDays := num_of v\<rparr>"
| "policy_set F_allowNoBaselineOnAbsoluteFloors v p = p\<lparr>allowNoBaselineOnAbsoluteFloors := bool_of v\<rparr>"
| "policy_set F_canaryMaxBasisPoints v p = p\<lparr>canaryMaxBasisPoints := num_of v\<rparr>"

fun policy_get :: "promotion_policy \<Rightarrow> policy_field \<Rightarrow> jsval" where
  "policy_get p F_requiredGateClasses = JArr (map JStr (requiredGateClasses p))"
| "policy_get p F_allowNoBaselineOnAbsoluteFloors = JBool (allowNoBaselineOnAbsoluteFloors p)"
| "policy_get p f = JNum (Fin (num_field p f))"

definition mergePolicyFields :: "jsobj option list \<Rightarrow> promotion_policy" where
  "mergePolicyFields sources =
     merge_layers POLICY_FIELDS policy_field_name FIELD_VALIDATORS policy_set DEFAULT_PROMOTION_POLICY
       sources"

lemma policy_get_set:
  "FIELD_VALIDATORS f v \<Longrightarrow> policy_get (policy_set f v p) g = (if g = f then v else policy_get p g)"
  by (cases f; cases g) (auto simp: sane_iffs comp_def)

interpretation promotion: layered_config POLICY_FIELDS policy_field_name FIELD_VALIDATORS policy_set
  policy_get DEFAULT_PROMOTION_POLICY
proof unfold_locales
  show "set POLICY_FIELDS = UNIV"
    by (auto simp: POLICY_FIELDS_def intro: policy_field.exhaust)
  show "distinct POLICY_FIELDS"
    by (simp add: POLICY_FIELDS_def)
  fix f g v p
  show "FIELD_VALIDATORS f v \<Longrightarrow> policy_get (policy_set f v p) g = (if g = f then v else policy_get p g)"
    by (rule policy_get_set)
  show "FIELD_VALIDATORS f (policy_get DEFAULT_PROMOTION_POLICY f)"
    by (cases f) (simp_all add: DEFAULT_PROMOTION_POLICY_def sane_values(5) [of "[]", simplified])
  show "\<not> FIELD_VALIDATORS f JUndef"
    by (cases f) (simp_all add: sane_iffs)
qed

section \<open>Resolving the promotion policy\<close>

definition hasWrongTypeField :: "jsobj \<Rightarrow> bool" where
  "hasWrongTypeField container = has_wrong_type POLICY_FIELDS policy_field_name FIELD_TYPE_GUARDS container"

definition resolveBaseEnvironmentPolicy :: "jsobj option \<Rightarrow> jsobj option \<Rightarrow> promotion_policy" where
  "resolveBaseEnvironmentPolicy policy environmentOverride = mergePolicyFields [policy, environmentOverride]"

definition orgId_readable :: "jsobj \<Rightarrow> bool" where
  "orgId_readable row \<longleftrightarrow> is_str (js_prop row ''orgId'') \<and> js_prop row ''orgId'' \<noteq> JStr []"

definition isReadableRow :: "jsval \<Rightarrow> bool" where
  "isReadableRow v = (case v of
       JObj row \<Rightarrow>
         orgId_readable row \<and>
         container_readable hasWrongTypeField (js_prop row ''policy'') \<and>
         overrides_readable hasWrongTypeField (js_prop row ''perAgentPolicyOverrides'') \<and>
         overrides_readable hasWrongTypeField (js_prop row ''perEnvironmentPolicyOverrides'')
     | _ \<Rightarrow> False)"

text \<open>The layers of a readable row, lowest precedence first.\<close>

definition promotion_layers :: "jsval \<Rightarrow> string \<Rightarrow> environment option \<Rightarrow> jsobj option list" where
  "promotion_layers v agentTargetId env = (case v of
       JObj row \<Rightarrow>
         [as_source (js_prop row ''policy''),
          override_at (js_prop row ''perAgentPolicyOverrides'') agentTargetId,
          (case env of
             None \<Rightarrow> None
           | Some e \<Rightarrow> override_at (js_prop row ''perEnvironmentPolicyOverrides'') (env_str e))]
     | _ \<Rightarrow> [])"

text \<open>
  The first argument is the outcome of the \<open>GetItem\<close>: an exception, no row, or a row.
\<close>

definition resolvePromotionPolicy ::
  "'e + jsval option \<Rightarrow> string \<Rightarrow> environment option \<Rightarrow> promotion_policy option" where
  "resolvePromotionPolicy fetched agentTargetId env = (case fetched of
       Inl err \<Rightarrow> None
     | Inr None \<Rightarrow> Some DEFAULT_PROMOTION_POLICY
     | Inr (Some row) \<Rightarrow>
         if \<not> isReadableRow row then None
         else Some (mergePolicyFields (promotion_layers row agentTargetId env)))"

section \<open>Rollback policy\<close>

datatype rollback_action = ABORT_CANARY | ROLLBACK_STABLE | BOTH

text \<open>A threshold that is \<open>null\<close> is not evaluated.\<close>

record rollback_policy =
  rb_enabled :: bool
  errorRateMax :: "rat option"
  latencyP95MaxMs :: "rat option"
  policyViolationFindingRateMax :: "rat option"
  costPerInvocationMaxMicros :: "rat option"
  driftScoreMax :: "rat option"
  rb_minSampleCount :: rat
  evaluationWindowMinutes :: rat
  rb_action :: rollback_action

definition DEFAULT_ROLLBACK_POLICY :: rollback_policy where
  "DEFAULT_ROLLBACK_POLICY =
     \<lparr>rb_enabled = False, errorRateMax = None, latencyP95MaxMs = None,
      policyViolationFindingRateMax = None, costPerInvocationMaxMicros = None,
      driftScoreMax = None, rb_minSampleCount = 20, evaluationWindowMinutes = 15,
      rb_action = ABORT_CANARY\<rparr>"

datatype rollback_field =
    RF_enabled
  | RF_errorRateMax
  | RF_latencyP95MaxMs
  | RF_policyViolationFindingRateMax
  | RF_costPerInvocationMaxMicros
  | RF_driftScoreMax
  | RF_minSampleCount
  | RF_evaluationWindowMinutes
  | RF_action

definition ROLLBACK_FIELDS :: "rollback_field list" where
  "ROLLBACK_FIELDS =
     [RF_enabled, RF_errorRateMax, RF_latencyP95MaxMs, RF_policyViolationFindingRateMax,
      RF_costPerInvocationMaxMicros, RF_driftScoreMax, RF_minSampleCount,
      RF_evaluationWindowMinutes, RF_action]"

fun rollback_field_name :: "rollback_field \<Rightarrow> string" where
  "rollback_field_name RF_enabled = ''enabled''"
| "rollback_field_name RF_errorRateMax = ''errorRateMax''"
| "rollback_field_name RF_latencyP95MaxMs = ''latencyP95MaxMs''"
| "rollback_field_name RF_policyViolationFindingRateMax = ''policyViolationFindingRateMax''"
| "rollback_field_name RF_costPerInvocationMaxMicros = ''costPerInvocationMaxMicros''"
| "rollback_field_name RF_driftScoreMax = ''driftScoreMax''"
| "rollback_field_name RF_minSampleCount = ''minSampleCount''"
| "rollback_field_name RF_evaluationWindowMinutes = ''evaluationWindowMinutes''"
| "rollback_field_name RF_action = ''action''"

fun ROLLBACK_FIELD_VALIDATORS :: "rollback_field \<Rightarrow> jsval \<Rightarrow> bool" where
  "ROLLBACK_FIELD_VALIDATORS RF_enabled v = isSaneBoolean v"
| "ROLLBACK_FIELD_VALIDATORS RF_errorRateMax v = isSaneNullableRate v"
| "ROLLBACK_FIELD_VALIDATORS RF_latencyP95MaxMs v = isSaneNullableNonNegative v"
| "ROLLBACK_FIELD_VALIDATORS RF_policyViolationFindingRateMax v = isSaneNullableRate v"
| "ROLLBACK_FIELD_VALIDATORS RF_costPerInvocationMaxMicros v = isSaneNullableNonNegative v"
| "ROLLBACK_FIELD_VALIDATORS RF_driftScoreMax v = isSaneNullableRate v"
| "ROLLBACK_FIELD_VALIDATORS RF_minSampleCount v = isSaneNonNegative v"
| "ROLLBACK_FIELD_VALIDATORS RF_evaluationWindowMinutes v = isSaneNonNegative v"
| "ROLLBACK_FIELD_VALIDATORS RF_action v = isRollbackAction v"

fun ROLLBACK_FIELD_TYPE_GUARDS :: "rollback_field \<Rightarrow> jsval \<Rightarrow> bool" where
  "ROLLBACK_FIELD_TYPE_GUARDS RF_enabled v = is_bool v"
| "ROLLBACK_FIELD_TYPE_GUARDS RF_minSampleCount v = is_num v"
| "ROLLBACK_FIELD_TYPE_GUARDS RF_evaluationWindowMinutes v = is_num v"
| "ROLLBACK_FIELD_TYPE_GUARDS RF_action v = is_str v"
| "ROLLBACK_FIELD_TYPE_GUARDS _ v = (v = JNull \<or> is_num v)"

fun nullable_num :: "jsval \<Rightarrow> rat option" where
  "nullable_num (JNum (Fin q)) = Some q"
| "nullable_num _ = None"

fun show_nullable :: "rat option \<Rightarrow> jsval" where
  "show_nullable (Some q) = JNum (Fin q)"
| "show_nullable None = JNull"

definition action_of :: "jsval \<Rightarrow> rollback_action" where
  "action_of v =
     (if v = JStr ''ROLLBACK_STABLE'' then ROLLBACK_STABLE
      else if v = JStr ''BOTH'' then BOTH else ABORT_CANARY)"

fun show_action :: "rollback_action \<Rightarrow> jsval" where
  "show_action ABORT_CANARY = JStr ''ABORT_CANARY''"
| "show_action ROLLBACK_STABLE = JStr ''ROLLBACK_STABLE''"
| "show_action BOTH = JStr ''BOTH''"

fun rollback_set :: "rollback_field \<Rightarrow> jsval \<Rightarrow> rollback_policy \<Rightarrow> rollback_policy" where
  "rollback_set RF_enabled v p = p\<lparr>rb_enabled := bool_of v\<rparr>"
| "rollback_set RF_errorRateMax v p = p\<lparr>errorRateMax := nullable_num v\<rparr>"
| "rollback_set RF_latencyP95MaxMs v p = p\<lparr>latencyP95MaxMs := nullable_num v\<rparr>"
| "rollback_set RF_policyViolationFindingRateMax v p =
     p\<lparr>policyViolationFindingRateMax := nullable_num v\<rparr>"
| "rollback_set RF_costPerInvocationMaxMicros v p = p\<lparr>costPerInvocationMaxMicros := nullable_num v\<rparr>"
| "rollback_set RF_driftScoreMax v p = p\<lparr>driftScoreMax := nullable_num v\<rparr>"
| "rollback_set RF_minSampleCount v p = p\<lparr>rb_minSampleCount := num_of v\<rparr>"
| "rollback_set RF_evaluationWindowMinutes v p = p\<lparr>evaluationWindowMinutes := num_of v\<rparr>"
| "rollback_set RF_action v p = p\<lparr>rb_action := action_of v\<rparr>"

fun rollback_get :: "rollback_policy \<Rightarrow> rollback_field \<Rightarrow> jsval" where
  "rollback_get p RF_enabled = JBool (rb_enabled p)"
| "rollback_get p RF_errorRateMax = show_nullable (errorRateMax p)"
| "rollback_get p RF_latencyP95MaxMs = show_nullable (latencyP95MaxMs p)"
| "rollback_get p RF_policyViolationFindingRateMax = show_nullable (policyViolationFindingRateMax p)"
| "rollback_get p RF_costPerInvocationMaxMicros = show_nullable (costPerInvocationMaxMicros p)"
| "rollback_get p RF_driftScoreMax = show_nullable (driftScoreMax p)"
| "rollback_get p RF_minSampleCount = JNum (Fin (rb_minSampleCount p))"
| "rollback_get p RF_evaluationWindowMinutes = JNum (Fin (evaluationWindowMinutes p))"
| "rollback_get p RF_action = show_action (rb_action p)"

definition mergeRollbackFields :: "jsobj option list \<Rightarrow> rollback_policy" where
  "mergeRollbackFields sources =
     merge_layers ROLLBACK_FIELDS rollback_field_name ROLLBACK_FIELD_VALIDATORS rollback_set
       DEFAULT_ROLLBACK_POLICY sources"

lemma rollback_get_set:
  "ROLLBACK_FIELD_VALIDATORS f v \<Longrightarrow>
    rollback_get (rollback_set f v p) g = (if g = f then v else rollback_get p g)"
  by (cases f; cases g) (auto simp: sane_iffs action_of_def)

interpretation rollback: layered_config ROLLBACK_FIELDS rollback_field_name ROLLBACK_FIELD_VALIDATORS
  rollback_set rollback_get DEFAULT_ROLLBACK_POLICY
proof unfold_locales
  show "set ROLLBACK_FIELDS = UNIV"
    by (auto simp: ROLLBACK_FIELDS_def intro: rollback_field.exhaust)
  show "distinct ROLLBACK_FIELDS"
    by (simp add: ROLLBACK_FIELDS_def)
  fix f g v p
  show "ROLLBACK_FIELD_VALIDATORS f v \<Longrightarrow>
      rollback_get (rollback_set f v p) g = (if g = f then v else rollback_get p g)"
    by (rule rollback_get_set)
  show "ROLLBACK_FIELD_VALIDATORS f (rollback_get DEFAULT_ROLLBACK_POLICY f)"
    by (cases f) (simp_all add: isRollbackAction_def DEFAULT_ROLLBACK_POLICY_def)
  show "\<not> ROLLBACK_FIELD_VALIDATORS f JUndef"
    by (cases f) (simp_all add: sane_iffs)
qed

definition hasWrongTypeRollbackField :: "jsobj \<Rightarrow> bool" where
  "hasWrongTypeRollbackField container =
     has_wrong_type ROLLBACK_FIELDS rollback_field_name ROLLBACK_FIELD_TYPE_GUARDS container"

definition areRollbackContainersReadable :: "jsobj \<Rightarrow> bool" where
  "areRollbackContainersReadable row \<longleftrightarrow>
     container_readable hasWrongTypeRollbackField (js_prop row ''rollbackPolicy'') \<and>
     overrides_readable hasWrongTypeRollbackField (js_prop row ''perAgentRollbackOverrides'') \<and>
     overrides_readable hasWrongTypeRollbackField (js_prop row ''perEnvironmentRollbackOverrides'')"

definition rollback_layers :: "jsobj \<Rightarrow> string \<Rightarrow> environment option \<Rightarrow> jsobj option list" where
  "rollback_layers row agentTargetId env =
     [as_source (js_prop row ''rollbackPolicy''),
      override_at (js_prop row ''perAgentRollbackOverrides'') agentTargetId,
      (case env of
         None \<Rightarrow> None
       | Some e \<Rightarrow> override_at (js_prop row ''perEnvironmentRollbackOverrides'') (env_str e))]"

definition resolveRollbackPolicy ::
  "'e + jsval option \<Rightarrow> string \<Rightarrow> environment option \<Rightarrow> rollback_policy option" where
  "resolveRollbackPolicy fetched agentTargetId env = (case fetched of
       Inl err \<Rightarrow> None
     | Inr None \<Rightarrow> Some DEFAULT_ROLLBACK_POLICY
     | Inr (Some (JObj row)) \<Rightarrow>
         if \<not> orgId_readable row then None
         else if \<not> areRollbackContainersReadable row then None
         else Some (mergeRollbackFields (rollback_layers row agentTargetId env))
     | Inr (Some _) \<Rightarrow> None)"

section \<open>What resolution guarantees\<close>

lemma mergePolicyFields_get:
  "policy_get (mergePolicyFields sources) f =
     last_valid (FIELD_VALIDATORS f) (policy_get DEFAULT_PROMOTION_POLICY f)
       (map (candidate_of (policy_field_name f)) sources)"
  unfolding mergePolicyFields_def by (rule promotion.merge_get)

lemma mergeRollbackFields_get:
  "rollback_get (mergeRollbackFields sources) f =
     last_valid (ROLLBACK_FIELD_VALIDATORS f) (rollback_get DEFAULT_ROLLBACK_POLICY f)
       (map (candidate_of (rollback_field_name f)) sources)"
  unfolding mergeRollbackFields_def by (rule rollback.merge_get)


lemma promotion_policy_fail_closed_facts:
  "\<not> FIELD_VALIDATORS f (candidate_of (policy_field_name f) src) \<Longrightarrow>
     policy_get (mergePolicyFields (layers @ [src])) f = policy_get (mergePolicyFields layers) f"
  "js_prop row ''policy'' = JObj ob \<Longrightarrow> js_prop ob (policy_field_name f) \<noteq> JUndef \<Longrightarrow>
     \<not> FIELD_TYPE_GUARDS f (js_prop ob (policy_field_name f)) \<Longrightarrow>
     resolvePromotionPolicy (Inr (Some (JObj row)) :: 'e + jsval option) agent env = None"
  "js_prop row ''perEnvironmentPolicyOverrides'' = JObj envs \<Longrightarrow> (k, JObj ob) \<in> set envs \<Longrightarrow>
     js_prop ob (policy_field_name f) \<noteq> JUndef \<Longrightarrow>
     \<not> FIELD_TYPE_GUARDS f (js_prop ob (policy_field_name f)) \<Longrightarrow>
     resolvePromotionPolicy (Inr (Some (JObj row)) :: 'e + jsval option) agent env = None"
proof -
  show "policy_get (mergePolicyFields (layers @ [src])) f = policy_get (mergePolicyFields layers) f"
    if "\<not> FIELD_VALIDATORS f (candidate_of (policy_field_name f) src)"
    unfolding mergePolicyFields_def using that by (rule promotion.merge_fall_through)
  have wrong: "hasWrongTypeField ob"
    if "js_prop ob (policy_field_name f) \<noteq> JUndef"
      and "\<not> FIELD_TYPE_GUARDS f (js_prop ob (policy_field_name f))"
    using that promotion.all_fields(1) by (auto simp: hasWrongTypeField_def has_wrong_type_def list_ex_iff)
  show "resolvePromotionPolicy (Inr (Some (JObj row)) :: 'e + jsval option) agent env = None"
    if "js_prop row ''policy'' = JObj ob" "js_prop ob (policy_field_name f) \<noteq> JUndef"
      "\<not> FIELD_TYPE_GUARDS f (js_prop ob (policy_field_name f))"
    using that wrong by (simp add: resolvePromotionPolicy_def isReadableRow_def container_readable_def)
  show "resolvePromotionPolicy (Inr (Some (JObj row)) :: 'e + jsval option) agent env = None"
    if "js_prop row ''perEnvironmentPolicyOverrides'' = JObj envs" "(k, JObj ob) \<in> set envs"
      "js_prop ob (policy_field_name f) \<noteq> JUndef"
      "\<not> FIELD_TYPE_GUARDS f (js_prop ob (policy_field_name f))"
  proof -
    have "\<not> list_all (\<lambda>kv. case snd kv of JObj ob \<Rightarrow> \<not> hasWrongTypeField ob | _ \<Rightarrow> False) envs"
      using that wrong by (force simp: list_all_iff)
    then show ?thesis
      using that(1) by (simp add: resolvePromotionPolicy_def isReadableRow_def overrides_readable_def)
  qed
qed


lemma resolveRollbackPolicy_fail_safe_facts:
  "resolveRollbackPolicy (Inr None :: 'e + jsval option) agent env = Some DEFAULT_ROLLBACK_POLICY \<and>
   \<not> rb_enabled DEFAULT_ROLLBACK_POLICY"
  "resolveRollbackPolicy fetched agent env = Some p \<Longrightarrow> rb_enabled p \<Longrightarrow>
     (\<exists>row. fetched = Inr (Some (JObj row)) \<and> orgId_readable row \<and> areRollbackContainersReadable row \<and>
        last_valid (ROLLBACK_FIELD_VALIDATORS RF_enabled) (JBool False)
          (map (candidate_of ''enabled'') (rollback_layers row agent env)) = JBool True)"
proof -
  show "resolveRollbackPolicy (Inr None :: 'e + jsval option) agent env = Some DEFAULT_ROLLBACK_POLICY \<and>
     \<not> rb_enabled DEFAULT_ROLLBACK_POLICY"
    by (simp add: resolveRollbackPolicy_def DEFAULT_ROLLBACK_POLICY_def)
  assume res: "resolveRollbackPolicy fetched agent env = Some p" and en: "rb_enabled p"
  then obtain row where row: "fetched = Inr (Some (JObj row))" "orgId_readable row"
    "areRollbackContainersReadable row" "p = mergeRollbackFields (rollback_layers row agent env)"
    by (auto simp: resolveRollbackPolicy_def DEFAULT_ROLLBACK_POLICY_def
        split: sum.splits option.splits jsval.splits if_splits)
  have "rollback_get p RF_enabled = last_valid (ROLLBACK_FIELD_VALIDATORS RF_enabled) (JBool False)
      (map (candidate_of ''enabled'') (rollback_layers row agent env))"
    unfolding row(4) mergeRollbackFields_get by (simp add: DEFAULT_ROLLBACK_POLICY_def)
  with row en show "\<exists>row. fetched = Inr (Some (JObj row)) \<and> orgId_readable row \<and>
      areRollbackContainersReadable row \<and>
      last_valid (ROLLBACK_FIELD_VALIDATORS RF_enabled) (JBool False)
        (map (candidate_of ''enabled'') (rollback_layers row agent env)) = JBool True"
    by auto
qed

text \<open>Rollback resolution is fail-safe: with no row, or a row that never sets a valid
  \<open>enabled\<close>, the resolved policy is disabled; a policy that is enabled was enabled by the
  most specific valid layer of a readable row.\<close>

theorem resolveRollbackPolicy_fail_safe:
  "resolveRollbackPolicy (Inr None :: 'e + jsval option) agent env = Some DEFAULT_ROLLBACK_POLICY \<and>
   \<not> rb_enabled DEFAULT_ROLLBACK_POLICY \<and>
   (resolveRollbackPolicy (fetched :: 'e + jsval option) agent env = Some p \<and> rb_enabled p \<longrightarrow>
     (\<exists>row. fetched = Inr (Some (JObj row)) \<and> orgId_readable row \<and> areRollbackContainersReadable row \<and>
        last_valid (ROLLBACK_FIELD_VALIDATORS RF_enabled) (JBool False)
          (map (candidate_of ''enabled'') (rollback_layers row agent env)) = JBool True))"
  using resolveRollbackPolicy_fail_safe_facts(1) [where 'e = 'e]
    resolveRollbackPolicy_fail_safe_facts(2) [of fetched agent env p] by blast

section \<open>A configured organisation\<close>

text \<open>An organisation floor, an out-of-range override for PROD, and an enabled rollback policy.\<close>

definition sample_policy_row :: jsobj where
  "sample_policy_row =
     [(''orgId'', JStr ''org''),
      (''policy'', JObj [(''taskSuccessMin'', JNum (Fin (95 / 100)))]),
      (''perEnvironmentPolicyOverrides'',
        JObj [(''PROD'', JObj [(''taskSuccessMin'', JNum (Fin 2)), (''minSampleCount'', JNum (Fin 50))])]),
      (''rollbackPolicy'', JObj [(''enabled'', JBool True), (''costPerInvocationMaxMicros'', JNum (Fin 900))])]"

lemma sample_policy_row_readable:
  "isReadableRow (JObj sample_policy_row)" "orgId_readable sample_policy_row"
  "areRollbackContainersReadable sample_policy_row"
  by (simp_all add: isReadableRow_def orgId_readable_def areRollbackContainersReadable_def
      sample_policy_row_def js_prop_def container_readable_def overrides_readable_def
      hasWrongTypeField_def hasWrongTypeRollbackField_def has_wrong_type_def POLICY_FIELDS_def
      ROLLBACK_FIELDS_def)



theorem resolveRollbackPolicy_fail_safe_witness:
  "\<exists>p. resolveRollbackPolicy (Inr (Some (JObj sample_policy_row)) :: unit + jsval option) ''agent'' None = Some p \<and>
     rb_enabled p \<and>
     last_valid (ROLLBACK_FIELD_VALIDATORS RF_enabled) (JBool False)
       (map (candidate_of ''enabled'') (rollback_layers sample_policy_row ''agent'' None)) = JBool True"
proof -
  let ?p = "mergeRollbackFields (rollback_layers sample_policy_row ''agent'' None)"
  have p: "resolveRollbackPolicy (Inr (Some (JObj sample_policy_row)) :: unit + jsval option) ''agent'' None = Some ?p"
    using sample_policy_row_readable by (simp add: resolveRollbackPolicy_def)
  have "rollback_get ?p RF_enabled = JBool True"
    unfolding mergeRollbackFields_get
    by (simp add: rollback_layers_def sample_policy_row_def js_prop_def candidate_of_def as_source_def
        override_at_def last_valid_def)
  then have en: "rb_enabled ?p"
    by simp
  from resolveRollbackPolicy_fail_safe [THEN conjunct2, THEN conjunct2, THEN mp, OF conjI [OF p en]] p en show ?thesis
    by auto
qed

end
