(* ===== verification/LineDiff.thy ===== *)
theory LineDiff
  imports Prelude "HOL-Library.Sublist"
begin

text \<open>
  The line diff of the release diff (\<open>diffLines\<close> of backend/src/lambda/utils/release-diff.ts):
  the table of longest common subsequences filled from the back, and the walk through it. The
  specification is the recursive length of a longest common subsequence and the edit script it
  gives; the code's table and walk refine it.
\<close>

section \<open>The code\<close>

datatype line_type = Line_context | Line_added | Line_removed

record line_diff_entry =
  lde_type :: line_type
  lde_line :: nat
  lde_text :: string

definition entry :: "line_type \<Rightarrow> nat \<Rightarrow> string \<Rightarrow> line_diff_entry" where
  "entry k n s = \<lparr>lde_type = k, lde_line = n, lde_text = s\<rparr>"

text \<open>Row \<open>i\<close> of the table from row \<open>i + 1\<close>, filled from the last column to the first; the rows
  from the last one to the first.\<close>

fun lcs_row :: "'a \<Rightarrow> 'a list \<Rightarrow> nat list \<Rightarrow> nat list" where
  "lcs_row x [] below = [0]"
| "lcs_row x (y # ys) below =
     (let row = lcs_row x ys (tl below)
      in (if x = y then hd (tl below) + 1 else max (hd below) (hd row)) # row)"

fun lcs_table :: "'a list \<Rightarrow> 'a list \<Rightarrow> nat list list" where
  "lcs_table [] ys = [replicate (length ys + 1) 0]"
| "lcs_table (x # xs) ys = (let rows = lcs_table xs ys in lcs_row x ys (hd rows) # rows)"

text \<open>The three loops: both sides left, then what is left of either side.\<close>

function diff_loop ::
  "nat list list \<Rightarrow> string list \<Rightarrow> string list \<Rightarrow> nat \<Rightarrow> nat \<Rightarrow> nat \<Rightarrow> nat \<Rightarrow> line_diff_entry list" where
  "diff_loop lcs beforeLines afterLines i j beforeLineNo afterLineNo =
     (if i < length beforeLines \<and> j < length afterLines
      then if beforeLines ! i = afterLines ! j
           then entry Line_context beforeLineNo (beforeLines ! i) #
             diff_loop lcs beforeLines afterLines (i + 1) (j + 1) (beforeLineNo + 1) (afterLineNo + 1)
           else if lcs ! (i + 1) ! j \<ge> lcs ! i ! (j + 1)
           then entry Line_removed beforeLineNo (beforeLines ! i) #
             diff_loop lcs beforeLines afterLines (i + 1) j (beforeLineNo + 1) afterLineNo
           else entry Line_added afterLineNo (afterLines ! j) #
             diff_loop lcs beforeLines afterLines i (j + 1) beforeLineNo (afterLineNo + 1)
      else if i < length beforeLines
      then entry Line_removed beforeLineNo (beforeLines ! i) #
        diff_loop lcs beforeLines afterLines (i + 1) j (beforeLineNo + 1) afterLineNo
      else if j < length afterLines
      then entry Line_added afterLineNo (afterLines ! j) #
        diff_loop lcs beforeLines afterLines i (j + 1) beforeLineNo (afterLineNo + 1)
      else [])"
  by pat_completeness auto
termination
  by (relation "measure (\<lambda>(lcs, xs, ys, i, j, b, a). (length xs - i) + (length ys - j))") auto

declare diff_loop.simps [simp del]

definition diffLines :: "string \<Rightarrow> string \<Rightarrow> line_diff_entry list" where
  "diffLines before after =
     (let beforeLines = split_on CHR 0x0A before; afterLines = split_on CHR 0x0A after
      in diff_loop (lcs_table beforeLines afterLines) beforeLines afterLines 0 0 1 1)"

section \<open>The specification\<close>

fun lcs_len :: "'a list \<Rightarrow> 'a list \<Rightarrow> nat" where
  "lcs_len [] ys = 0"
| "lcs_len (x # xs) [] = 0"
| "lcs_len (x # xs) (y # ys) =
     (if x = y then lcs_len xs ys + 1 else max (lcs_len xs (y # ys)) (lcs_len (x # xs) ys))"

fun edit_script :: "string list \<Rightarrow> string list \<Rightarrow> nat \<Rightarrow> nat \<Rightarrow> line_diff_entry list" where
  "edit_script [] [] b a = []"
| "edit_script (x # xs) [] b a = entry Line_removed b x # edit_script xs [] (b + 1) a"
| "edit_script [] (y # ys) b a = entry Line_added a y # edit_script [] ys b (a + 1)"
| "edit_script (x # xs) (y # ys) b a =
     (if x = y then entry Line_context b x # edit_script xs ys (b + 1) (a + 1)
      else if lcs_len xs (y # ys) \<ge> lcs_len (x # xs) ys
      then entry Line_removed b x # edit_script xs (y # ys) (b + 1) a
      else entry Line_added a y # edit_script (x # xs) ys b (a + 1))"

lemma lcs_len_Nil [simp]: "lcs_len xs [] = 0"
  by (cases xs) simp_all

lemma entry_simps [simp]:
  "lde_type (entry k n s) = k" "lde_line (entry k n s) = n" "lde_text (entry k n s) = s"
  by (simp_all add: entry_def)

section \<open>The table holds the lengths\<close>

lemma lcs_row_correct:
  assumes "length below = length ys + 1"
    and "\<And>j. j \<le> length ys \<Longrightarrow> below ! j = lcs_len xs (drop j ys)"
  shows "length (lcs_row x ys below) = length ys + 1 \<and>
    (\<forall>j \<le> length ys. lcs_row x ys below ! j = lcs_len (x # xs) (drop j ys))"
  using assms
proof (induction ys arbitrary: below)
  case (Cons y ys)
  obtain b0 below' where below: "below = b0 # below'"
    using Cons.prems(1) by (cases below) auto
  have prem: "below' ! j = lcs_len xs (drop j ys)" if "j \<le> length ys" for j
    using Cons.prems(2) [of "Suc j"] that by (simp add: below)
  have IH: "length (lcs_row x ys below') = length ys + 1"
      "\<And>j. j \<le> length ys \<Longrightarrow> lcs_row x ys below' ! j = lcs_len (x # xs) (drop j ys)"
    using Cons.IH [of below'] Cons.prems(1) prem by (auto simp: below)
  have "b0 = lcs_len xs (y # ys)"
    using Cons.prems(2) [of 0] by (simp add: below)
  moreover have "hd below' = lcs_len xs ys"
    using prem [of 0] Cons.prems(1) by (cases below') (auto simp: below)
  moreover have "hd (lcs_row x ys below') = lcs_len (x # xs) ys"
    using IH(2) [of 0] IH(1) by (cases "lcs_row x ys below'") auto
  ultimately show ?case
    using IH by (auto simp: below Let_def nth_Cons split: nat.split)
qed auto

lemma nth_zeros: "j \<le> n \<Longrightarrow> (0 # replicate n 0) ! j = (0 :: nat)"
  by (cases j) auto

lemma lcs_table_correct:
  "length (lcs_table xs ys) = length xs + 1 \<and>
    (\<forall>i \<le> length xs. length (lcs_table xs ys ! i) = length ys + 1 \<and>
      (\<forall>j \<le> length ys. lcs_table xs ys ! i ! j = lcs_len (drop i xs) (drop j ys)))"
proof (induction xs)
  case (Cons x xs)
  have hd: "hd (lcs_table xs ys) = lcs_table xs ys ! 0"
    using Cons.IH by (cases "lcs_table xs ys") auto
  then have "length (lcs_row x ys (hd (lcs_table xs ys))) = length ys + 1 \<and>
    (\<forall>j \<le> length ys. lcs_row x ys (hd (lcs_table xs ys)) ! j = lcs_len (x # xs) (drop j ys))"
    by (intro lcs_row_correct) (use Cons.IH in auto)
  with Cons.IH show ?case
    by (auto simp: Let_def nth_Cons split: nat.split)
qed (simp add: nth_zeros)

lemma lcs_table_nth:
  "i \<le> length xs \<Longrightarrow> j \<le> length ys \<Longrightarrow>
    lcs_table xs ys ! i ! j = lcs_len (drop i xs) (drop j ys)"
  using lcs_table_correct [of xs ys] by blast

lemma diff_loop_edit_script:
  assumes "\<And>i j. i \<le> length xs \<Longrightarrow> j \<le> length ys \<Longrightarrow> lcs ! i ! j = lcs_len (drop i xs) (drop j ys)"
    and "i \<le> length xs" and "j \<le> length ys"
  shows "diff_loop lcs xs ys i j b a = edit_script (drop i xs) (drop j ys) b a"
  using assms
proof (induction lcs xs ys i j b a rule: diff_loop.induct)
  case step: (1 lcs xs ys i j b a)
  note lcs = step.prems(1)
  consider "i < length xs" "j < length ys" | "i < length xs" "j = length ys"
    | "i = length xs" "j < length ys" | "i = length xs" "j = length ys"
    using step.prems by linarith
  then show ?case
  proof cases
    case 1
    then show ?thesis
      using step.IH(1-3) lcs
      by (subst diff_loop.simps) (simp add: lcs Cons_nth_drop_Suc [symmetric])
  next
    case 2
    then show ?thesis
      using step.IH(4) lcs by (subst diff_loop.simps) (simp add: Cons_nth_drop_Suc [symmetric])
  next
    case 3
    then show ?thesis
      using step.IH(5) lcs by (subst diff_loop.simps) (simp add: Cons_nth_drop_Suc [symmetric])
  next
    case 4
    then show ?thesis
      by (subst diff_loop.simps) simp
  qed
qed

lemma diffLines_edit_script:
  "diffLines before after = edit_script (split_on CHR 0x0A before) (split_on CHR 0x0A after) 1 1"
  by (simp add: diffLines_def diff_loop_edit_script lcs_table_nth)

section \<open>What an edit script says\<close>

definition side :: "line_type \<Rightarrow> line_diff_entry list \<Rightarrow> line_diff_entry list" where
  "side other es = filter (\<lambda>e. lde_type e \<noteq> other) es"

definition context_count :: "line_diff_entry list \<Rightarrow> nat" where
  "context_count es = length (filter (\<lambda>e. lde_type e = Line_context) es)"

lemma side_simps [simp]:
  "side k [] = []" "side k (e # es) = (if lde_type e = k then side k es else e # side k es)"
  by (simp_all add: side_def)

lemma added_only [simp]: "side Line_added (edit_script [] ys b a) = []"
  by (induction ys arbitrary: a) simp_all

lemma before_side:
  "map lde_text (side Line_added (edit_script xs ys b a)) = xs \<and>
   map lde_line (side Line_added (edit_script xs ys b a)) = [b..<b + length xs]"
  by (induction xs ys b a rule: edit_script.induct) (auto simp: upt_rec)

lemma after_side: "map lde_text (side Line_removed (edit_script xs ys b a)) = ys"
  by (induction xs ys b a rule: edit_script.induct) auto

lemma context_lcs: "context_count (edit_script xs ys b a) = lcs_len xs ys"
  by (induction xs ys b a rule: edit_script.induct) (auto simp: context_count_def)

lemma lcs_len_maximal: "subseq zs xs \<Longrightarrow> subseq zs ys \<Longrightarrow> length zs \<le> lcs_len xs ys"
proof (induction xs ys arbitrary: zs rule: lcs_len.induct)
  case (3 x xs y ys)
  show ?case
  proof (cases zs)
    case (Cons z zs')
    show ?thesis
    proof (cases "x = y")
      case True
      show ?thesis
      proof (cases "z = x")
        case True
        with 3(1) [OF \<open>x = y\<close>, of zs'] 3(4,5) show ?thesis
          by (simp add: Cons \<open>x = y\<close>)
      next
        case False
        with 3(4,5) \<open>x = y\<close> have "subseq zs xs" "subseq zs ys"
          by (auto simp: Cons)
        from 3(1) [OF \<open>x = y\<close> this] \<open>x = y\<close> show ?thesis
          by simp
      qed
    next
      case False
      then have "subseq zs xs \<or> subseq zs ys"
        using 3(4,5) by (cases "z = x") (simp_all add: Cons)
      then show ?thesis
        using 3(2,3) [OF False, of zs] 3(4,5) False by auto
    qed
  qed simp
qed (auto dest: list_emb_length)

section \<open>The diff is faithful and minimal\<close>

text \<open>C39. A line diff loses nothing: dropping the added lines gives the old text back, dropping the
  removed lines gives the new one, and the lines of the old text are numbered from one without a
  gap.\<close>

theorem diffLines_reconstructs:
  "join_with CHR 0x0A (map lde_text (side Line_added (diffLines before after))) = before \<and>
   join_with CHR 0x0A (map lde_text (side Line_removed (diffLines before after))) = after \<and>
   map lde_line (side Line_added (diffLines before after)) =
     [1..<1 + length (split_on CHR 0x0A before)]"
  by (simp add: diffLines_edit_script before_side after_side del: upt_Suc)

text \<open>C37. A line diff keeps as many lines unchanged as any common subsequence of the two texts has:
  no diff with fewer removed and added lines exists.\<close>

theorem diffLines_minimal:
  assumes "subseq zs (split_on CHR 0x0A before)" and "subseq zs (split_on CHR 0x0A after)"
  shows "length zs \<le> context_count (diffLines before after)"
  using lcs_len_maximal [OF assms] by (simp add: diffLines_edit_script context_lcs)

theorem diffLines_minimal_witness:
  "length [''a'', ''c''] \<le> context_count (diffLines [CHR ''a'', CHR 0x0A, CHR ''b'', CHR 0x0A, CHR ''c'']
     [CHR ''a'', CHR 0x0A, CHR ''c''])"
  by (rule diffLines_minimal) (simp_all add: list_emb_code)

end
