(* ===== verification/ReleaseDiff.thy ===== *)
theory ReleaseDiff
  imports LineDiff ReleaseTypes EvalAggregate "HOL-Library.Multiset"
begin

text \<open>
  The diff of two releases (backend/src/lambda/utils/release-diff.ts): the change of every
  constituent, the movement of the score vector, and the truncation of a large change. Two facts
  of the platform are arguments: the UTF-8 size of a value's JSON text and the order of
  \<open>localeCompare\<close>.
\<close>

section \<open>Data\<close>

datatype constituent_kind =
    K_agentConfig | K_prompt | K_execSpec | K_model | K_tools | K_policy | K_evalEvidence | K_scoreVector

record dimension_movement =
  mov_dimension :: dimension
  mov_before :: "dimension_aggregate option"
  mov_after :: "dimension_aggregate option"

text \<open>What \<open>before\<close> and \<open>after\<close> hold, kind by kind, or the summary of a truncated change.\<close>

datatype payload =
    P_snapshot content_snapshot
  | P_execSpec string nat
  | P_model model_config_snapshot
  | P_tools "content_snapshot list" "(string \<times> content_snapshot) list"
  | P_policy policy_snapshot
  | P_evidence eval_evidence
  | P_scores "dimension_aggregate option list"
  | P_truncatedSummaryBytes nat

datatype field_value = FV_str string | FV_strs "string list"

record release_change =
  chg_kind :: constituent_kind
  chg_key :: string
  chg_before :: "payload option"
  chg_after :: "payload option"
  chg_lineDiff :: "line_diff_entry list option"
  chg_fieldChanges :: "(string \<times> field_value \<times> field_value) list option"
  chg_movements :: "dimension_movement list option"
  chg_truncated :: bool

record text_runtime =
  rt_payload_bytes :: "payload option \<Rightarrow> payload option \<Rightarrow> line_diff_entry list option \<Rightarrow> nat"
  rt_value_bytes :: "payload \<Rightarrow> nat"
  rt_locale_le :: "string \<Rightarrow> string \<Rightarrow> bool"

definition change :: "constituent_kind \<Rightarrow> string \<Rightarrow> payload option \<Rightarrow> payload option \<Rightarrow> release_change" where
  "change k key before after =
     \<lparr>chg_kind = k, chg_key = key, chg_before = before, chg_after = after, chg_lineDiff = None,
      chg_fieldChanges = None, chg_movements = None, chg_truncated = False\<rparr>"

definition MAX_CONSTITUENT_DIFF_BYTES :: nat where
  "MAX_CONSTITUENT_DIFF_BYTES = 256 * 1024"

definition applyTruncation :: "text_runtime \<Rightarrow> release_change \<Rightarrow> release_change" where
  "applyTruncation rt c =
     (let payloadBytes = rt_payload_bytes rt (chg_before c) (chg_after c) (chg_lineDiff c);
          summary = map_option (\<lambda>v. P_truncatedSummaryBytes (rt_value_bytes rt v))
      in if payloadBytes \<le> MAX_CONSTITUENT_DIFF_BYTES then c
         else (change (chg_kind c) (chg_key c) (summary (chg_before c)) (summary (chg_after c)))
                \<lparr>chg_truncated := True\<rparr>)"

section \<open>Maps, sets and stable sorting\<close>

text \<open>The keys of a \<open>Map\<close> or \<open>Set\<close>, in the order of first insertion; a \<open>Map\<close> built from
  pairs keeps the last value of a key.\<close>

definition first_occurrences :: "'a list \<Rightarrow> 'a list" where
  "first_occurrences xs = rev (remdups (rev xs))"

definition js_map :: "('k \<times> 'v) list \<Rightarrow> 'k \<Rightarrow> 'v option" where
  "js_map kvs = map_of (rev kvs)"

fun insert_by :: "('a \<Rightarrow> 'a \<Rightarrow> bool) \<Rightarrow> 'a \<Rightarrow> 'a list \<Rightarrow> 'a list" where
  "insert_by le x [] = [x]"
| "insert_by le x (y # ys) = (if le x y then x # y # ys else y # insert_by le x ys)"

definition sort_by :: "('a \<Rightarrow> 'a \<Rightarrow> bool) \<Rightarrow> 'a list \<Rightarrow> 'a list" where
  "sort_by le xs = foldr (insert_by le) xs []"

definition sort_locale :: "text_runtime \<Rightarrow> ('a \<Rightarrow> string) \<Rightarrow> 'a list \<Rightarrow> 'a list" where
  "sort_locale rt key xs = sort_by (\<lambda>x y. rt_locale_le rt (key x) (key y)) xs"

section \<open>The diff of each constituent\<close>

definition contentSnapshotEqual :: "content_snapshot option \<Rightarrow> content_snapshot option \<Rightarrow> bool" where
  "contentSnapshotEqual a b = (case (a, b) of
       (None, None) \<Rightarrow> True
     | (Some x, Some y) \<Rightarrow> cs_digest x = cs_digest y
     | _ \<Rightarrow> False)"

definition diffAgentConfig ::
  "text_runtime \<Rightarrow> content_snapshot \<Rightarrow> content_snapshot \<Rightarrow> release_change option" where
  "diffAgentConfig rt before after =
     (if contentSnapshotEqual (Some before) (Some after) then None
      else Some (applyTruncation rt
        ((change K_agentConfig ''agentConfig'' (Some (P_snapshot before)) (Some (P_snapshot after)))
           \<lparr>chg_lineDiff := Some (diffLines (cs_content before) (cs_content after))\<rparr>)))"

definition prompt_change ::
  "text_runtime \<Rightarrow> (string \<times> content_snapshot) list \<Rightarrow> (string \<times> content_snapshot) list \<Rightarrow> string \<Rightarrow>
   release_change option" where
  "prompt_change rt before after name =
     (let b = map_of before name; a = map_of after name
      in if contentSnapshotEqual b a then None
         else Some (applyTruncation rt
           ((change K_prompt name (map_option P_snapshot b) (map_option P_snapshot a))
              \<lparr>chg_lineDiff := (case (b, a) of
                  (Some x, Some y) \<Rightarrow> Some (diffLines (cs_content x) (cs_content y))
                | _ \<Rightarrow> None)\<rparr>)))"

definition diffPrompts ::
  "text_runtime \<Rightarrow> (string \<times> content_snapshot) list \<Rightarrow> (string \<times> content_snapshot) list \<Rightarrow>
   release_change list" where
  "diffPrompts rt before after =
     (let names = first_occurrences (map fst before @ map fst after)
      in sort_locale rt chg_key (List.map_filter (prompt_change rt before after) names))"

definition diffExecSpec ::
  "text_runtime \<Rightarrow> 'a constituents_scheme \<Rightarrow> 'b constituents_scheme \<Rightarrow> release_change option" where
  "diffExecSpec rt before after =
     (if con_execSpecId before = con_execSpecId after \<and>
         con_execSpecVersion before = con_execSpecVersion after
      then None
      else Some (applyTruncation rt (change K_execSpec ''execSpec''
        (Some (P_execSpec (con_execSpecId before) (con_execSpecVersion before)))
        (Some (P_execSpec (con_execSpecId after) (con_execSpecVersion after))))))"

definition modelSnapshotEqual :: "model_config_snapshot option \<Rightarrow> model_config_snapshot option \<Rightarrow> bool" where
  "modelSnapshotEqual a b = (case (a, b) of
       (None, None) \<Rightarrow> True
     | (Some x, Some y) \<Rightarrow> mcs_digest x = mcs_digest y
     | _ \<Rightarrow> False)"

definition model_change ::
  "text_runtime \<Rightarrow> model_config_snapshot list \<Rightarrow> model_config_snapshot list \<Rightarrow> string \<Rightarrow>
   release_change option" where
  "model_change rt before after slot =
     (let b = js_map (map (\<lambda>m. (mcs_slot m, m)) before) slot;
          a = js_map (map (\<lambda>m. (mcs_slot m, m)) after) slot
      in if modelSnapshotEqual b a then None
         else Some (applyTruncation rt
           (change K_model slot (map_option P_model b) (map_option P_model a))))"

definition diffModelConfigs ::
  "text_runtime \<Rightarrow> model_config_snapshot list \<Rightarrow> model_config_snapshot list \<Rightarrow> release_change list" where
  "diffModelConfigs rt before after =
     (let slots = first_occurrences (map mcs_slot before @ map mcs_slot after)
      in sort_locale rt chg_key (List.map_filter (model_change rt before after) slots))"

text \<open>The values of a \<open>Map\<close> built from pairs, in the order its entries are visited.\<close>

definition js_map_values :: "('k \<times> 'v) list \<Rightarrow> 'v list" where
  "js_map_values kvs = map (\<lambda>k. the (js_map kvs k)) (first_occurrences (map fst kvs))"

definition by_id :: "content_snapshot list \<Rightarrow> (string \<times> content_snapshot) list" where
  "by_id ts = map (\<lambda>t. (cs_sourceId t, t)) ts"

text \<open>What only one side has, and this side's snapshots of what both have but differ in.\<close>

definition only_here :: "content_snapshot list \<Rightarrow> content_snapshot list \<Rightarrow> content_snapshot list" where
  "only_here here there =
     filter (\<lambda>t. js_map (by_id there) (cs_sourceId t) = None) (js_map_values (by_id here))"

definition changed_tools ::
  "content_snapshot list \<Rightarrow> content_snapshot list \<Rightarrow> (string \<times> content_snapshot \<times> content_snapshot) list" where
  "changed_tools before after =
     List.map_filter
       (\<lambda>a. case js_map (by_id before) (cs_sourceId a) of
              None \<Rightarrow> None
            | Some b \<Rightarrow> if contentSnapshotEqual (Some b) (Some a) then None
                        else Some (cs_sourceId a, b, a))
       (js_map_values (by_id after))"

definition diffTools ::
  "text_runtime \<Rightarrow> content_snapshot list \<Rightarrow> content_snapshot list \<Rightarrow> release_change option" where
  "diffTools rt before after =
     (let onlyAfter = only_here after before;
          onlyBefore = only_here before after;
          changed = changed_tools before after;
          changedBefore = map (\<lambda>(i, b, a). (i, b)) changed;
          changedAfter = map (\<lambda>(i, b, a). (i, a)) changed
      in if length onlyBefore = 0 \<and> length onlyAfter = 0 \<and> length changedBefore = 0 then None
         else Some (applyTruncation rt (change K_tools ''tools''
           (Some (P_tools (sort_locale rt cs_sourceId onlyBefore) (sort_locale rt fst changedBefore)))
           (Some (P_tools (sort_locale rt cs_sourceId onlyAfter) (sort_locale rt fst changedAfter))))))"

definition grants_only :: "string list \<Rightarrow> string list \<Rightarrow> string list" where
  "grants_only here there = sort (filter (\<lambda>g. g \<notin> set there) (first_occurrences here))"

definition policy_field_changes ::
  "policy_snapshot \<Rightarrow> policy_snapshot \<Rightarrow> (string \<times> field_value \<times> field_value) list" where
  "policy_field_changes before after =
     (let grantsAdded = grants_only (ps_authorityUnitGrantIds after) (ps_authorityUnitGrantIds before);
          grantsRemoved = grants_only (ps_authorityUnitGrantIds before) (ps_authorityUnitGrantIds after)
      in (if ps_enforcementMode before \<noteq> ps_enforcementMode after
          then [(''enforcementMode'', FV_str (ps_enforcementMode before), FV_str (ps_enforcementMode after))]
          else []) @
         (if ps_ruleSetVersion before \<noteq> ps_ruleSetVersion after
          then [(''ruleSetVersion'', FV_str (ps_ruleSetVersion before), FV_str (ps_ruleSetVersion after))]
          else []) @
         (if length grantsAdded > 0 \<or> length grantsRemoved > 0
          then [(''authorityUnitGrantIds'', FV_strs grantsRemoved, FV_strs grantsAdded)]
          else []))"

definition diffPolicy :: "text_runtime \<Rightarrow> policy_snapshot \<Rightarrow> policy_snapshot \<Rightarrow> release_change option" where
  "diffPolicy rt before after =
     (let fieldChanges = policy_field_changes before after
      in if length fieldChanges = 0 then None
         else Some (applyTruncation rt
           ((change K_policy ''policy'' (Some (P_policy before)) (Some (P_policy after)))
              \<lparr>chg_fieldChanges := Some fieldChanges\<rparr>)))"

definition evalEvidenceEqual :: "eval_evidence \<Rightarrow> eval_evidence \<Rightarrow> bool" where
  "evalEvidenceEqual a b \<longleftrightarrow>
     ev_evalRunId a = ev_evalRunId b \<and> ev_evalSuiteId a = ev_evalSuiteId b \<and>
     ev_evalSuiteVersion a = ev_evalSuiteVersion b"

definition diffEvalEvidence :: "text_runtime \<Rightarrow> eval_evidence \<Rightarrow> eval_evidence \<Rightarrow> release_change option" where
  "diffEvalEvidence rt before after =
     (if evalEvidenceEqual before after then None
      else Some (applyTruncation rt
        (change K_evalEvidence ''evalEvidence'' (Some (P_evidence before)) (Some (P_evidence after)))))"

section \<open>Movement of the score vector\<close>

fun dimension_name :: "dimension \<Rightarrow> string" where
  "dimension_name Task_success = ''task_success''"
| "dimension_name Policy_compliance = ''policy_compliance''"
| "dimension_name Tool_accuracy = ''tool_accuracy''"
| "dimension_name Latency = ''latency''"
| "dimension_name Cost = ''cost''"
| "dimension_name Groundedness_citation = ''groundedness_citation''"
| "dimension_name Groundedness_faithfulness = ''groundedness_faithfulness''"
| "dimension_name Trajectory = ''trajectory''"

definition by_dim :: "dimension_aggregate list \<Rightarrow> (dimension \<times> dimension_aggregate) list" where
  "by_dim aggs = map (\<lambda>d. (agg_dimension d, d)) aggs"

definition movement ::
  "dimension_aggregate list \<Rightarrow> dimension_aggregate list \<Rightarrow> dimension \<Rightarrow> dimension_movement option" where
  "movement before after d =
     (let b = js_map (by_dim before) d; a = js_map (by_dim after) d
      in if b \<noteq> None \<and> a \<noteq> None \<and> b = a then None
         else Some \<lparr>mov_dimension = d, mov_before = b, mov_after = a\<rparr>)"

definition diffScoreVectors ::
  "text_runtime \<Rightarrow> dimension_aggregate list \<Rightarrow> dimension_aggregate list \<Rightarrow> dimension_movement list" where
  "diffScoreVectors rt before after =
     (let dims = first_occurrences (map agg_dimension before @ map agg_dimension after)
      in sort_locale rt (\<lambda>m. dimension_name (mov_dimension m))
           (List.map_filter (movement before after) dims))"

definition diffScoreVectorChange ::
  "text_runtime \<Rightarrow> dimension_aggregate list \<Rightarrow> dimension_aggregate list \<Rightarrow> release_change option" where
  "diffScoreVectorChange rt before after =
     (let movements = diffScoreVectors rt before after
      in if length movements = 0 then None
         else Some (applyTruncation rt
           ((change K_scoreVector ''scoreVector''
               (Some (P_scores (map mov_before movements))) (Some (P_scores (map mov_after movements))))
              \<lparr>chg_movements := Some movements\<rparr>)))"

section \<open>The diff of two releases\<close>

definition opt_list :: "'a option \<Rightarrow> 'a list" where
  "opt_list x = (case x of None \<Rightarrow> [] | Some v \<Rightarrow> [v])"

definition releaseDiff ::
  "text_runtime \<Rightarrow> 'a constituents_scheme \<Rightarrow> 'b constituents_scheme \<Rightarrow> release_change list" where
  "releaseDiff rt a b =
     opt_list (diffAgentConfig rt (con_agentConfig a) (con_agentConfig b)) @
     diffPrompts rt (con_promptVersions a) (con_promptVersions b) @
     opt_list (diffExecSpec rt a b) @
     diffModelConfigs rt (con_modelConfigSnapshots a) (con_modelConfigSnapshots b) @
     opt_list (diffTools rt (con_toolConfigs a) (con_toolConfigs b)) @
     opt_list (diffPolicy rt (con_policySnapshot a) (con_policySnapshot b)) @
     opt_list (diffEvalEvidence rt (con_evalEvidence a) (con_evalEvidence b))"

definition releaseDiffWithScoreVectors ::
  "text_runtime \<Rightarrow> 'a constituents_scheme \<Rightarrow> 'b constituents_scheme \<Rightarrow> dimension_aggregate list \<Rightarrow>
   dimension_aggregate list \<Rightarrow> release_change list" where
  "releaseDiffWithScoreVectors rt a b scoreVectorA scoreVectorB =
     releaseDiff rt a b @ opt_list (diffScoreVectorChange rt scoreVectorA scoreVectorB)"

section \<open>Sorting and maps\<close>

lemma set_first_occurrences [simp]: "set (first_occurrences xs) = set xs"
  by (simp add: first_occurrences_def)

lemma distinct_first_occurrences [simp]: "distinct (first_occurrences xs)"
  by (simp add: first_occurrences_def)

lemma mset_insert_by [simp]: "mset (insert_by le x xs) = add_mset x (mset xs)"
  by (induction xs) auto

lemma mset_sort_by [simp]: "mset (sort_by le xs) = mset xs"
  unfolding sort_by_def by (induction xs) auto

lemma mset_sort_locale [simp]: "mset (sort_locale rt key xs) = mset xs"
  by (simp add: sort_locale_def)

lemma set_sort_locale [simp]: "set (sort_locale rt key xs) = set xs"
  by (metis mset_sort_locale set_mset_mset)

lemma sort_locale_Nil_iff [simp]: "sort_locale rt key xs = [] \<longleftrightarrow> xs = []"
  by (metis mset_sort_locale mset_zero_iff)

lemma map_filter_Nil_iff: "List.map_filter f xs = [] \<longleftrightarrow> (\<forall>x \<in> set xs. f x = None)"
  by (auto simp: List.map_filter_def filter_empty_conv)

lemma set_map_filter_iff: "y \<in> set (List.map_filter f xs) \<longleftrightarrow> (\<exists>x \<in> set xs. f x = Some y)"
  by (force simp: List.map_filter_def)

lemma js_map_None_iff: "js_map kvs k = None \<longleftrightarrow> k \<notin> fst ` set kvs"
  by (simp add: js_map_def map_of_eq_None_iff)

lemma js_map_SomeD: "js_map kvs k = Some v \<Longrightarrow> (k, v) \<in> set kvs"
  unfolding js_map_def by (metis map_of_SomeD set_rev)

lemma set_js_map_values: "set (js_map_values kvs) = {v. \<exists>k. js_map kvs k = Some v}"
proof -
  have "fst ` set kvs = dom (js_map kvs)"
    using js_map_None_iff [of kvs] by (metis (no_types) domIff subsetI subset_antisym)
  then show ?thesis
    by (auto simp: js_map_values_def dom_def image_iff) (metis option.sel)
qed

lemma js_map_by_id: "js_map (by_id ts) i = Some t \<Longrightarrow> cs_sourceId t = i"
  by (auto simp: by_id_def dest!: js_map_SomeD)

lemma js_map_values_all:
  "(\<forall>t \<in> set (js_map_values (by_id ts)). P (cs_sourceId t) t) \<longleftrightarrow>
    (\<forall>i t. js_map (by_id ts) i = Some t \<longrightarrow> P i t)"
  unfolding set_js_map_values using js_map_by_id by fastforce

lemma only_here_Nil_iff:
  "only_here here there = [] \<longleftrightarrow>
    (\<forall>i t. js_map (by_id here) i = Some t \<longrightarrow> js_map (by_id there) i \<noteq> None)"
  unfolding only_here_def filter_empty_conv
  by (rule js_map_values_all [where P = "\<lambda>i t. js_map (by_id there) i \<noteq> None"])

lemma changed_tools_Nil_iff:
  "changed_tools before after = [] \<longleftrightarrow>
    (\<forall>i a. js_map (by_id after) i = Some a \<longrightarrow>
       js_map (by_id before) i = None \<or> contentSnapshotEqual (js_map (by_id before) i) (Some a))"
  unfolding changed_tools_def map_filter_Nil_iff
    js_map_values_all [symmetric, where P = "\<lambda>i a. js_map (by_id before) i = None \<or>
      contentSnapshotEqual (js_map (by_id before) i) (Some a)"]
  by (rule ball_cong [OF refl]) (auto split: option.split)

lemma contentSnapshotEqual_iff:
  "contentSnapshotEqual a b \<longleftrightarrow> map_option cs_digest a = map_option cs_digest b"
  by (auto simp: contentSnapshotEqual_def split: option.split)

lemma modelSnapshotEqual_iff:
  "modelSnapshotEqual a b \<longleftrightarrow> map_option mcs_digest a = map_option mcs_digest b"
  by (auto simp: modelSnapshotEqual_def split: option.split)

section \<open>The diff reports exactly what differs\<close>

definition tag :: "release_change \<Rightarrow> constituent_kind \<times> string" where
  "tag c = (chg_kind c, chg_key c)"

definition same_policy :: "policy_snapshot \<Rightarrow> policy_snapshot \<Rightarrow> bool" where
  "same_policy p q \<longleftrightarrow>
     ps_enforcementMode p = ps_enforcementMode q \<and> ps_ruleSetVersion p = ps_ruleSetVersion q \<and>
     set (ps_authorityUnitGrantIds p) = set (ps_authorityUnitGrantIds q)"

definition tool_digests :: "content_snapshot list \<Rightarrow> string \<Rightarrow> string option" where
  "tool_digests ts i = map_option cs_digest (js_map (by_id ts) i)"

text \<open>Two releases differ in a constituent: by digest where it has one.\<close>

fun differs :: "'a constituents_scheme \<Rightarrow> 'b constituents_scheme \<Rightarrow> constituent_kind \<times> string \<Rightarrow> bool" where
  "differs a b (K_agentConfig, key) \<longleftrightarrow>
     key = ''agentConfig'' \<and> cs_digest (con_agentConfig a) \<noteq> cs_digest (con_agentConfig b)"
| "differs a b (K_prompt, key) \<longleftrightarrow>
     map_option cs_digest (map_of (con_promptVersions a) key) \<noteq>
     map_option cs_digest (map_of (con_promptVersions b) key)"
| "differs a b (K_execSpec, key) \<longleftrightarrow>
     key = ''execSpec'' \<and>
     (con_execSpecId a, con_execSpecVersion a) \<noteq> (con_execSpecId b, con_execSpecVersion b)"
| "differs a b (K_model, key) \<longleftrightarrow>
     map_option mcs_digest (js_map (map (\<lambda>m. (mcs_slot m, m)) (con_modelConfigSnapshots a)) key) \<noteq>
     map_option mcs_digest (js_map (map (\<lambda>m. (mcs_slot m, m)) (con_modelConfigSnapshots b)) key)"
| "differs a b (K_tools, key) \<longleftrightarrow>
     key = ''tools'' \<and> tool_digests (con_toolConfigs a) \<noteq> tool_digests (con_toolConfigs b)"
| "differs a b (K_policy, key) \<longleftrightarrow>
     key = ''policy'' \<and> \<not> same_policy (con_policySnapshot a) (con_policySnapshot b)"
| "differs a b (K_evalEvidence, key) \<longleftrightarrow>
     key = ''evalEvidence'' \<and> \<not> evalEvidenceEqual (con_evalEvidence a) (con_evalEvidence b)"
| "differs a b (K_scoreVector, key) \<longleftrightarrow> False"

lemma tag_applyTruncation [simp]: "tag (applyTruncation rt c) = tag c"
  by (simp add: tag_def applyTruncation_def change_def Let_def)

lemma tag_change [simp]:
  "tag (change k key b a) = (k, key)"
  "tag (c\<lparr>chg_lineDiff := l\<rparr>) = tag c" "tag (c\<lparr>chg_fieldChanges := f\<rparr>) = tag c"
  "tag (c\<lparr>chg_movements := m\<rparr>) = tag c"
  by (simp_all add: tag_def change_def)

lemma tags_opt_list [simp]:
  "map tag (opt_list None) = []" "map tag (opt_list (Some c)) = [tag c]"
  by (simp_all add: opt_list_def)

lemma tags_agentConfig:
  "map tag (opt_list (diffAgentConfig rt b a)) =
    (if cs_digest b \<noteq> cs_digest a then [(K_agentConfig, ''agentConfig'')] else [])"
  by (simp add: diffAgentConfig_def contentSnapshotEqual_def)

lemma tags_execSpec:
  "map tag (opt_list (diffExecSpec rt a b)) =
    (if (con_execSpecId a, con_execSpecVersion a) \<noteq> (con_execSpecId b, con_execSpecVersion b)
     then [(K_execSpec, ''execSpec'')] else [])"
  by (simp add: diffExecSpec_def)

lemma tags_evidence:
  "map tag (opt_list (diffEvalEvidence rt a b)) =
    (if evalEvidenceEqual a b then [] else [(K_evalEvidence, ''evalEvidence'')])"
  by (simp add: diffEvalEvidence_def)

lemma tool_digests_eq_iff:
  "tool_digests before = tool_digests after \<longleftrightarrow>
    only_here before after = [] \<and> only_here after before = [] \<and> changed_tools before after = []"
proof
  assume eq: "tool_digests before = tool_digests after"
  have at: "map_option cs_digest (js_map (by_id before) i) = map_option cs_digest (js_map (by_id after) i)" for i
    using fun_cong [OF eq, of i] by (simp add: tool_digests_def)
  show "only_here before after = [] \<and> only_here after before = [] \<and> changed_tools before after = []"
    unfolding only_here_Nil_iff changed_tools_Nil_iff contentSnapshotEqual_iff
    by (metis at option.map_disc_iff option.distinct(1))
next
  assume "only_here before after = [] \<and> only_here after before = [] \<and> changed_tools before after = []"
  then have "map_option cs_digest (js_map (by_id before) i) = map_option cs_digest (js_map (by_id after) i)" for i
    unfolding only_here_Nil_iff changed_tools_Nil_iff contentSnapshotEqual_iff
    by (cases "js_map (by_id before) i"; cases "js_map (by_id after) i") fastforce+
  then show "tool_digests before = tool_digests after"
    by (auto simp: tool_digests_def)
qed

lemma tags_tools:
  "map tag (opt_list (diffTools rt a b)) =
    (if tool_digests a = tool_digests b then [] else [(K_tools, ''tools'')])"
  unfolding tool_digests_eq_iff by (auto simp: diffTools_def Let_def)

lemma grants_only_Nil_iff [simp]: "grants_only here there = [] \<longleftrightarrow> set here \<subseteq> set there"
proof -
  have "grants_only here there = [] \<longleftrightarrow> set (grants_only here there) = {}"
    by simp
  also have "\<dots> \<longleftrightarrow> set here \<subseteq> set there"
    by (auto simp: grants_only_def)
  finally show ?thesis .
qed

lemma tags_policy:
  "map tag (opt_list (diffPolicy rt p q)) = (if same_policy p q then [] else [(K_policy, ''policy'')])"
  by (auto simp: diffPolicy_def policy_field_changes_def same_policy_def Let_def)

lemma tags_sorted:
  assumes "\<And>n c. f n = Some c \<Longrightarrow> tag c = (k, n)"
  shows "set (map tag (sort_locale rt key (List.map_filter f ns))) = {(k, n) |n. n \<in> set ns \<and> f n \<noteq> None}"
    and "distinct ns \<Longrightarrow> distinct (map tag (sort_locale rt key (List.map_filter f ns)))"
proof -
  have tags: "map tag (List.map_filter f ns) = map (Pair k) (filter (\<lambda>n. f n \<noteq> None) ns)" for ns
    using assms by (induction ns) (auto simp: List.map_filter_simps split: option.split)
  have same: "mset (map tag (sort_locale rt key (List.map_filter f ns))) =
      mset (map (Pair k) (filter (\<lambda>n. f n \<noteq> None) ns))"
    unfolding mset_map mset_sort_locale using arg_cong [OF tags, of mset] by simp
  then show "set (map tag (sort_locale rt key (List.map_filter f ns))) = {(k, n) |n. n \<in> set ns \<and> f n \<noteq> None}"
    unfolding mset_eq_setD [OF same] by auto
  assume "distinct ns"
  then have "distinct (map (Pair k) (filter (\<lambda>n. f n \<noteq> None) ns))"
    by (simp add: distinct_map inj_on_def)
  with same show "distinct (map tag (sort_locale rt key (List.map_filter f ns)))"
    by (metis mset_eq_imp_distinct_iff)
qed

lemma prompt_change_iff:
  "(prompt_change rt before after n \<noteq> None) =
     (map_option cs_digest (map_of before n) \<noteq> map_option cs_digest (map_of after n))"
  "prompt_change rt before after n = Some c \<Longrightarrow> tag c = (K_prompt, n)"
  by (auto simp: prompt_change_def contentSnapshotEqual_iff Let_def split: if_splits)

lemma model_change_iff:
  "(model_change rt before after n \<noteq> None) =
     (map_option mcs_digest (js_map (map (\<lambda>m. (mcs_slot m, m)) before) n) \<noteq>
      map_option mcs_digest (js_map (map (\<lambda>m. (mcs_slot m, m)) after) n))"
  "model_change rt before after n = Some c \<Longrightarrow> tag c = (K_model, n)"
  by (auto simp: model_change_def modelSnapshotEqual_iff Let_def split: if_splits)

lemma tags_prompts:
  "set (map tag (diffPrompts rt before after)) =
    {(K_prompt, n) |n. map_option cs_digest (map_of before n) \<noteq> map_option cs_digest (map_of after n)}"
  "distinct (map tag (diffPrompts rt before after))"
proof -
  have "n \<in> fst ` set before \<or> n \<in> fst ` set after"
    if "map_option cs_digest (map_of before n) \<noteq> map_option cs_digest (map_of after n)" for n
    using that by (metis map_of_eq_None_iff)
  then show "set (map tag (diffPrompts rt before after)) =
      {(K_prompt, n) |n. map_option cs_digest (map_of before n) \<noteq> map_option cs_digest (map_of after n)}"
    unfolding diffPrompts_def Let_def
    by (subst tags_sorted(1) [where k = K_prompt]) (auto simp: prompt_change_iff simp del: not_None_eq)
qed (simp add: diffPrompts_def Let_def tags_sorted(2) [OF prompt_change_iff(2)])

lemma tags_models:
  "set (map tag (diffModelConfigs rt before after)) =
    {(K_model, n) |n. map_option mcs_digest (js_map (map (\<lambda>m. (mcs_slot m, m)) before) n) \<noteq>
                      map_option mcs_digest (js_map (map (\<lambda>m. (mcs_slot m, m)) after) n)}"
  "distinct (map tag (diffModelConfigs rt before after))"
proof -
  have none: "js_map (map (\<lambda>m. (mcs_slot m, m)) ms) n = None" if "n \<notin> mcs_slot ` set ms" for ms n
    using that by (auto simp: js_map_None_iff)
  have "n \<in> mcs_slot ` set before \<or> n \<in> mcs_slot ` set after"
    if "map_option mcs_digest (js_map (map (\<lambda>m. (mcs_slot m, m)) before) n) \<noteq>
        map_option mcs_digest (js_map (map (\<lambda>m. (mcs_slot m, m)) after) n)" for n
    using that none [of n before] none [of n after] by (cases "n \<in> mcs_slot ` set before") auto
  then show "set (map tag (diffModelConfigs rt before after)) =
      {(K_model, n) |n. map_option mcs_digest (js_map (map (\<lambda>m. (mcs_slot m, m)) before) n) \<noteq>
                        map_option mcs_digest (js_map (map (\<lambda>m. (mcs_slot m, m)) after) n)}"
    unfolding diffModelConfigs_def Let_def
    by (subst tags_sorted(1) [where k = K_model]) (auto simp: model_change_iff simp del: not_None_eq)
qed (simp add: diffModelConfigs_def Let_def tags_sorted(2) [OF model_change_iff(2)])


text \<open>No change of a diff is larger than the cap, unless it was replaced by its summary.\<close>

theorem releaseDiff_bounded:
  "list_all (\<lambda>c. if chg_truncated c then chg_lineDiff c = None \<and> chg_movements c = None
       else rt_payload_bytes rt (chg_before c) (chg_after c) (chg_lineDiff c) \<le> MAX_CONSTITUENT_DIFF_BYTES)
     (releaseDiffWithScoreVectors rt a b sa sb)"
  (is "list_all ?P _")
proof -
  have cut: "?P (applyTruncation rt c)" if "\<not> chg_truncated c" for c
    using that by (auto simp: applyTruncation_def change_def Let_def)
  have fresh: "\<not> chg_truncated (change k key x y)" for k key x y
    by (simp add: change_def)
  have opt: "list_all ?P (opt_list x)" if "\<And>c. x = Some c \<Longrightarrow> ?P c" for x
    using that by (cases x) (simp_all add: opt_list_def)
  have many: "list_all ?P (sort_locale rt key (List.map_filter f ns))"
    if "\<And>n c. f n = Some c \<Longrightarrow> ?P c" for key f and ns :: "string list"
    using that by (auto simp: list_all_iff set_map_filter_iff)
  have single:
    "diffAgentConfig rt x y = Some c \<Longrightarrow> ?P c" "diffExecSpec rt a b = Some c \<Longrightarrow> ?P c"
    "diffTools rt ts us = Some c \<Longrightarrow> ?P c" "diffPolicy rt p q = Some c \<Longrightarrow> ?P c"
    "diffEvalEvidence rt e f = Some c \<Longrightarrow> ?P c" "diffScoreVectorChange rt u v = Some c \<Longrightarrow> ?P c"
    for x y ts us p q e f u v c
    using cut fresh
    by (auto simp: diffAgentConfig_def diffExecSpec_def diffTools_def diffPolicy_def
        diffEvalEvidence_def diffScoreVectorChange_def Let_def simp del: split_paired_All
        split del: if_split split: if_splits)
  have keyed: "prompt_change rt ps qs n = Some c \<Longrightarrow> ?P c" "model_change rt ms ns n = Some c \<Longrightarrow> ?P c"
    for ps qs n c ms ns
    using cut fresh
    by (auto simp: prompt_change_def model_change_def Let_def split del: if_split split: if_splits)
  show ?thesis
    unfolding releaseDiffWithScoreVectors_def releaseDiff_def diffPrompts_def diffModelConfigs_def Let_def
      list_all_append
    by (intro conjI opt many) (fact single keyed)+
qed

end
