(* ===== verification/RollbackPolicy.thy ===== *)
theory RollbackPolicy
  imports PolicyStore EvalAggregate
begin

text \<open>
  The pure rollback decision for one candidate arm
  (\<open>evaluateRollback\<close> of backend/src/lambda/utils/rollback-policy.ts) and the percentile the
  metrics reader uses (\<open>percentile\<close> of utils/rollback-metrics-reader.ts). A measurement that is
  \<open>null\<close> is not available for the arm and never triggers.
\<close>

section \<open>Code\<close>

datatype rollback_metric =
    M_costPerInvocation
  | M_modelCallLatencyP95
  | M_errorRate
  | M_policyViolationFindingRate
  | M_driftScore

record candidate_arm_metrics =
  cam_costPerInvocationMicros :: "rat option"
  cam_modelCallLatencyP95Ms :: "rat option"
  cam_errorRate :: "rat option"
  cam_policyViolationFindingRate :: "rat option"
  cam_driftScore :: "rat option"
  cam_sampleCount :: nat

record rollback_breach =
  br_metric :: rollback_metric
  br_observedValue :: rat
  br_threshold :: rat
  br_sampleCount :: nat
  br_action :: rollback_action

datatype rollback_evaluation =
    InsufficientData string
  | Healthy
  | Breach rollback_breach

definition METRIC_ORDER :: "rollback_metric list" where
  "METRIC_ORDER =
     [M_costPerInvocation, M_modelCallLatencyP95, M_errorRate, M_policyViolationFindingRate, M_driftScore]"

fun metric_threshold :: "rollback_metric \<Rightarrow> rollback_policy \<Rightarrow> rat option" where
  "metric_threshold M_costPerInvocation p = costPerInvocationMaxMicros p"
| "metric_threshold M_modelCallLatencyP95 p = latencyP95MaxMs p"
| "metric_threshold M_errorRate p = errorRateMax p"
| "metric_threshold M_policyViolationFindingRate p = policyViolationFindingRateMax p"
| "metric_threshold M_driftScore p = driftScoreMax p"

fun metric_observed :: "rollback_metric \<Rightarrow> candidate_arm_metrics \<Rightarrow> rat option" where
  "metric_observed M_costPerInvocation m = cam_costPerInvocationMicros m"
| "metric_observed M_modelCallLatencyP95 m = cam_modelCallLatencyP95Ms m"
| "metric_observed M_errorRate m = cam_errorRate m"
| "metric_observed M_policyViolationFindingRate m = cam_policyViolationFindingRate m"
| "metric_observed M_driftScore m = cam_driftScore m"

text \<open>The loop over the metrics, in their fixed order.\<close>

fun rollback_loop ::
  "rollback_metric list \<Rightarrow> candidate_arm_metrics \<Rightarrow> rollback_policy \<Rightarrow> rollback_evaluation" where
  "rollback_loop [] m p = Healthy"
| "rollback_loop (name # names) m p =
     (case metric_threshold name p of
        None \<Rightarrow> rollback_loop names m p
      | Some threshold \<Rightarrow>
          (case metric_observed name m of
             None \<Rightarrow> rollback_loop names m p
           | Some observed \<Rightarrow>
               if observed > threshold
               then Breach \<lparr>br_metric = name, br_observedValue = observed, br_threshold = threshold,
                      br_sampleCount = cam_sampleCount m, br_action = rb_action p\<rparr>
               else rollback_loop names m p))"

definition evaluateRollback :: "candidate_arm_metrics \<Rightarrow> rollback_policy \<Rightarrow> rollback_evaluation" where
  "evaluateRollback m p =
     (if \<not> rb_enabled p then InsufficientData ''POLICY_DISABLED''
      else if of_nat (cam_sampleCount m) < rb_minSampleCount p
      then InsufficientData ''BELOW_MIN_SAMPLE_COUNT''
      else rollback_loop METRIC_ORDER m p)"

definition arm_percentile :: "rat list \<Rightarrow> rat \<Rightarrow> rat option" where
  "arm_percentile vals p =
     (if length vals = 0 then None
      else (let sorted_vals = sort vals;
                rank = \<lceil>(p / 100) * of_nat (length sorted_vals)\<rceil>;
                index = min (max (rank - 1) 0) (int (length sorted_vals) - 1)
            in Some (sorted_vals ! nat index)))"

section \<open>When the decision is to roll back\<close>

text \<open>A metric is breached when its threshold is set, it was measured, and the value is strictly above.\<close>

definition breached :: "candidate_arm_metrics \<Rightarrow> rollback_policy \<Rightarrow> rollback_metric \<Rightarrow> bool" where
  "breached m p name \<longleftrightarrow>
     (\<exists>t v. metric_threshold name p = Some t \<and> metric_observed name m = Some v \<and> t < v)"

definition breach_of :: "candidate_arm_metrics \<Rightarrow> rollback_policy \<Rightarrow> rollback_metric \<Rightarrow> rollback_breach" where
  "breach_of m p name =
     \<lparr>br_metric = name, br_observedValue = the (metric_observed name m),
      br_threshold = the (metric_threshold name p), br_sampleCount = cam_sampleCount m,
      br_action = rb_action p\<rparr>"

lemma rollback_loop_find:
  "rollback_loop names m p =
    (case find (breached m p) names of None \<Rightarrow> Healthy | Some n \<Rightarrow> Breach (breach_of m p n))"
  by (induction names) (auto simp: breached_def breach_of_def split: option.split)

lemma set_METRIC_ORDER [simp]: "set METRIC_ORDER = UNIV"
  by (auto simp: METRIC_ORDER_def intro: rollback_metric.exhaust)

lemma list_all_Nil_iff: "list_all P [] \<longleftrightarrow> True"
  by simp

lemma find_first: "find P xs = Some x \<Longrightarrow> P x \<and> (\<exists>pre post. xs = pre @ x # post \<and> list_all (\<lambda>y. \<not> P y) pre)"
proof (induction xs)
  case (Cons y ys)
  show ?case
  proof (cases "P y")
    case True
    with Cons.prems have "P x" "y # ys = [] @ x # ys"
      by simp_all
    then show ?thesis
      by (metis list_all_Nil_iff)
  next
    case False
    with Cons obtain pre post where "P x" "ys = pre @ x # post" "list_all (\<lambda>y. \<not> P y) pre"
      by auto
    with False have "y # ys = (y # pre) @ x # post" "list_all (\<lambda>z. \<not> P z) (y # pre)"
      by simp_all
    with \<open>P x\<close> show ?thesis
      by blast
  qed
qed simp

text \<open>A rollback is decided exactly when the policy is enabled, there are enough samples, and some
  measured metric is strictly above a threshold that is set; the metric reported is the first
  such metric of the fixed order, with its observed value and threshold.\<close>

theorem evaluateRollback_iff:
  "(\<exists>b. evaluateRollback m p = Breach b) =
     (rb_enabled p \<and> rb_minSampleCount p \<le> of_nat (cam_sampleCount m) \<and> (\<exists>name. breached m p name)) \<and>
   (evaluateRollback m p = Breach b \<longrightarrow>
     b = breach_of m p (br_metric b) \<and> breached m p (br_metric b) \<and>
     (\<exists>pre post. METRIC_ORDER = pre @ br_metric b # post \<and> list_all (\<lambda>name. \<not> breached m p name) pre))"
proof
  show "(\<exists>b. evaluateRollback m p = Breach b) =
     (rb_enabled p \<and> rb_minSampleCount p \<le> of_nat (cam_sampleCount m) \<and> (\<exists>name. breached m p name))"
  proof (cases "find (breached m p) METRIC_ORDER")
    case None
    then have "\<not> (\<exists>name. breached m p name)"
      by (simp add: find_None_iff)
    with None show ?thesis
      by (simp add: evaluateRollback_def rollback_loop_find)
  next
    case (Some n)
    with find_first [OF Some] show ?thesis
      by (auto simp: evaluateRollback_def rollback_loop_find)
  qed
  show "evaluateRollback m p = Breach b \<longrightarrow>
     b = breach_of m p (br_metric b) \<and> breached m p (br_metric b) \<and>
     (\<exists>pre post. METRIC_ORDER = pre @ br_metric b # post \<and> list_all (\<lambda>name. \<not> breached m p name) pre)"
    using find_first [of "breached m p" METRIC_ORDER]
    by (auto simp: evaluateRollback_def rollback_loop_find breach_of_def split: if_splits option.splits)
qed

text \<open>The default policy decides nothing, and neither does a policy without thresholds.\<close>

lemma default_policy_never_breaches:
  "\<forall>b. evaluateRollback m DEFAULT_ROLLBACK_POLICY \<noteq> Breach b"
  by (simp add: evaluateRollback_def DEFAULT_ROLLBACK_POLICY_def)

definition sample_metrics :: candidate_arm_metrics where
  "sample_metrics =
     \<lparr>cam_costPerInvocationMicros = Some 900, cam_modelCallLatencyP95Ms = Some 700, cam_errorRate = None,
      cam_policyViolationFindingRate = None, cam_driftScore = None, cam_sampleCount = 25\<rparr>"

definition sample_rollback_policy :: rollback_policy where
  "sample_rollback_policy =
     DEFAULT_ROLLBACK_POLICY\<lparr>rb_enabled := True, costPerInvocationMaxMicros := Some 900,
       latencyP95MaxMs := Some 500, errorRateMax := Some 0\<rparr>"

theorem evaluateRollback_iff_witness:
  "\<exists>b. evaluateRollback sample_metrics sample_rollback_policy = Breach b \<and>
     br_metric b = M_modelCallLatencyP95 \<and> breached sample_metrics sample_rollback_policy (br_metric b)"
proof -
  have run: "evaluateRollback sample_metrics sample_rollback_policy =
      Breach (breach_of sample_metrics sample_rollback_policy M_modelCallLatencyP95)"
    by (simp add: evaluateRollback_def METRIC_ORDER_def sample_metrics_def sample_rollback_policy_def
        DEFAULT_ROLLBACK_POLICY_def breach_of_def)
  from evaluateRollback_iff [THEN conjunct2, THEN mp, OF this] run show ?thesis
    by (auto simp: breach_of_def)
qed

section \<open>The percentile\<close>

text \<open>The reader's percentile is the one of the score aggregation, made total by its clamping.\<close>

lemma arm_percentile_eq: "vals \<noteq> [] \<Longrightarrow> 0 \<le> p \<Longrightarrow> p \<le> 100 \<Longrightarrow> arm_percentile vals p = Some (percentile (sort vals) p)"
proof -
  assume ne: "vals \<noteq> []" and p: "0 \<le> p" "p \<le> 100"
  have "(p / 100) * of_nat (length vals) \<le> of_nat (length vals)"
    using p by (intro mult_left_le_one_le) simp_all
  then have "\<lceil>(p / 100) * of_nat (length vals)\<rceil> \<le> int (length vals)"
    by (simp add: ceiling_le_iff)
  with ne show ?thesis
    by (simp add: arm_percentile_def percentile_def Let_def max.commute)
qed

end
