(* ===== verification/World.thy ===== *)
theory World
  imports PointerStore ReleaseGate PolicyStore Commands ReleaseDiff RollbackPolicy
begin

text \<open>
  The world the handlers act on: the DynamoDB tables, the cache of the governance flag, the
  events published, and a counter of the calls made. What the platform answers is a
  \<open>services\<close> record, indexed by that counter: which calls fail (before or after taking
  effect), the clock, fresh identifiers, configuration parameters. Theorems hold for every such
  record. Rows other parts of the system write are read with missing attributes as \<open>None\<close>.
\<close>

section \<open>Errors\<close>

datatype evidence_failure =
    CROSS_ORG_RELEASE
  | MISSING_EVAL_RUN
  | CROSS_ORG_EVAL_RUN
  | CANDIDATE_RUN_NOT_COMPLETED
  | MISSING_EVAL_SUITE
  | CROSS_ORG_EVAL_SUITE
  | CROSS_ORG_POINTER
  | MISSING_BASELINE_RELEASE
  | CROSS_ORG_BASELINE_RELEASE
  | UNREADABLE_RECORD
  | SDK_ERROR

text \<open>The reasons of a gate decision: the gate's own, or why it could not be evaluated.\<close>

datatype decision_reason =
    Gate gate_reason
  | Evidence evidence_failure
  | Policy_UNREADABLE
  | MONOTONICITY_PREDECESSOR_UNREADABLE
  | MONOTONICITY_VIOLATION "policy_field list"

datatype ceiling_reason = EXCEEDS_CEILING | POLICY_UNREADABLE

datatype exn =
    Sdk raw_error
  | TypeError
  | RangeError
  | ConcurrentPromotionError string string environment
  | UnauthorizedError string
  | AccessDeniedError string
  | ValidationError string
  | PlainError string
  | SecurityError string
  | EvidenceResolutionError evidence_failure
  | ReleaseGateError string "decision_reason list"
  | PromotionLadderError string environment environment "string option"
  | ReleaseApprovalRequiredError string
  | CanaryCeilingError jsnum "rat option" ceiling_reason
  | CanaryStateError string
  | ReleaseNotFoundError string
  | CrossOrgReleaseDiffError string
  | OpaqueReleaseDiffNotFoundError
  | OrgUnresolvedError
  | CrossOrgAccessError
  | MonotonicityError environment environment "policy_field list"
  | UnsupportedField string

section \<open>Rows\<close>

text \<open>A JSON text attribute that should hold an array.\<close>

datatype 'a json_text = Malformed | NotArray | ArrayOf "'a list"

record eval_run =
  run_evalRunId :: string
  run_orgId :: "string option"
  run_status :: string
  run_completedAt :: "string option"
  run_agentTargetVersion :: "string option"
  run_scoreAggregates :: "dimension_aggregate json_text option"

record case_result =
  crs_caseId :: string
  crs_scoreVector :: "dimension_score json_text option"
  crs_scorerVersion :: "string option"

datatype governance_mode = Permissive | Shadow | Strict

record cache_entry =
  ce_enforce :: governance_mode
  ce_effectiveAt :: "string option"
  ce_loadedAt :: rat

datatype finding_category =
  Cat_release_promotion | Cat_release_promotion_approval | Cat_auto_rollback

text \<open>The answer of the release-diff query, and what an approval finding carries of it.\<close>

record release_diff_result =
  rdr_releaseIdA :: string
  rdr_releaseIdB :: string
  rdr_changes :: "release_change list"

datatype approval_diff =
    Full_diff release_diff_result
  | Truncated_diff string string

record rollback_evidence =
  rev_metric :: rollback_metric
  rev_observedValue :: rat
  rev_threshold :: rat
  rev_sampleCount :: nat
  rev_windowStart :: string
  rev_windowEnd :: string
  rev_candidateReleaseId :: string
  rev_stableReleaseId :: string
  rev_fromReleaseId :: string
  rev_toReleaseId :: string
  rev_action :: transition_type
  rev_fromVersion :: nat

text \<open>A row of the governance ledger; the attributes only some writers set are optional. The
  human-readable \<open>reason\<close> is left out: nothing reads it back.\<close>

record ledger_item =
  li_findingId :: string
  li_workflowId :: string
  li_timestamp :: rat
  li_ttl :: rat
  li_permit :: bool
  li_requesting_agent :: string
  li_target_agent :: string
  li_decided_by :: string
  li_category :: finding_category
  li_orgId :: string
  li_environment :: environment
  li_release_id :: string
  li_mode :: "governance_mode option"
  li_score_vector :: "dimension_aggregate list"
  li_gate_reasons :: "decision_reason list"
  li_justification :: "string option"
  li_traceId :: "string option"
  li_runId :: "string option"
  li_diff :: "approval_diff option"
  li_rollback_evidence :: "rollback_evidence option"

text \<open>A row of the cost ledger, as the rollback metrics read it.\<close>

record usage_row =
  ur_costMicros :: "rat option"
  ur_priced :: bool
  ur_latencyMs :: "rat option"
  ur_releaseId :: "string option"
  ur_releaseArm :: "string option"
  ur_evalContext :: bool
  ur_costContext :: "string option"

text \<open>The notifications published, and the metrics emitted.\<close>

record rollback_notice =
  rn_orgId :: string
  rn_agentTargetId :: string
  rn_environment :: environment
  rn_evidence :: rollback_evidence

datatype event =
    RELEASE_POINTER_MOVED pointer
  | Auto_rollback_event rollback_notice

datatype metric =
    GovernanceFlagDefaulted string string
  | AutoRollbackFindingWriteFailure

section \<open>State\<close>

record world =
  w_store :: store
  w_releases :: "(string, agent_release) table"
  w_policies :: "(string, jsval) table"
  w_runs :: "(string, eval_run) table"
  w_suites :: "(string, eval_suite) table"
  w_caseResults :: "(string \<times> string, case_result) table"
  w_ledger :: "(string, ledger_item) table"
  w_usage :: "(string \<times> string, usage_row) table"
  w_flag_cache :: "(string, cache_entry) table"
  w_events :: "event list"
  w_metrics :: "metric list"
  w_calls :: nat

record services =
  sv_fault :: "nat \<Rightarrow> (bool \<times> raw_error) option"
  sv_iso :: "rat \<Rightarrow> string"
  sv_now_ms :: "nat \<Rightarrow> rat"
  sv_uuid :: "nat \<Rightarrow> string"
  sv_ssm :: "nat \<Rightarrow> string \<Rightarrow> string option"
  sv_trace :: "string option"
  sv_sha256hex :: "string \<Rightarrow> string"
  sv_date_parse :: "string \<Rightarrow> rat option"
  sv_flag_ttl_env :: "jsnum option"
  sv_text :: text_runtime
  sv_diff_bytes :: "release_diff_result \<Rightarrow> nat"

type_synonym 'a io = "(world, exn, 'a) cmd"

definition tick :: "world \<Rightarrow> world" where
  "tick w = w\<lparr>w_calls := Suc (w_calls w)\<rparr>"

text \<open>
  One call of a service. A fault carries the error the client sees and whether the request had
  already taken effect.
\<close>

definition service :: "services \<Rightarrow> (world \<Rightarrow> (raw_error + 'a) \<times> world) \<Rightarrow> 'a io" where
  "service sv oper = (\<lambda>w.
     case sv_fault sv (w_calls w) of
       None \<Rightarrow> (case oper (tick w) of (Inl e, w') \<Rightarrow> (Inl (Sdk e), w') | (Inr a, w') \<Rightarrow> (Inr a, w'))
     | Some (applied, e) \<Rightarrow> (Inl (Sdk e), if applied then snd (oper (tick w)) else tick w))"

text \<open>A read: no effect.\<close>

definition fetch :: "services \<Rightarrow> (world \<Rightarrow> 'a) \<Rightarrow> 'a io" where
  "fetch sv f = service sv (\<lambda>w. (Inr (f w), w))"

definition now_ms :: "services \<Rightarrow> rat io" where
  "now_ms sv = (\<lambda>w. (Inr (sv_now_ms sv (w_calls w)), tick w))"

definition now_iso :: "services \<Rightarrow> string io" where
  "now_iso sv = bindE (now_ms sv) (\<lambda>t. retE (sv_iso sv t))"

text \<open>\<open>Promise.all\<close> of two calls: both run; the first failure is the outcome. A metric is
  written to the log and never fails.\<close>

definition bothE :: "'a io \<Rightarrow> 'b io \<Rightarrow> ('a \<times> 'b) io" where
  "bothE m n = (\<lambda>w. case m w of (r, w') \<Rightarrow> (case n w' of (s, w'') \<Rightarrow>
     (case r of
        Inl e \<Rightarrow> (Inl e, w'')
      | Inr a \<Rightarrow> (case s of Inl e \<Rightarrow> (Inl e, w'') | Inr b \<Rightarrow> (Inr (a, b), w'')))))"

definition emit_metric :: "metric \<Rightarrow> unit io" where
  "emit_metric m = (\<lambda>w. (Inr (), w\<lparr>w_metrics := w_metrics w @ [m]\<rparr>))"

definition random_uuid :: "services \<Rightarrow> string io" where
  "random_uuid sv = (\<lambda>w. (Inr (sv_uuid sv (w_calls w)), tick w))"

section \<open>The operations of the tables\<close>

definition getEnvironmentReleasePointer ::
  "services \<Rightarrow> string \<Rightarrow> string \<Rightarrow> environment \<Rightarrow> pointer option io" where
  "getEnvironmentReleasePointer sv orgId agentTargetId environment =
     fetch sv (\<lambda>w. read_pointer (w_store w) orgId agentTargetId environment)"

definition listEnvironmentReleasePointersForAgent :: "services \<Rightarrow> string \<Rightarrow> string \<Rightarrow> pointer list io" where
  "listEnvironmentReleasePointersForAgent sv orgId agentTargetId =
     fetch sv (\<lambda>w. query_pointers_for_agent (w_store w) orgId agentTargetId)"

definition queryEnvironmentReleasePointerHistory ::
  "services \<Rightarrow> string \<Rightarrow> string \<Rightarrow> environment \<Rightarrow> string option \<Rightarrow> pointer list io" where
  "queryEnvironmentReleasePointerHistory sv orgId agentTargetId environment until =
     fetch sv (\<lambda>w. query_history (w_store w) orgId agentTargetId environment until)"

definition getAgentRelease :: "services \<Rightarrow> string \<Rightarrow> agent_release option io" where
  "getAgentRelease sv releaseId = fetch sv (\<lambda>w. tbl_get (w_releases w) releaseId)"

definition transact :: "set_params \<Rightarrow> string \<Rightarrow> world \<Rightarrow> (raw_error + unit) \<times> world" where
  "transact params promotedAt w =
     (let (r, st) = transact_put params promotedAt (w_store w) in (r, w\<lparr>w_store := st\<rparr>))"

text \<open>
  The move of a pointer: only the errors that mean a lost race are renamed.
\<close>

definition setEnvironmentReleasePointer :: "services \<Rightarrow> set_params \<Rightarrow> pointer io" where
  "setEnvironmentReleasePointer sv params =
     bindE (now_iso sv) (\<lambda>promotedAt.
       catchE
         (bindE (service sv (transact params promotedAt)) (\<lambda>_. retE (moved_pointer params promotedAt)))
         (\<lambda>err. case err of
             Sdk e \<Rightarrow>
               if isConditionalCheckFailed e
               then throwE (ConcurrentPromotionError (sp_orgId params) (sp_agentTargetId params)
                      (sp_environment params))
               else throwE err
           | _ \<Rightarrow> throwE err))"

definition performAutoAbortCanary ::
  "services \<Rightarrow> string \<Rightarrow> string \<Rightarrow> environment \<Rightarrow> string \<Rightarrow> nat \<Rightarrow> pointer io" where
  "performAutoAbortCanary sv orgId agentTargetId environment releaseId expectedVersion =
     setEnvironmentReleasePointer sv
       (auto_abort_params orgId agentTargetId environment releaseId expectedVersion)"

definition queryActiveCanaries :: "services \<Rightarrow> pointer list io" where
  "queryActiveCanaries sv = fetch sv (\<lambda>w. query_active_canaries (w_store w))"

section \<open>Running service calls\<close>

text \<open>Everything but the call counter; everything but the counter, the flag cache and the metrics,
  which no decision reads back.\<close>

definition data :: "world \<Rightarrow> world" where
  "data w = w\<lparr>w_calls := 0\<rparr>"

definition durable :: "world \<Rightarrow> world" where
  "durable w = w\<lparr>w_calls := 0, w_flag_cache := [], w_metrics := []\<rparr>"

lemma tick_simps [simp]:
  "w_store (tick w) = w_store w" "w_releases (tick w) = w_releases w"
  "w_policies (tick w) = w_policies w" "w_runs (tick w) = w_runs w"
  "w_suites (tick w) = w_suites w" "w_caseResults (tick w) = w_caseResults w"
  "w_ledger (tick w) = w_ledger w" "w_usage (tick w) = w_usage w"
  "w_flag_cache (tick w) = w_flag_cache w" "w_events (tick w) = w_events w"
  "w_metrics (tick w) = w_metrics w"
  "w_calls (tick w) = Suc (w_calls w)"
  "data (tick w) = data w" "durable (tick w) = durable w"
  by (simp_all add: tick_def data_def durable_def)

lemma data_durable: "data w = data v \<Longrightarrow> durable w = durable v"
  unfolding data_def durable_def by (drule arg_cong [of _ _ "\<lambda>x. x\<lparr>w_flag_cache := [], w_metrics := []\<rparr>"]) simp

lemma durableD:
  assumes "durable w = durable v"
  shows "w_store w = w_store v" "w_releases w = w_releases v" "w_policies w = w_policies v"
    "w_runs w = w_runs v" "w_suites w = w_suites v" "w_caseResults w = w_caseResults v"
    "w_ledger w = w_ledger v" "w_usage w = w_usage v" "w_events w = w_events v"
proof -
  have eq: "f (durable w) = f (durable v)" for f :: "world \<Rightarrow> 'x"
    using assms by simp
  show "w_store w = w_store v"
    using eq [of w_store] by (simp add: durable_def)
  show "w_releases w = w_releases v"
    using arg_cong [OF assms, of w_releases] by (simp add: durable_def)
  show "w_policies w = w_policies v"
    using arg_cong [OF assms, of w_policies] by (simp add: durable_def)
  show "w_runs w = w_runs v"
    using arg_cong [OF assms, of w_runs] by (simp add: durable_def)
  show "w_suites w = w_suites v"
    using arg_cong [OF assms, of w_suites] by (simp add: durable_def)
  show "w_caseResults w = w_caseResults v"
    using arg_cong [OF assms, of w_caseResults] by (simp add: durable_def)
  show "w_ledger w = w_ledger v"
    using arg_cong [OF assms, of w_ledger] by (simp add: durable_def)
  show "w_usage w = w_usage v"
    using arg_cong [OF assms, of w_usage] by (simp add: durable_def)
  show "w_events w = w_events v"
    using arg_cong [OF assms, of w_events] by (simp add: durable_def)
qed

lemma fetch_Inr [run_rules]:
  "fetch sv f w = (Inr a, w') \<longleftrightarrow> sv_fault sv (w_calls w) = None \<and> a = f (tick w) \<and> w' = tick w"
  by (auto simp: fetch_def service_def split: option.splits)

lemma fetch_Inl:
  "fetch sv f w = (Inl e, w') \<Longrightarrow> w' = tick w \<and> (\<exists>r. e = Sdk r)"
  by (auto simp: fetch_def service_def split: option.splits)

lemma keeps_fetch_data [keeps_intros]: "keeps (fetch sv f) data"
  by (auto simp: keeps_def fetch_def service_def split: option.split)

lemma keeps_fetch_durable [keeps_intros]: "keeps (fetch sv f) durable"
  by (auto simp: keeps_def fetch_def service_def split: option.split)

lemma keeps_now_data [keeps_intros]: "keeps (now_ms sv) data" "keeps (now_iso sv) data"
  by (simp_all add: keeps_def now_ms_def now_iso_def bindE_def retE_def)

lemma keeps_now_durable [keeps_intros]:
  "keeps (now_ms sv) durable" "keeps (now_iso sv) durable" "keeps (random_uuid sv) durable"
  by (simp_all add: keeps_def now_ms_def now_iso_def random_uuid_def bindE_def retE_def)

lemma now_iso_Inr [run_rules]:
  "now_iso sv w = (r, w') \<longleftrightarrow> r = Inr (sv_iso sv (sv_now_ms sv (w_calls w))) \<and> w' = tick w"
  by (auto simp: now_iso_def now_ms_def bindE_def retE_def)

lemma now_ms_run [run_rules]:
  "now_ms sv w = (r, w') \<longleftrightarrow> r = Inr (sv_now_ms sv (w_calls w)) \<and> w' = tick w"
  by (auto simp: now_ms_def)

lemma random_uuid_run [run_rules]:
  "random_uuid sv w = (r, w') \<longleftrightarrow> r = Inr (sv_uuid sv (w_calls w)) \<and> w' = tick w"
  by (auto simp: random_uuid_def)

lemma keeps_bothE [keeps_intros]: "keeps m f \<Longrightarrow> keeps n f \<Longrightarrow> keeps (bothE m n) f"
  unfolding keeps_def bothE_def by (auto split: prod.split sum.split) (metis snd_conv)+

lemma bothE_Inr [run_rules]:
  "bothE m n w = (Inr ab, w') \<longleftrightarrow>
    (\<exists>u. m w = (Inr (fst ab), u) \<and> n u = (Inr (snd ab), w'))"
  by (cases ab) (auto simp: bothE_def split: prod.splits sum.splits)

lemma keeps_emit_durable [keeps_intros]: "keeps (emit_metric m) durable"
  by (simp add: keeps_def emit_metric_def durable_def)

lemma emit_metric_run [run_rules]:
  "emit_metric m w = (r, w') \<longleftrightarrow> r = Inr () \<and> w' = w\<lparr>w_metrics := w_metrics w @ [m]\<rparr>"
  by (auto simp: emit_metric_def)

lemma keeps_case_prod [keeps_intros]:
  "(\<And>a b. x = (a, b) \<Longrightarrow> keeps (m a b) f) \<Longrightarrow> keeps (case x of (a, b) \<Rightarrow> m a b) f"
  by (cases x) simp

lemmas read_defs = getEnvironmentReleasePointer_def listEnvironmentReleasePointersForAgent_def
  queryEnvironmentReleasePointerHistory_def getAgentRelease_def queryActiveCanaries_def

section \<open>A small world\<close>

text \<open>One organisation with one release, its completed run and frozen suite, a policy that allows a
  bootstrap, and no pointer yet.\<close>

definition sample_text :: text_runtime where
  "sample_text = \<lparr>rt_payload_bytes = (\<lambda>_ _ _. 0), rt_value_bytes = (\<lambda>_. 0), rt_locale_le = (\<le>)\<rparr>"

definition sample_services :: "string \<Rightarrow> services" where
  "sample_services m =
     \<lparr>sv_fault = (\<lambda>_. None), sv_iso = (\<lambda>t. show_nat (nat \<lfloor>t\<rfloor>)), sv_now_ms = (\<lambda>n. of_nat n),
      sv_uuid = (\<lambda>n. ''salt''), sv_ssm = (\<lambda>n name. Some m), sv_trace = None,
      sv_sha256hex = (\<lambda>s. s), sv_date_parse = sample_date, sv_flag_ttl_env = None, sv_text = sample_text, sv_diff_bytes = (\<lambda>_. 0)\<rparr>"

definition sample_release :: agent_release where
  "sample_release =
     \<lparr>con_agentConfig = \<lparr>cs_sourceId = ''cfg'', cs_content = [], cs_digest = []\<rparr>,
      con_promptVersions = [], con_execSpecId = ''spec'', con_execSpecVersion = 1,
      con_modelConfigSnapshots = [], con_toolConfigs = [],
      con_policySnapshot = \<lparr>ps_enforcementMode = ''strict'', ps_ruleSetVersion = ''1'',
        ps_authorityUnitGrantIds = []\<rparr>,
      con_evalEvidence = \<lparr>ev_evalRunId = ''run1'', ev_evalSuiteId = ''s1'', ev_evalSuiteVersion = 2\<rparr>,
      rel_releaseId = ''r1'', rel_orgId = ''org'', rel_agentTargetId = ''agent'', rel_semver = ''1.0.0'',
      rel_createdAt = ''1'', rel_createdBy = ''alice''\<rparr>"

definition sample_eval_run :: eval_run where
  "sample_eval_run =
     \<lparr>run_evalRunId = ''run1'', run_orgId = Some ''org'', run_status = ''COMPLETED'',
      run_completedAt = Some ''1000'', run_agentTargetVersion = Some ''v1'',
      run_scoreAggregates = Some (ArrayOf [sample_task_aggregate])\<rparr>"

definition sample_world :: world where
  "sample_world =
     \<lparr>w_store = \<lparr>st_pointers = [], st_history = []\<rparr>,
      w_releases = [(''r1'', sample_release)],
      w_policies = [(''org'', JObj [(''orgId'', JStr ''org''),
        (''policy'', JObj [(''allowNoBaselineOnAbsoluteFloors'', JBool True)])])],
      w_runs = [(''run1'', sample_eval_run)], w_suites = [(''s1'', sample_suite)],
      w_caseResults = [], w_ledger = [], w_usage = [], w_flag_cache = [], w_events = [],
      w_metrics = [], w_calls = 0\<rparr>"

end
