(* ===== verification/GateEvidence.thy ===== *)
theory GateEvidence
  imports World
begin

text \<open>
  The I/O that resolves what the pure gate needs
  (backend/src/lambda/utils/release-gate-evidence.ts): the candidate's evaluation run and suite,
  and the baseline through the current pointer, with the organisation checked at every hop. No
  condition escapes as an exception.
\<close>

definition raise :: "evidence_failure \<Rightarrow> 'a io" where
  "raise r = throwE (EvidenceResolutionError r)"

section \<open>Reads\<close>

definition getEvalRun :: "services \<Rightarrow> string \<Rightarrow> eval_run option io" where
  "getEvalRun sv evalRunId = fetch sv (\<lambda>w. tbl_get (w_runs w) evalRunId)"

definition getEvalSuite :: "services \<Rightarrow> string \<Rightarrow> eval_suite option io" where
  "getEvalSuite sv suiteId = fetch sv (\<lambda>w. tbl_get (w_suites w) suiteId)"

definition case_rows :: "world \<Rightarrow> string \<Rightarrow> case_result list" where
  "case_rows w evalRunId = map snd (tbl_query (\<lambda>k. fst k = evalRunId) (w_caseResults w))"

definition listEvalRunCaseResults :: "services \<Rightarrow> string \<Rightarrow> case_result list io" where
  "listEvalRunCaseResults sv evalRunId = fetch sv (\<lambda>w. case_rows w evalRunId)"

section \<open>One run\<close>

definition parseScoreVector :: "case_result \<Rightarrow> score_vector option" where
  "parseScoreVector raw = (case crs_scoreVector raw of
       None \<Rightarrow> None
     | Some Malformed \<Rightarrow> None
     | Some NotArray \<Rightarrow> None
     | Some (ArrayOf v) \<Rightarrow> Some v)"

definition SCORER_VERSION_FALLBACK :: string where
  "SCORER_VERSION_FALLBACK = ''v1''"

text \<open>The loop over the case rows, with the cases and scorer version collected so far.\<close>

fun collect_cases ::
  "case_score_row list \<Rightarrow> string \<Rightarrow> case_result list \<Rightarrow> (case_score_row list \<times> string) option" where
  "collect_cases cases sver [] = Some (cases, sver)"
| "collect_cases cases sver (row # rows) =
     (let scores = parseScoreVector row
      in if crs_scoreVector row \<noteq> None \<and> scores = None then None
         else (case scores of
             None \<Rightarrow> collect_cases cases sver rows
           | Some v \<Rightarrow>
               collect_cases (cases @ [\<lparr>csr_caseId = crs_caseId row, scoreVector = v\<rparr>])
                 (if nonempty_str (crs_scorerVersion row) then the (crs_scorerVersion row) else sver)
                 rows))"

record run_evidence =
  re_run :: eval_run
  re_comparisonInput :: comparison_run
  re_aggregates :: "dimension_aggregate list"

text \<open>The aggregates of a run: the stored ones, or computed from its cases.\<close>

definition resolve_aggregates ::
  "dimension_aggregate json_text option \<Rightarrow> case_score_row list \<Rightarrow> dimension_aggregate list io" where
  "resolve_aggregates stored cases = (case stored of
       None \<Rightarrow> retE (aggregateScoreVectors cases)
     | Some Malformed \<Rightarrow> raise UNREADABLE_RECORD
     | Some NotArray \<Rightarrow> raise UNREADABLE_RECORD
     | Some (ArrayOf aggs) \<Rightarrow> retE aggs)"

definition resolveRunEvidence :: "services \<Rightarrow> string \<Rightarrow> string \<Rightarrow> bool \<Rightarrow> run_evidence io" where
  "resolveRunEvidence sv evalRunId expectedOrgId requireCompleted =
     bindE (getEvalRun sv evalRunId) (\<lambda>found.
     case found of
       None \<Rightarrow> raise MISSING_EVAL_RUN
     | Some run \<Rightarrow>
         bindE (guardE (nonempty_str (run_orgId run)) (EvidenceResolutionError UNREADABLE_RECORD)) (\<lambda>_.
         bindE (guardE (run_orgId run = Some expectedOrgId) (EvidenceResolutionError CROSS_ORG_EVAL_RUN)) (\<lambda>_.
         bindE (guardE (\<not> (requireCompleted \<and> run_status run \<noteq> ''COMPLETED''))
                  (EvidenceResolutionError CANDIDATE_RUN_NOT_COMPLETED)) (\<lambda>_.
         bindE (guardE (nonempty_str (run_completedAt run)) (EvidenceResolutionError UNREADABLE_RECORD)) (\<lambda>_.
         bindE (guardE (nonempty_str (run_agentTargetVersion run)) (EvidenceResolutionError UNREADABLE_RECORD)) (\<lambda>_.
         bindE (listEvalRunCaseResults sv evalRunId) (\<lambda>rows.
         case collect_cases [] SCORER_VERSION_FALLBACK rows of
           None \<Rightarrow> raise UNREADABLE_RECORD
         | Some (cases, sver) \<Rightarrow>
             bindE (resolve_aggregates (run_scoreAggregates run) cases) (\<lambda>aggs.
             retE \<lparr>re_run = run,
                   re_comparisonInput =
                     \<lparr>cr_evalRunId = run_evalRunId run,
                      cr_agentTargetVersion = the (run_agentTargetVersion run),
                      cr_scorerVersion = sver, cr_cases = cases\<rparr>,
                   re_aggregates = aggs\<rparr>))))))))"

section \<open>Suite and baseline\<close>

definition resolveSuiteEvidence :: "services \<Rightarrow> string \<Rightarrow> string \<Rightarrow> eval_suite io" where
  "resolveSuiteEvidence sv suiteId expectedOrgId =
     bindE (getEvalSuite sv suiteId) (\<lambda>found.
     case found of
       None \<Rightarrow> raise MISSING_EVAL_SUITE
     | Some suite \<Rightarrow>
         bindE (guardE (nonempty_str (suite_orgId suite)) (EvidenceResolutionError UNREADABLE_RECORD)) (\<lambda>_.
         bindE (guardE (suite_orgId suite = Some expectedOrgId) (EvidenceResolutionError CROSS_ORG_EVAL_SUITE)) (\<lambda>_.
         retE suite)))"

definition resolveBaselineComparisonInput ::
  "services \<Rightarrow> string \<Rightarrow> string \<Rightarrow> environment \<Rightarrow> comparison_run option io" where
  "resolveBaselineComparisonInput sv orgId agentTargetId environment =
     bindE (getEnvironmentReleasePointer sv orgId agentTargetId environment) (\<lambda>found.
     case found of
       None \<Rightarrow> retE None
     | Some currentPointer \<Rightarrow>
         bindE (guardE (ptr_orgId currentPointer \<noteq> []) (EvidenceResolutionError UNREADABLE_RECORD)) (\<lambda>_.
         bindE (guardE (ptr_orgId currentPointer = orgId) (EvidenceResolutionError CROSS_ORG_POINTER)) (\<lambda>_.
         bindE (guardE (ptr_releaseId currentPointer \<noteq> []) (EvidenceResolutionError UNREADABLE_RECORD)) (\<lambda>_.
         bindE (getAgentRelease sv (ptr_releaseId currentPointer)) (\<lambda>rel.
         case rel of
           None \<Rightarrow> raise MISSING_BASELINE_RELEASE
         | Some baselineRelease \<Rightarrow>
             bindE (guardE (rel_orgId baselineRelease = orgId)
                      (EvidenceResolutionError CROSS_ORG_BASELINE_RELEASE)) (\<lambda>_.
             bindE (guardE (ev_evalRunId (con_evalEvidence baselineRelease) \<noteq> [])
                      (EvidenceResolutionError UNREADABLE_RECORD)) (\<lambda>_.
             bindE (resolveRunEvidence sv (ev_evalRunId (con_evalEvidence baselineRelease)) orgId True) (\<lambda>ev.
             retE (Some (re_comparisonInput ev))))))))))"

definition gather_evidence ::
  "services \<Rightarrow> agent_release \<Rightarrow> environment \<Rightarrow> string \<Rightarrow> promotion_policy \<Rightarrow> string \<Rightarrow>
   release_gate_inputs io" where
  "gather_evidence sv release environment callerOrgId policy now =
     bindE (resolveRunEvidence sv (ev_evalRunId (con_evalEvidence release)) callerOrgId True) (\<lambda>candidate.
     bindE (resolveSuiteEvidence sv (ev_evalSuiteId (con_evalEvidence release)) callerOrgId) (\<lambda>liveSuite.
     bindE (resolveBaselineComparisonInput sv callerOrgId (rel_agentTargetId release) environment) (\<lambda>baseline.
     retE \<lparr>gi_hasBaseline = (baseline \<noteq> None),
           gi_comparisonVerdict = map_option
             (\<lambda>b. compareRuns b [re_comparisonInput candidate] DEFAULT_COMPARISON_THRESHOLDS) baseline,
           gi_candidateAggregates = re_aggregates candidate,
           gi_pinnedSuiteVersion = ev_evalSuiteVersion (con_evalEvidence release),
           gi_liveSuite = liveSuite,
           gi_runCompletedAt = the (run_completedAt (re_run candidate)),
           gi_now = now,
           gi_policy = policy\<rparr>)))"

definition resolveReleaseGateEvidence ::
  "services \<Rightarrow> agent_release \<Rightarrow> environment \<Rightarrow> string \<Rightarrow> promotion_policy \<Rightarrow> string \<Rightarrow>
   (evidence_failure + release_gate_inputs) io" where
  "resolveReleaseGateEvidence sv release environment callerOrgId policy now =
     (if rel_orgId release \<noteq> callerOrgId then retE (Inl CROSS_ORG_RELEASE)
      else catchE
        (bindE (gather_evidence sv release environment callerOrgId policy now) (\<lambda>inputs. retE (Inr inputs)))
        (\<lambda>err. case err of
            EvidenceResolutionError reason \<Rightarrow> retE (Inl reason)
          | _ \<Rightarrow> retE (Inl SDK_ERROR)))"

section \<open>Resolution reads only, and never throws\<close>

lemma keeps_raise [keeps_intros]: "keeps (raise r) f"
  by (simp add: raise_def keeps_intros)

lemma keeps_resolve_aggregates [keeps_intros]: "keeps (resolve_aggregates stored cases) f"
  by (auto simp: resolve_aggregates_def keeps_intros split: option.split json_text.split)

lemma keeps_resolveRunEvidence [keeps_intros]: "keeps (resolveRunEvidence sv i org b) data"
  unfolding resolveRunEvidence_def getEvalRun_def listEvalRunCaseResults_def
  by (intro keeps_intros)

lemma keeps_resolveSuiteEvidence [keeps_intros]: "keeps (resolveSuiteEvidence sv i org) data"
  unfolding resolveSuiteEvidence_def getEvalSuite_def by (intro keeps_intros)

lemma keeps_resolveBaseline [keeps_intros]: "keeps (resolveBaselineComparisonInput sv org a e) data"
  unfolding resolveBaselineComparisonInput_def read_defs by (intro keeps_intros)

lemma keeps_gather_evidence [keeps_intros]: "keeps (gather_evidence sv rel e org p now) data"
  unfolding gather_evidence_def by (intro keeps_intros)

lemma evidence_handler_keeps:
  "keeps (case err of EvidenceResolutionError reason \<Rightarrow> retE (Inl reason) | _ \<Rightarrow> retE (Inl SDK_ERROR)) f"
  by (cases err) (simp_all add: keeps_intros)

lemma keeps_resolveReleaseGateEvidence [keeps_intros]:
  "keeps (resolveReleaseGateEvidence sv rel e org p now) data"
  unfolding resolveReleaseGateEvidence_def by (intro keeps_intros evidence_handler_keeps)

lemma evidence_handler_Inr [simp]:
  "(case err of EvidenceResolutionError reason \<Rightarrow> retE (Inl reason) | _ \<Rightarrow> retE (Inl SDK_ERROR)) w
     \<noteq> (Inr (Inr i), w')"
  by (cases err) (simp_all add: retE_def)

lemma resolveReleaseGateEvidence_total:
  "\<exists>r w'. resolveReleaseGateEvidence sv rel e org p now w = (Inr r, w')"
  by (auto simp: resolveReleaseGateEvidence_def retE_def catchE_def bindE_def
      split: prod.split sum.split exn.split)

section \<open>What resolved evidence stands for\<close>

definition owned_completed_run :: "world \<Rightarrow> string \<Rightarrow> string \<Rightarrow> eval_run \<Rightarrow> bool" where
  "owned_completed_run w org i run \<longleftrightarrow>
     tbl_get (w_runs w) i = Some run \<and> run_orgId run = Some org \<and> run_status run = ''COMPLETED'' \<and>
     nonempty_str (run_completedAt run)"

lemma resolveRunEvidence_Inr:
  assumes "resolveRunEvidence sv i org True w = (Inr ev, w')"
  shows "owned_completed_run w org i (re_run ev) \<and>
    cr_evalRunId (re_comparisonInput ev) = run_evalRunId (re_run ev) \<and>
    collect_cases [] SCORER_VERSION_FALLBACK (case_rows w i) =
      Some (cr_cases (re_comparisonInput ev), cr_scorerVersion (re_comparisonInput ev))"
  using assms unfolding resolveRunEvidence_def getEvalRun_def listEvalRunCaseResults_def
  by (auto simp: run_rules raise_def owned_completed_run_def resolve_aggregates_def case_rows_def
      split: option.splits if_splits json_text.splits)

lemma resolveSuiteEvidence_Inr:
  assumes "resolveSuiteEvidence sv i org w = (Inr suite, w')"
  shows "tbl_get (w_suites w) i = Some suite \<and> suite_orgId suite = Some org"
  using assms unfolding resolveSuiteEvidence_def getEvalSuite_def
  by (auto simp: run_rules raise_def split: option.splits if_splits)

definition baseline_of :: "world \<Rightarrow> string \<Rightarrow> string \<Rightarrow> environment \<Rightarrow> comparison_run \<Rightarrow> bool" where
  "baseline_of w org a e b \<longleftrightarrow>
     (\<exists>p rel run. read_pointer (w_store w) org a e = Some p \<and> ptr_orgId p = org \<and>
        tbl_get (w_releases w) (ptr_releaseId p) = Some rel \<and> rel_orgId rel = org \<and>
        owned_completed_run w org (ev_evalRunId (con_evalEvidence rel)) run \<and>
        cr_evalRunId b = run_evalRunId run)"

lemma resolveBaseline_Inr:
  assumes "resolveBaselineComparisonInput sv org a e w = (Inr b, w')"
  shows "(b = None) = (read_pointer (w_store w) org a e = None) \<and>
    (\<forall>x. b = Some x \<longrightarrow> baseline_of w org a e x)"
  using assms unfolding resolveBaselineComparisonInput_def read_defs baseline_of_def
  by (auto simp: run_rules raise_def owned_completed_run_def split: option.splits if_splits
      dest!: resolveRunEvidence_Inr)

lemma gather_evidence_Inr:
  assumes "gather_evidence sv rel e org policy now w = (Inr i, w')"
  shows "(\<exists>run. owned_completed_run w org (ev_evalRunId (con_evalEvidence rel)) run \<and>
      Some (gi_runCompletedAt i) = run_completedAt run) \<and>
    tbl_get (w_suites w) (ev_evalSuiteId (con_evalEvidence rel)) = Some (gi_liveSuite i) \<and>
    suite_orgId (gi_liveSuite i) = Some org \<and>
    gi_pinnedSuiteVersion i = ev_evalSuiteVersion (con_evalEvidence rel) \<and>
    gi_policy i = policy \<and> gi_now i = now \<and>
    gi_hasBaseline i = (read_pointer (w_store w) org (rel_agentTargetId rel) e \<noteq> None) \<and>
    (gi_comparisonVerdict i = None) = (\<not> gi_hasBaseline i) \<and>
    (\<forall>v. gi_comparisonVerdict i = Some v \<longrightarrow>
       (\<exists>b c. v = compareRuns b [c] DEFAULT_COMPARISON_THRESHOLDS \<and>
          baseline_of w org (rel_agentTargetId rel) e b))"
proof -
  obtain c suite b w1 w2 where
    run: "resolveRunEvidence sv (ev_evalRunId (con_evalEvidence rel)) org True w = (Inr c, w1)" and
    suite: "resolveSuiteEvidence sv (ev_evalSuiteId (con_evalEvidence rel)) org w1 = (Inr suite, w2)" and
    base: "resolveBaselineComparisonInput sv org (rel_agentTargetId rel) e w2 = (Inr b, w')" and
    i: "i = \<lparr>gi_hasBaseline = (b \<noteq> None),
           gi_comparisonVerdict = map_option
             (\<lambda>b. compareRuns b [re_comparisonInput c] DEFAULT_COMPARISON_THRESHOLDS) b,
           gi_candidateAggregates = re_aggregates c,
           gi_pinnedSuiteVersion = ev_evalSuiteVersion (con_evalEvidence rel),
           gi_liveSuite = suite,
           gi_runCompletedAt = the (run_completedAt (re_run c)),
           gi_now = now,
           gi_policy = policy\<rparr>"
    using assms unfolding gather_evidence_def by (auto simp: run_rules)
  have "data w1 = data w" and "data w2 = data w1"
    using keepsD [OF keeps_resolveRunEvidence run] keepsD [OF keeps_resolveSuiteEvidence suite] by simp_all
  then have "durable w1 = durable w" and "durable w2 = durable w"
    using data_durable by metis+
  note w1 = durableD [OF this(1)] and w2 = durableD [OF this(2)]
  have "baseline_of w2 org (rel_agentTargetId rel) e x = baseline_of w org (rel_agentTargetId rel) e x" for x
    by (simp add: baseline_of_def owned_completed_run_def w2)
  with resolveRunEvidence_Inr [OF run] resolveSuiteEvidence_Inr [OF suite] resolveBaseline_Inr [OF base] i
  show ?thesis
    by (auto simp: w1 w2 owned_completed_run_def nonempty_str_iff)
qed

text \<open>Evidence resolution writes nothing and never throws: it always returns inputs or a reason.\<close>

theorem resolveReleaseGateEvidence_safe:
  "\<exists>r w'. resolveReleaseGateEvidence sv rel e org policy now w = (Inr r, w') \<and> data w' = data w"
  using resolveReleaseGateEvidence_total [of sv rel e org policy now w]
    keepsD [OF keeps_resolveReleaseGateEvidence [of sv rel e org policy now]]
  by blast

text \<open>C28. Evidence never crosses organisations: what is handed to the gate comes from a completed run
  and a suite of the caller's organisation, named by the release; the baseline is the run of the
  release the organisation's own current pointer names, and is absent only when there is no such
  pointer. A release of another organisation is refused before anything is read.\<close>

theorem evidence_stays_in_org:
  assumes "resolveReleaseGateEvidence sv rel e org policy now w = (Inr (Inr i), w')"
  shows "rel_orgId rel = org \<and>
    (\<exists>run. owned_completed_run w org (ev_evalRunId (con_evalEvidence rel)) run \<and>
      Some (gi_runCompletedAt i) = run_completedAt run) \<and>
    tbl_get (w_suites w) (ev_evalSuiteId (con_evalEvidence rel)) = Some (gi_liveSuite i) \<and>
    suite_orgId (gi_liveSuite i) = Some org \<and>
    gi_policy i = policy \<and>
    gi_hasBaseline i = (read_pointer (w_store w) org (rel_agentTargetId rel) e \<noteq> None) \<and>
    (gi_comparisonVerdict i = None) = (\<not> gi_hasBaseline i) \<and>
    (\<forall>v. gi_comparisonVerdict i = Some v \<longrightarrow>
       (\<exists>b c. v = compareRuns b [c] DEFAULT_COMPARISON_THRESHOLDS \<and>
          baseline_of w org (rel_agentTargetId rel) e b))"
proof -
  have "rel_orgId rel = org \<and> gather_evidence sv rel e org policy now w = (Inr i, w')"
    using assms
    by (auto simp: resolveReleaseGateEvidence_def run_rules split: if_splits)
  with gather_evidence_Inr show ?thesis
    by blast
qed

section \<open>Evidence of the small world\<close>

definition sample_gate_inputs :: "promotion_policy \<Rightarrow> string \<Rightarrow> release_gate_inputs" where
  "sample_gate_inputs p now = (sample_inputs p)\<lparr>gi_now := now\<rparr>"

lemma case_rows_no_results [simp]: "w_caseResults w = [] \<Longrightarrow> case_rows w i = []"
  by (simp add: case_rows_def tbl_query_def)

lemma sample_evidence:
  assumes "w_runs w = w_runs sample_world" and "w_suites w = w_suites sample_world"
    and "w_caseResults w = []" and "st_pointers (w_store w) = []"
  shows "\<exists>w'. resolveReleaseGateEvidence (sample_services m) sample_release ENV_DEV ''org'' p now w =
    (Inr (Inr (sample_gate_inputs p now)), w')"
  using assms
  by (simp add: resolveReleaseGateEvidence_def gather_evidence_def resolveRunEvidence_def
      resolveSuiteEvidence_def resolveBaselineComparisonInput_def getEvalRun_def getEvalSuite_def
      listEvalRunCaseResults_def read_defs fetch_def service_def cmd_defs sample_services_def
      sample_world_def sample_release_def sample_eval_run_def sample_suite_def tbl_get_def
      resolve_aggregates_def nonempty_str_def read_pointer_def sample_gate_inputs_def
      sample_inputs_def)

theorem evidence_stays_in_org_witness:
  "\<exists>i w'. resolveReleaseGateEvidence (sample_services ''strict'') sample_release ENV_DEV ''org''
      sample_policy ''2000'' sample_world = (Inr (Inr i), w') \<and> suite_orgId (gi_liveSuite i) = Some ''org''"
proof -
  obtain w' where run: "resolveReleaseGateEvidence (sample_services ''strict'') sample_release ENV_DEV ''org''
      sample_policy ''2000'' sample_world = (Inr (Inr (sample_gate_inputs sample_policy ''2000'')), w')"
    using sample_evidence [of sample_world "''strict''" sample_policy "''2000''"]
    by (auto simp: sample_world_def)
  from evidence_stays_in_org [OF run] run show ?thesis
    by blast
qed

end
