(* ===== verification/Auth.thy ===== *)
theory Auth
  imports World
begin

text \<open>
  Identity and permissions (backend/src/utils/auth-event.ts and \<open>hasPermission\<close> of
  backend/src/utils/auth.ts): claims are read from an untyped identity, roles come from the
  groups claim only, the organisation from its own claim. White space is the ASCII one, which is
  all a group name can be separated by.
\<close>

section \<open>Code\<close>

record 'a gql_event =
  ge_identity :: jsval
  ge_fieldName :: string
  ge_arguments :: 'a

record auth_context =
  ac_userId :: string
  ac_username :: jsval
  ac_groups :: jsval
  ac_roles :: "string list"

fun js_truthy :: "jsval \<Rightarrow> bool" where
  "js_truthy JUndef = False"
| "js_truthy JNull = False"
| "js_truthy (JBool b) = b"
| "js_truthy (JNum x) = (x \<noteq> Fin 0 \<and> x \<noteq> NaN)"
| "js_truthy (JStr s) = (s \<noteq> [])"
| "js_truthy _ = True"

text \<open>A property of a value that may not be an object.\<close>

fun js_get :: "jsval \<Rightarrow> string \<Rightarrow> jsval" where
  "js_get (JObj props) k = js_prop props k"
| "js_get _ k = JUndef"

definition readClaim :: "'a gql_event \<Rightarrow> string \<Rightarrow> jsval" where
  "readClaim event name =
     (let v = js_get (ge_identity event) name
      in if v = JUndef \<or> v = JNull then js_get (js_get (ge_identity event) ''claims'') name else v)"

definition extractOrgFromEvent :: "'a gql_event \<Rightarrow> jsval option" where
  "extractOrgFromEvent event =
     (let claimOrg = readClaim event ''custom:organization''
      in if js_truthy claimOrg then Some claimOrg else None)"

fun split_on :: "char \<Rightarrow> string \<Rightarrow> string list" where
  "split_on c [] = [[]]"
| "split_on c (x # xs) =
     (if x = c then [] # split_on c xs
      else (case split_on c xs of [] \<Rightarrow> [[x]] | y # ys \<Rightarrow> (x # y) # ys))"

definition is_space :: "char \<Rightarrow> bool" where
  "is_space c \<longleftrightarrow> c = CHR '' '' \<or> 9 \<le> (of_char c :: nat) \<and> (of_char c :: nat) \<le> 13"

definition js_trim :: "string \<Rightarrow> string" where
  "js_trim s = rev (dropWhile is_space (rev (dropWhile is_space s)))"

definition readGroups :: "'a gql_event \<Rightarrow> string list" where
  "readGroups event = (case readClaim event ''cognito:groups'' of
       JArr gs \<Rightarrow> map str_of (filter is_str gs)
     | JStr s \<Rightarrow> filter (\<lambda>g. length g > 0) (map js_trim (split_on (CHR '','') s))
     | _ \<Rightarrow> [])"

definition isAdminFromEvent :: "'a gql_event \<Rightarrow> bool" where
  "isAdminFromEvent event \<longleftrightarrow> ''admin'' \<in> set (readGroups event)"

definition deriveRoles :: "'a gql_event \<Rightarrow> string list" where
  "deriveRoles event = first_occurrences (readGroups event)"

definition hasRoleFromEvent :: "'a gql_event \<Rightarrow> string \<Rightarrow> bool" where
  "hasRoleFromEvent event role \<longleftrightarrow> role \<in> set (readGroups event)"

text \<open>The metric of the refusal is best effort and leaves nothing the model keeps.\<close>

definition requireCallerOrg :: "'a gql_event \<Rightarrow> exn + jsval" where
  "requireCallerOrg event = (case extractOrgFromEvent event of
       Some org \<Rightarrow> Inr org
     | None \<Rightarrow> Inl OrgUnresolvedError)"

text \<open>The organisation of a row, when its attribute is a string.\<close>

definition row_org :: "jsval \<Rightarrow> string option" where
  "row_org row = (case js_get row ''orgId'' of JStr s \<Rightarrow> Some s | _ \<Rightarrow> None)"

definition assertRowOrg :: "jsval \<Rightarrow> 'a gql_event \<Rightarrow> exn + unit" where
  "assertRowOrg row event =
     (if isAdminFromEvent event then Inr ()
      else (let rowOrgId = row_org row; callerOrgId = extractOrgFromEvent event
            in if \<not> nonempty_str rowOrgId \<or> callerOrgId = None \<or> map_option JStr rowOrgId \<noteq> callerOrgId
               then Inl CrossOrgAccessError else Inr ()))"

definition resolveScopedOrgFromEvent :: "'a gql_event \<Rightarrow> string option \<Rightarrow> jsval option" where
  "resolveScopedOrgFromEvent event requestedOrgId =
     (if isAdminFromEvent event
      then (if nonempty_str requestedOrgId then map_option JStr requestedOrgId
            else extractOrgFromEvent event)
      else extractOrgFromEvent event)"

definition canCallerSeeRow :: "jsval \<Rightarrow> 'a gql_event \<Rightarrow> bool" where
  "canCallerSeeRow row event =
     (if isAdminFromEvent event then True
      else (let rowOrgId = row_org row
            in if \<not> nonempty_str rowOrgId then False
               else extractOrgFromEvent event = map_option JStr rowOrgId))"

section \<open>Permissions\<close>

definition rolePermissions :: "(string \<times> string list) list" where
  "rolePermissions =
     [(''project_manager'',
       [''project:create'', ''project:read'', ''project:update'', ''agent:monitor'', ''conversation:read'',
        ''adr:reopen'', ''assessment:submit'', ''eval:read'']),
      (''architect'',
       [''project:read'', ''project:update'', ''agent:interact'', ''conversation:read'',
        ''conversation:write'', ''document:upload'', ''adr:create'', ''adr:reopen'', ''spec:approve'',
        ''assessment:submit'', ''registry:create'', ''registry:update'', ''registry:submit'',
        ''eval:author'', ''eval:approve'', ''eval:read'', ''eval:run'', ''release:cut'',
        ''release:promote'', ''release:canary'', ''tool:approve'', ''tool:execute'']),
      (''developer'',
       [''project:read'', ''agent:read'', ''conversation:read'', ''implementation:download'',
        ''registry:read'', ''eval:read'', ''eval:run''])]"

text \<open>Names every object inherits: the table answers them with a value that has no \<open>includes\<close>.\<close>

definition inherited_names :: "string list" where
  "inherited_names =
     [''constructor'', ''toString'', ''toLocaleString'', ''valueOf'', ''hasOwnProperty'', ''isPrototypeOf'',
      ''propertyIsEnumerable'', ''__proto__'', ''__defineGetter__'', ''__defineSetter__'',
      ''__lookupGetter__'', ''__lookupSetter__'']"

fun any_role_grants :: "string list \<Rightarrow> string \<Rightarrow> exn + bool" where
  "any_role_grants [] permission = Inr False"
| "any_role_grants (role # roles) permission =
     (case map_of rolePermissions role of
        Some permissions \<Rightarrow>
          if permission \<in> set permissions \<or> ''*'' \<in> set permissions then Inr True
          else any_role_grants roles permission
      | None \<Rightarrow>
          if role \<in> set inherited_names then Inl TypeError
          else any_role_grants roles permission)"

definition hasPermission :: "auth_context \<Rightarrow> string \<Rightarrow> exn + bool" where
  "hasPermission authContext permission =
     (if ''admin'' \<in> set (ac_roles authContext) then Inr True
      else any_role_grants (ac_roles authContext) permission)"

text \<open>\<open>authContextFromEvent\<close> of the resolvers. The subject and the user name are strings.\<close>

definition text_claim :: "jsval \<Rightarrow> string option" where
  "text_claim v = (case v of JStr s \<Rightarrow> if s = [] then None else Some s | _ \<Rightarrow> None)"

definition authContextFromEvent :: "'a gql_event \<Rightarrow> auth_context" where
  "authContextFromEvent event =
     (let get = js_get (ge_identity event)
      in \<lparr>ac_userId = (case text_claim (get ''sub'') of
             Some s \<Rightarrow> s
           | None \<Rightarrow> (case text_claim (get ''username'') of Some u \<Rightarrow> u | None \<Rightarrow> ''anonymous'')),
          ac_username = get ''username'',
          ac_groups = (if js_truthy (get ''cognito:groups'') then get ''cognito:groups'' else JArr []),
          ac_roles = deriveRoles event\<rparr>)"

text \<open>The handlers use the organisation as a string. A claim of another type fails in the code at the
  first comparison with a row or as a key; here it is refused at once.\<close>

definition string_org :: "jsval \<Rightarrow> exn + string" where
  "string_org v = (case v of JStr org \<Rightarrow> Inr org | _ \<Rightarrow> Inl TypeError)"

section \<open>What the checks mean\<close>

lemma roles_are_groups [simp]: "ac_roles (authContextFromEvent event) = deriveRoles event"
  by (simp add: authContextFromEvent_def Let_def)

lemma set_deriveRoles [simp]: "set (deriveRoles event) = set (readGroups event)" "distinct (deriveRoles event)"
  by (simp_all add: deriveRoles_def)

definition grants :: "string \<Rightarrow> string \<Rightarrow> bool" where
  "grants role permission \<longleftrightarrow> (\<exists>ps. map_of rolePermissions role = Some ps \<and> permission \<in> set ps)"

lemma no_wildcard: "map_of rolePermissions role = Some ps \<Longrightarrow> ''*'' \<notin> set ps"
  by (auto simp: rolePermissions_def split: if_splits)

lemma any_role_grants_Inr:
  "any_role_grants roles p = Inr b \<Longrightarrow> b = (\<exists>r \<in> set roles. grants r p)"
  by (induction roles) (auto simp: grants_def no_wildcard split: option.splits if_splits)

lemma any_role_grants_total:
  "set roles \<inter> set inherited_names = {} \<Longrightarrow> any_role_grants roles p = Inr (\<exists>r \<in> set roles. grants r p)"
  by (induction roles) (auto simp: grants_def no_wildcard split: option.splits)

lemma hasPermission_Inr:
  "hasPermission ctx p = Inr b \<Longrightarrow>
    b = (''admin'' \<in> set (ac_roles ctx) \<or> (\<exists>r \<in> set (ac_roles ctx). grants r p))"
  by (auto simp: hasPermission_def split: if_splits dest: any_role_grants_Inr)

text \<open>A group named like an inherited property makes the check throw, which refuses.\<close>

lemma hasPermission_inherited_name:
  "map_of rolePermissions r = None \<Longrightarrow> r \<in> set inherited_names \<Longrightarrow> ac_roles ctx = r # rs \<Longrightarrow>
    ''admin'' \<notin> set rs \<Longrightarrow> r \<noteq> ''admin'' \<Longrightarrow> hasPermission ctx p = Inl TypeError"
  by (simp add: hasPermission_def)

lemma grants_release:
  "grants r p \<Longrightarrow> p = ''release:promote'' \<or> p = ''release:canary'' \<Longrightarrow> r = ''architect''"
  by (auto simp: grants_def rolePermissions_def split: if_splits)

text \<open>A permission is granted only to an administrator or by a role whose entry lists it, and, unless a
  group has the name of an inherited property, exactly then. The permissions to promote a release
  and to run a canary are granted only to administrators and architects, and to the same callers.\<close>

theorem hasPermission_sound:
  "(hasPermission ctx p = Inr True \<longrightarrow>
     ''admin'' \<in> set (ac_roles ctx) \<or> (\<exists>r \<in> set (ac_roles ctx). grants r p)) \<and>
   (set (ac_roles ctx) \<inter> set inherited_names = {} \<longrightarrow>
     hasPermission ctx p =
       Inr (''admin'' \<in> set (ac_roles ctx) \<or> (\<exists>r \<in> set (ac_roles ctx). grants r p))) \<and>
   (hasPermission ctx p = Inr True \<and> p \<in> {''release:promote'', ''release:canary''} \<longrightarrow>
     ''admin'' \<in> set (ac_roles ctx) \<or> ''architect'' \<in> set (ac_roles ctx)) \<and>
   hasPermission ctx ''release:promote'' = hasPermission ctx ''release:canary''"
proof (intro conjI impI)
  assume granted: "hasPermission ctx p = Inr True"
  show admin_or: "''admin'' \<in> set (ac_roles ctx) \<or> (\<exists>r \<in> set (ac_roles ctx). grants r p)"
    using hasPermission_Inr [OF granted] by blast
next
  assume "set (ac_roles ctx) \<inter> set inherited_names = {}"
  from any_role_grants_total [OF this] show "hasPermission ctx p =
      Inr (''admin'' \<in> set (ac_roles ctx) \<or> (\<exists>r \<in> set (ac_roles ctx). grants r p))"
    by (simp add: hasPermission_def)
next
  assume "hasPermission ctx p = Inr True \<and> p \<in> {''release:promote'', ''release:canary''}"
  then show "''admin'' \<in> set (ac_roles ctx) \<or> ''architect'' \<in> set (ac_roles ctx)"
    using hasPermission_Inr [of ctx p True] grants_release [of _ p] by auto
next
  have "any_role_grants roles ''release:promote'' = any_role_grants roles ''release:canary''" for roles
    by (induction roles) (auto simp: rolePermissions_def)
  then show "hasPermission ctx ''release:promote'' = hasPermission ctx ''release:canary''"
    by (simp add: hasPermission_def)
qed

definition sample_caller :: auth_context where
  "sample_caller = \<lparr>ac_userId = ''alice'', ac_username = JUndef, ac_groups = JArr [],
     ac_roles = [''developer'', ''architect'']\<rparr>"

theorem hasPermission_sound_witness:
  "hasPermission sample_caller ''release:promote'' = Inr True \<and>
   (''admin'' \<in> set (ac_roles sample_caller) \<or> ''architect'' \<in> set (ac_roles sample_caller))"
proof -
  have granted: "hasPermission sample_caller ''release:promote'' = Inr True"
    by (simp add: hasPermission_def sample_caller_def rolePermissions_def)
  then have "hasPermission sample_caller ''release:promote'' = Inr True \<and>
      ''release:promote'' \<in> {''release:promote'', ''release:canary''}"
    by simp
  from hasPermission_sound [THEN conjunct2, THEN conjunct2, THEN conjunct1, THEN mp, OF this] granted
  show ?thesis
    by blast
qed

text \<open>Row access: the predicate and the asserting form agree, and both admit exactly an administrator
  or a caller whose organisation claim is the non-empty organisation of the row; a row without
  one is visible to administrators only.\<close>

theorem tenant_isolation:
  "canCallerSeeRow row event = (assertRowOrg row event = Inr ()) \<and>
   (assertRowOrg row event = Inr ()) =
     (isAdminFromEvent event \<or>
      (\<exists>org. org \<noteq> [] \<and> js_get row ''orgId'' = JStr org \<and> extractOrgFromEvent event = Some (JStr org)))"
  by (auto simp: canCallerSeeRow_def assertRowOrg_def row_org_def nonempty_str_def Let_def
      split: jsval.splits)

end
