(* ===== verification/ReleaseDiffQuery.thy ===== *)
theory ReleaseDiffQuery
  imports Auth GateEvidence
begin

text \<open>
  The release-diff query (backend/src/lambda/release-diff-resolver.ts): two releases of the
  caller's organisation, the score vectors of their runs, and the handler that answers a missing
  release and one of another organisation with the same error.
\<close>

section \<open>Code\<close>

text \<open>\<open>getRelease\<close> of release-store.ts reads the same table by the same key.\<close>

definition resolveScoreVector :: "services \<Rightarrow> agent_release \<Rightarrow> dimension_aggregate list io" where
  "resolveScoreVector sv release =
     bindE (getEvalRun sv (ev_evalRunId (con_evalEvidence release))) (\<lambda>found.
     retE (case found of
         None \<Rightarrow> []
       | Some run \<Rightarrow> (case run_scoreAggregates run of Some (ArrayOf aggs) \<Rightarrow> aggs | _ \<Rightarrow> [])))"

definition getOwnReleaseOrThrow :: "services \<Rightarrow> string \<Rightarrow> string \<Rightarrow> agent_release io" where
  "getOwnReleaseOrThrow sv releaseId callerOrgId =
     bindE (getAgentRelease sv releaseId) (\<lambda>found.
     case found of
       None \<Rightarrow> throwE (ReleaseNotFoundError releaseId)
     | Some release \<Rightarrow>
         bindE (guardE (rel_orgId release = callerOrgId) (CrossOrgReleaseDiffError releaseId)) (\<lambda>_.
         retE release))"

definition releaseDiffQuery :: "services \<Rightarrow> string \<Rightarrow> string \<Rightarrow> string \<Rightarrow> release_diff_result io" where
  "releaseDiffQuery sv releaseIdA releaseIdB callerOrgId =
     bindE (bothE (getOwnReleaseOrThrow sv releaseIdA callerOrgId)
                  (getOwnReleaseOrThrow sv releaseIdB callerOrgId)) (\<lambda>(releaseA, releaseB).
     bindE (bothE (resolveScoreVector sv releaseA) (resolveScoreVector sv releaseB))
       (\<lambda>(scoreVectorA, scoreVectorB).
     retE \<lparr>rdr_releaseIdA = releaseIdA, rdr_releaseIdB = releaseIdB,
           rdr_changes = releaseDiffWithScoreVectors (sv_text sv) releaseA releaseB
             scoreVectorA scoreVectorB\<rparr>))"

text \<open>The arguments of the event are the two identifiers.\<close>

definition opaque_not_found :: "exn \<Rightarrow> exn" where
  "opaque_not_found err = (case err of
       ReleaseNotFoundError _ \<Rightarrow> OpaqueReleaseDiffNotFoundError
     | CrossOrgReleaseDiffError _ \<Rightarrow> OpaqueReleaseDiffNotFoundError
     | _ \<Rightarrow> err)"

definition release_diff_handler ::
  "services \<Rightarrow> (string \<times> string) gql_event \<Rightarrow> release_diff_result io" where
  "release_diff_handler sv event =
     (if ge_fieldName event \<noteq> ''releaseDiff'' then throwE (UnsupportedField (ge_fieldName event))
      else (case extractOrgFromEvent event of
          None \<Rightarrow> throwE (ValidationError ''caller organization'')
        | Some claim \<Rightarrow>
            bindE (liftE (string_org claim)) (\<lambda>callerOrgId.
            catchE (releaseDiffQuery sv (fst (ge_arguments event)) (snd (ge_arguments event)) callerOrgId)
              (\<lambda>err. throwE (opaque_not_found err)))))"

section \<open>Reads only, within the organisation\<close>

lemma keeps_resolveScoreVector [keeps_intros]: "keeps (resolveScoreVector sv r) data"
  unfolding resolveScoreVector_def getEvalRun_def by (intro keeps_intros)

lemma keeps_getOwnReleaseOrThrow [keeps_intros]: "keeps (getOwnReleaseOrThrow sv i org) data"
  unfolding getOwnReleaseOrThrow_def getAgentRelease_def by (intro keeps_intros)

lemma keeps_releaseDiffQuery [keeps_intros]: "keeps (releaseDiffQuery sv i j org) data"
  unfolding releaseDiffQuery_def by (intro keeps_intros)

lemma getOwnReleaseOrThrow_Inr:
  "getOwnReleaseOrThrow sv i org w = (Inr r, w') \<Longrightarrow>
    tbl_get (w_releases w) i = Some r \<and> rel_orgId r = org"
  unfolding getOwnReleaseOrThrow_def getAgentRelease_def
  by (auto simp: run_rules split: option.splits if_splits)

lemma releaseDiffQuery_Inr:
  assumes "releaseDiffQuery sv i j org w = (Inr d, w')"
  shows "\<exists>a b sa sb. tbl_get (w_releases w) i = Some a \<and> rel_orgId a = org \<and>
    tbl_get (w_releases w) j = Some b \<and> rel_orgId b = org \<and>
    rdr_releaseIdA d = i \<and> rdr_releaseIdB d = j \<and>
    rdr_changes d = releaseDiffWithScoreVectors (sv_text sv) a b sa sb"
proof -
  obtain a b sa sb w1 where
    a: "getOwnReleaseOrThrow sv i org w = (Inr a, w1)" and
    b: "\<exists>w2. getOwnReleaseOrThrow sv j org w1 = (Inr b, w2)" and
    d: "d = \<lparr>rdr_releaseIdA = i, rdr_releaseIdB = j,
           rdr_changes = releaseDiffWithScoreVectors (sv_text sv) a b sa sb\<rparr>"
    using assms unfolding releaseDiffQuery_def by (auto simp: run_rules split: prod.splits)
  have "w_releases w1 = w_releases w"
    using keepsD [OF keeps_getOwnReleaseOrThrow a] data_durable durableD(2) by metis
  with getOwnReleaseOrThrow_Inr [OF a] b d show ?thesis
    using getOwnReleaseOrThrow_Inr by fastforce
qed

definition owned_release :: "world \<Rightarrow> string \<Rightarrow> string \<Rightarrow> bool" where
  "owned_release w org i \<longleftrightarrow> (\<exists>r. tbl_get (w_releases w) i = Some r \<and> rel_orgId r = org)"

lemma fetch_no_fault: "\<forall>n. sv_fault sv n = None \<Longrightarrow> fetch sv f w = (Inr (f (tick w)), tick w)"
  by (simp add: fetch_def service_def)

lemma getOwnReleaseOrThrow_no_fault:
  assumes "\<forall>n. sv_fault sv n = None"
  shows "\<exists>r. getOwnReleaseOrThrow sv i org w = (r, tick w) \<and>
    (if owned_release w org i then \<exists>a. r = Inr a
     else \<exists>e. r = Inl e \<and> opaque_not_found e = OpaqueReleaseDiffNotFoundError)"
proof (cases "tbl_get (w_releases w) i")
  case None
  then show ?thesis
    by (simp add: getOwnReleaseOrThrow_def getAgentRelease_def fetch_no_fault [OF assms] owned_release_def
        opaque_not_found_def cmd_defs)
next
  case (Some a)
  then show ?thesis
    by (cases "rel_orgId a = org")
      (simp_all add: getOwnReleaseOrThrow_def getAgentRelease_def fetch_no_fault [OF assms] owned_release_def
        opaque_not_found_def cmd_defs)
qed

lemma resolveScoreVector_no_fault:
  assumes "\<forall>n. sv_fault sv n = None"
  shows "\<exists>v. resolveScoreVector sv r w = (Inr v, tick w)"
  by (simp add: resolveScoreVector_def getEvalRun_def fetch_no_fault [OF assms] cmd_defs)

lemma releaseDiffQuery_no_fault:
  assumes "\<forall>n. sv_fault sv n = None"
  shows "if owned_release w org i \<and> owned_release w org j then \<exists>d. fst (releaseDiffQuery sv i j org w) = Inr d
    else \<exists>e. fst (releaseDiffQuery sv i j org w) = Inl e \<and> opaque_not_found e = OpaqueReleaseDiffNotFoundError"
proof -
  obtain a where a: "getOwnReleaseOrThrow sv i org w = (a, tick w)"
    "if owned_release w org i then \<exists>x. a = Inr x
     else \<exists>e. a = Inl e \<and> opaque_not_found e = OpaqueReleaseDiffNotFoundError"
    using getOwnReleaseOrThrow_no_fault [OF assms] by blast
  obtain b where b: "getOwnReleaseOrThrow sv j org (tick w) = (b, tick (tick w))"
    "if owned_release w org j then \<exists>x. b = Inr x
     else \<exists>e. b = Inl e \<and> opaque_not_found e = OpaqueReleaseDiffNotFoundError"
    using getOwnReleaseOrThrow_no_fault [OF assms, of j org "tick w"] by (auto simp: owned_release_def)
  show ?thesis
  proof (cases "owned_release w org i \<and> owned_release w org j")
    case True
    with a b obtain ra rb where ab: "a = Inr ra" "b = Inr rb"
      by auto
    obtain sa where sa: "resolveScoreVector sv ra (tick (tick w)) = (Inr sa, tick (tick (tick w)))"
      using resolveScoreVector_no_fault [OF assms] by blast
    obtain sb where "resolveScoreVector sv rb (tick (tick (tick w))) = (Inr sb, tick (tick (tick (tick w))))"
      using resolveScoreVector_no_fault [OF assms] by blast
    with True ab a(1) b(1) sa show ?thesis
      by (simp add: releaseDiffQuery_def bothE_def bindE_def retE_def)
  next
    case False
    with a b show ?thesis
      by (auto simp: releaseDiffQuery_def bothE_def bindE_def split: if_splits sum.split)
  qed
qed

text \<open>The diff query reads only, answers exactly when both releases exist in the caller's
  organisation, and otherwise, with the reads succeeding, answers one and the same error whether a
  release is missing or belongs to another organisation.\<close>

theorem release_diff_no_oracle:
  assumes "\<forall>n. sv_fault sv n = None"
    and "ge_fieldName event = ''releaseDiff''"
    and "extractOrgFromEvent event = Some (JStr org)"
    and "ge_arguments event = (i, j)"
  shows "(\<exists>d. fst (release_diff_handler sv event w) = Inr d) =
      (owned_release w org i \<and> owned_release w org j) \<and>
    (owned_release w org i \<and> owned_release w org j \<or>
      fst (release_diff_handler sv event w) = Inl OpaqueReleaseDiffNotFoundError) \<and>
    data (snd (release_diff_handler sv event w)) = data w"
proof -
  obtain r w' where run: "releaseDiffQuery sv i j org w = (r, w')"
    by fastforce
  have "release_diff_handler sv event w = catchE (releaseDiffQuery sv i j org) (\<lambda>err. throwE (opaque_not_found err)) w"
    using assms by (simp add: release_diff_handler_def string_org_def bindE_def liftE_def)
  moreover have "data w' = data w"
    using keepsD [OF keeps_releaseDiffQuery run] .
  ultimately show ?thesis
    using releaseDiffQuery_no_fault [OF assms(1), of w org i j] run
    by (cases r) (auto simp: catchE_def throwE_def split: if_splits)
qed

definition diff_event :: "string \<Rightarrow> string \<Rightarrow> (string \<times> string) gql_event" where
  "diff_event i j =
     \<lparr>ge_identity = JObj [(''sub'', JStr ''alice''), (''custom:organization'', JStr ''org'')],
      ge_fieldName = ''releaseDiff'', ge_arguments = (i, j)\<rparr>"

theorem release_diff_no_oracle_witness:
  "fst (release_diff_handler (sample_services m) (diff_event ''r1'' ''missing'') sample_world) =
     Inl OpaqueReleaseDiffNotFoundError \<and>
   (\<exists>d. fst (release_diff_handler (sample_services m) (diff_event ''r1'' ''r1'') sample_world) = Inr d)"
proof -
  have faults: "\<forall>n. sv_fault (sample_services m) n = None"
    by (simp add: sample_services_def)
  have event: "ge_fieldName (diff_event i j) = ''releaseDiff''"
    "extractOrgFromEvent (diff_event i j) = Some (JStr ''org'')" "ge_arguments (diff_event i j) = (i, j)" for i j
    by (simp_all add: diff_event_def extractOrgFromEvent_def readClaim_def js_prop_def Let_def)
  have "owned_release sample_world ''org'' ''r1''" "\<not> owned_release sample_world ''org'' ''missing''"
    by (simp_all add: owned_release_def sample_world_def tbl_get_def sample_release_def)
  with release_diff_no_oracle [OF faults event, where w = sample_world] show ?thesis
    by auto
qed

end
