(* ===== verification/Governance.thy ===== *)
theory Governance
  imports World
begin

text \<open>
  The governance flag with its cache (backend/src/utils/governance-flag.ts), what a mode means
  for a gate (lambda/utils/governance-disposition.ts), and the three write-once writers of the
  governance ledger (lambda/utils/release-gate-finding-writer.ts,
  release-promotion-approval-writer.ts, auto-rollback-finding-writer.ts).
\<close>

section \<open>In-process state\<close>

definition getsE :: "(world \<Rightarrow> 'a) \<Rightarrow> 'a io" where
  "getsE f = (\<lambda>w. (Inr (f w), w))"

definition modifyE :: "(world \<Rightarrow> world) \<Rightarrow> unit io" where
  "modifyE f = (\<lambda>w. (Inr (), f w))"

lemma getsE_run [run_rules]: "getsE f w = (r, w') \<longleftrightarrow> r = Inr (f w) \<and> w' = w"
  by (auto simp: getsE_def)

lemma modifyE_run [run_rules]: "modifyE f w = (r, w') \<longleftrightarrow> r = Inr () \<and> w' = f w"
  by (auto simp: modifyE_def)

lemma keeps_getsE [keeps_intros]: "keeps (getsE f) g"
  by (simp add: keeps_def getsE_def)

lemma keeps_modifyE: "(\<And>w. g (f w) = g w) \<Longrightarrow> keeps (modifyE f) g"
  by (simp add: keeps_def modifyE_def)

section \<open>Dispositions\<close>

record governance_disposition =
  gd_recordFinding :: bool
  gd_block :: bool

fun governanceDisposition :: "governance_mode \<Rightarrow> governance_disposition" where
  "governanceDisposition Permissive = \<lparr>gd_recordFinding = False, gd_block = False\<rparr>"
| "governanceDisposition Shadow = \<lparr>gd_recordFinding = True, gd_block = False\<rparr>"
| "governanceDisposition Strict = \<lparr>gd_recordFinding = True, gd_block = True\<rparr>"

section \<open>The flag\<close>

definition DEFAULT_ENFORCEMENT_MODE :: governance_mode where
  "DEFAULT_ENFORCEMENT_MODE = Shadow"

definition DEFAULT_CACHE_TTL_SECONDS :: rat where
  "DEFAULT_CACHE_TTL_SECONDS = 60"

definition cacheTtlMs :: "services \<Rightarrow> rat" where
  "cacheTtlMs sv = (case sv_flag_ttl_env sv of
       Some (Fin parsed) \<Rightarrow> if parsed > 0 then parsed * 1000 else DEFAULT_CACHE_TTL_SECONDS * 1000
     | _ \<Rightarrow> DEFAULT_CACHE_TTL_SECONDS * 1000)"

definition get_parameter :: "services \<Rightarrow> string \<Rightarrow> world \<Rightarrow> (raw_error + string option) \<times> world" where
  "get_parameter sv name w = (case sv_ssm sv (w_calls w) name of
       None \<Rightarrow> (Inl (OtherException ''ParameterNotFound''), w)
     | Some v \<Rightarrow> (Inr (Some v), w))"

definition fetchOne :: "services \<Rightarrow> string \<Rightarrow> string option io" where
  "fetchOne sv name = catchE (service sv (get_parameter sv name)) (\<lambda>err. retE None)"

definition enforce_value :: "string option \<Rightarrow> governance_mode option" where
  "enforce_value v =
     (if v = Some ''permissive'' then Some Permissive
      else if v = Some ''shadow'' then Some Shadow
      else if v = Some ''strict'' then Some Strict else None)"

definition isValidEnforce :: "string option \<Rightarrow> bool" where
  "isValidEnforce v \<longleftrightarrow> enforce_value v \<noteq> None"

definition emitGovernanceFlagDefaulted :: "string \<Rightarrow> string \<Rightarrow> unit io" where
  "emitGovernanceFlagDefaulted env reason = emit_metric (GovernanceFlagDefaulted env reason)"

definition enforce_parameter :: "string \<Rightarrow> string" where
  "enforce_parameter env = ''/citadel/governance/enforce/'' @ env"

definition effective_at_parameter :: "string \<Rightarrow> string" where
  "effective_at_parameter env = ''/citadel/governance/effective_at/'' @ env"

text \<open>The mode of a new entry: the value read, the previous mode after a failed read, or the default.\<close>

definition new_enforce :: "string \<Rightarrow> string option \<Rightarrow> cache_entry option \<Rightarrow> governance_mode io" where
  "new_enforce env enforceRaw previous =
     (if isValidEnforce enforceRaw then retE (the (enforce_value enforceRaw))
      else (case (enforceRaw, previous) of
          (None, Some p) \<Rightarrow>
            bindE (emitGovernanceFlagDefaulted env ''ssm_error'') (\<lambda>_. retE (ce_enforce p))
        | (None, None) \<Rightarrow>
            bindE (emitGovernanceFlagDefaulted env ''ssm_error'') (\<lambda>_. retE DEFAULT_ENFORCEMENT_MODE)
        | (Some _, _) \<Rightarrow>
            bindE (emitGovernanceFlagDefaulted env ''invalid_value'') (\<lambda>_. retE DEFAULT_ENFORCEMENT_MODE)))"

text \<open>\<open>fetchOne\<close> never rejects, so the branch for a rejected \<open>Promise.all\<close> is never taken.\<close>

definition refresh :: "services \<Rightarrow> string \<Rightarrow> cache_entry io" where
  "refresh sv env =
     bindE (getsE (\<lambda>w. tbl_get (w_flag_cache w) env)) (\<lambda>previous.
     bindE (bothE (fetchOne sv (enforce_parameter env)) (fetchOne sv (effective_at_parameter env)))
       (\<lambda>(enforceRaw, effectiveAtRaw).
     if enforceRaw = None \<and> effectiveAtRaw = None \<and> previous \<noteq> None
     then bindE (emitGovernanceFlagDefaulted env ''ssm_error'') (\<lambda>_. retE (the previous))
     else
       bindE (new_enforce env enforceRaw previous) (\<lambda>enforce.
       bindE (now_ms sv) (\<lambda>loadedAt.
       let entry = \<lparr>ce_enforce = enforce,
                    ce_effectiveAt = (if nonempty_str effectiveAtRaw then effectiveAtRaw else None),
                    ce_loadedAt = loadedAt\<rparr>
       in bindE (modifyE (\<lambda>w. w\<lparr>w_flag_cache := tbl_put env entry (w_flag_cache w)\<rparr>)) (\<lambda>_.
          retE entry)))))"

definition getOrRefresh :: "services \<Rightarrow> string \<Rightarrow> cache_entry io" where
  "getOrRefresh sv env =
     bindE (getsE (\<lambda>w. tbl_get (w_flag_cache w) env)) (\<lambda>existing.
     case existing of
       None \<Rightarrow> refresh sv env
     | Some e \<Rightarrow>
         bindE (now_ms sv) (\<lambda>now. if now - ce_loadedAt e < cacheTtlMs sv then retE e else refresh sv env))"

definition getGovernanceEnforce :: "services \<Rightarrow> string \<Rightarrow> governance_mode io" where
  "getGovernanceEnforce sv env = bindE (getOrRefresh sv env) (\<lambda>e. retE (ce_enforce e))"

definition getGovernanceEffectiveAt :: "services \<Rightarrow> string \<Rightarrow> string option io" where
  "getGovernanceEffectiveAt sv env = bindE (getOrRefresh sv env) (\<lambda>e. retE (ce_effectiveAt e))"

section \<open>Writers of the ledger\<close>

definition LEDGER_TTL_DAYS :: rat where
  "LEDGER_TTL_DAYS = 90"

definition decision_str :: "bool \<Rightarrow> string" where
  "decision_str permit = (if permit then ''permit'' else ''deny'')"

fun transition_str :: "transition_type \<Rightarrow> string" where
  "transition_str T_PROMOTE = ''PROMOTE''"
| "transition_str T_CANARY_START = ''CANARY_START''"
| "transition_str T_CANARY_REWEIGHT = ''CANARY_REWEIGHT''"
| "transition_str T_CANARY_PROMOTE = ''CANARY_PROMOTE''"
| "transition_str T_CANARY_ABORT = ''CANARY_ABORT''"
| "transition_str T_AUTO_ABORT_CANARY = ''AUTO_ABORT_CANARY''"
| "transition_str T_AUTO_ROLLBACK = ''AUTO_ROLLBACK''"

text \<open>The parts of a key, joined by \<open>#\<close>.\<close>

fun hash_join :: "string list \<Rightarrow> string" where
  "hash_join [] = []"
| "hash_join [p] = p"
| "hash_join (p # q # ps) = p @ CHR ''#'' # hash_join (q # ps)"

definition put_ledger :: "ledger_item \<Rightarrow> world \<Rightarrow> (raw_error + unit) \<times> world" where
  "put_ledger item w = (case tbl_get (w_ledger w) (li_findingId item) of
       Some row \<Rightarrow> (Inl ConditionalCheckFailedException, w)
     | None \<Rightarrow> (Inr (), w\<lparr>w_ledger := tbl_put (li_findingId item) item (w_ledger w)\<rparr>))"

text \<open>The write every writer ends with: only the refusal to overwrite is swallowed.\<close>

definition put_finding :: "services \<Rightarrow> ledger_item \<Rightarrow> unit io" where
  "put_finding sv item =
     catchE (service sv (put_ledger item))
       (\<lambda>err. if err = Sdk ConditionalCheckFailedException then retE () else throwE err)"

record gate_finding_input =
  gf_orgId :: string
  gf_agentTargetId :: string
  gf_environment :: environment
  gf_releaseId :: string
  gf_decidedBy :: string
  gf_permit :: bool
  gf_reasons :: "decision_reason list"
  gf_scoreVector :: "dimension_aggregate list"
  gf_mode :: governance_mode
  gf_traceId :: "string option"
  gf_runId :: "string option"

definition gate_findingIdFor :: "services \<Rightarrow> gate_finding_input \<Rightarrow> string" where
  "gate_findingIdFor sv i = sv_sha256hex sv (hash_join
     [gf_orgId i, gf_agentTargetId i, env_str (gf_environment i), gf_releaseId i, decision_str (gf_permit i)])"

definition gate_item :: "services \<Rightarrow> rat \<Rightarrow> gate_finding_input \<Rightarrow> ledger_item" where
  "gate_item sv ts i =
     \<lparr>li_findingId = gate_findingIdFor sv i,
      li_workflowId = hash_join [''RELEASE_PROMOTION'', gf_agentTargetId i, env_str (gf_environment i)],
      li_timestamp = ts, li_ttl = ts + LEDGER_TTL_DAYS * 86400, li_permit = gf_permit i,
      li_requesting_agent = ''release-quality-gate'', li_target_agent = gf_agentTargetId i,
      li_decided_by = gf_decidedBy i, li_category = Cat_release_promotion, li_orgId = gf_orgId i,
      li_environment = gf_environment i, li_release_id = gf_releaseId i, li_mode = Some (gf_mode i),
      li_score_vector = gf_scoreVector i, li_gate_reasons = gf_reasons i, li_justification = None,
      li_traceId = gf_traceId i, li_runId = gf_runId i, li_diff = None, li_rollback_evidence = None\<rparr>"

definition writeReleaseGateFinding :: "services \<Rightarrow> gate_finding_input \<Rightarrow> unit io" where
  "writeReleaseGateFinding sv i =
     bindE (now_ms sv) (\<lambda>now. put_finding sv (gate_item sv (now / 1000) i))"

record approval_finding_input =
  af_orgId :: string
  af_agentTargetId :: string
  af_environment :: environment
  af_releaseId :: string
  af_decidedBy :: string
  af_permit :: bool
  af_justification :: "string option"
  af_traceId :: "string option"
  af_runId :: "string option"
  af_diff :: "approval_diff option"

definition approval_findingIdFor :: "services \<Rightarrow> approval_finding_input \<Rightarrow> string" where
  "approval_findingIdFor sv i = sv_sha256hex sv (hash_join
     [af_orgId i, af_agentTargetId i, env_str (af_environment i), af_releaseId i, ''approval'',
      decision_str (af_permit i)])"

definition approval_item :: "services \<Rightarrow> rat \<Rightarrow> approval_finding_input \<Rightarrow> ledger_item" where
  "approval_item sv ts i =
     \<lparr>li_findingId = approval_findingIdFor sv i,
      li_workflowId =
        hash_join [''RELEASE_PROMOTION_APPROVAL'', af_agentTargetId i, env_str (af_environment i)],
      li_timestamp = ts, li_ttl = ts + LEDGER_TTL_DAYS * 86400, li_permit = af_permit i,
      li_requesting_agent = ''release-promotion-approval'', li_target_agent = af_agentTargetId i,
      li_decided_by = af_decidedBy i, li_category = Cat_release_promotion_approval, li_orgId = af_orgId i,
      li_environment = af_environment i, li_release_id = af_releaseId i, li_mode = None,
      li_score_vector = [], li_gate_reasons = [], li_justification = af_justification i,
      li_traceId = af_traceId i, li_runId = af_runId i, li_diff = af_diff i, li_rollback_evidence = None\<rparr>"

definition writeReleasePromotionApprovalFinding :: "services \<Rightarrow> approval_finding_input \<Rightarrow> unit io" where
  "writeReleasePromotionApprovalFinding sv i =
     bindE (now_ms sv) (\<lambda>now. put_finding sv (approval_item sv (now / 1000) i))"

record rollback_finding_input =
  rf_orgId :: string
  rf_agentTargetId :: string
  rf_environment :: environment
  rf_fromVersion :: nat
  rf_action :: transition_type
  rf_evidence :: rollback_evidence
  rf_traceId :: "string option"
  rf_runId :: "string option"

definition rollback_findingIdFor :: "services \<Rightarrow> rollback_finding_input \<Rightarrow> string" where
  "rollback_findingIdFor sv i = sv_sha256hex sv (hash_join
     [rf_orgId i, rf_agentTargetId i, env_str (rf_environment i), show_nat (rf_fromVersion i),
      transition_str (rf_action i)])"

definition RELEASE_ROLLBACK_DECIDED_BY :: string where
  "RELEASE_ROLLBACK_DECIDED_BY = ''system:release-rollback-evaluator''"

definition rollback_item :: "services \<Rightarrow> rat \<Rightarrow> rollback_finding_input \<Rightarrow> ledger_item" where
  "rollback_item sv ts i =
     \<lparr>li_findingId = rollback_findingIdFor sv i,
      li_workflowId = hash_join [''RELEASE_ROLLBACK'', rf_agentTargetId i, env_str (rf_environment i)],
      li_timestamp = ts, li_ttl = ts + LEDGER_TTL_DAYS * 86400, li_permit = False,
      li_requesting_agent = ''release-rollback-evaluator'', li_target_agent = rf_agentTargetId i,
      li_decided_by = RELEASE_ROLLBACK_DECIDED_BY, li_category = Cat_auto_rollback, li_orgId = rf_orgId i,
      li_environment = rf_environment i, li_release_id = rev_fromReleaseId (rf_evidence i), li_mode = None,
      li_score_vector = [], li_gate_reasons = [], li_justification = None,
      li_traceId = rf_traceId i, li_runId = rf_runId i, li_diff = None,
      li_rollback_evidence = Some (rf_evidence i)\<rparr>"

definition writeAutoRollbackFinding :: "services \<Rightarrow> rollback_finding_input \<Rightarrow> unit io" where
  "writeAutoRollbackFinding sv i =
     bindE (now_ms sv) (\<lambda>now. put_finding sv (rollback_item sv (now / 1000) i))"

section \<open>The flag never fails, and only relaxes to what was read\<close>

lemma keeps_fetchOne_data [keeps_intros]: "keeps (fetchOne sv name) data"
  unfolding fetchOne_def keeps_def
  by (auto simp: catchE_def service_def get_parameter_def retE_def split: option.split prod.splits)

lemma keeps_fetchOne_durable [keeps_intros]: "keeps (fetchOne sv name) durable"
  unfolding keeps_def using keepsD [OF keeps_fetchOne_data] data_durable by (metis surjective_pairing)

lemma keeps_emit_flag [keeps_intros]: "keeps (emitGovernanceFlagDefaulted env r) durable"
  by (simp add: emitGovernanceFlagDefaulted_def keeps_intros)

lemma keeps_new_enforce [keeps_intros]: "keeps (new_enforce env raw prev) durable"
  unfolding new_enforce_def by (cases raw; cases prev) (auto intro!: keeps_intros)

lemma keeps_cache_write: "keeps (modifyE (\<lambda>w. w\<lparr>w_flag_cache := f w\<rparr>)) durable"
  by (rule keeps_modifyE) (simp add: durable_def)

lemma keeps_refresh [keeps_intros]: "keeps (refresh sv env) durable"
  unfolding refresh_def Let_def by (intro keeps_intros keeps_cache_write)

lemma keeps_getOrRefresh [keeps_intros]: "keeps (getOrRefresh sv env) durable"
  unfolding getOrRefresh_def by (intro keeps_intros)

lemma keeps_getGovernanceEnforce [keeps_intros]: "keeps (getGovernanceEnforce sv env) durable"
  unfolding getGovernanceEnforce_def by (intro keeps_intros)

lemma fetchOne_total: "\<exists>v w'. fetchOne sv name w = (Inr v, w') \<and> w_flag_cache w' = w_flag_cache w \<and>
    (\<forall>x. v = Some x \<longrightarrow> (\<exists>n. sv_ssm sv n name = Some x))"
  unfolding fetchOne_def
  by (auto simp: catchE_def service_def get_parameter_def retE_def split: option.split)

text \<open>The sources a mode can come from.\<close>

definition mode_source :: "services \<Rightarrow> string \<Rightarrow> world \<Rightarrow> governance_mode \<Rightarrow> bool" where
  "mode_source sv env w m \<longleftrightarrow>
     m = DEFAULT_ENFORCEMENT_MODE \<or>
     (\<exists>c. tbl_get (w_flag_cache w) env = Some c \<and> ce_enforce c = m) \<or>
     (\<exists>n v. sv_ssm sv n (enforce_parameter env) = Some v \<and> enforce_value (Some v) = Some m)"

lemma bothE_fetchOne:
  "\<exists>a b w'. bothE (fetchOne sv x) (fetchOne sv y) w = (Inr (a, b), w') \<and> w_flag_cache w' = w_flag_cache w \<and>
    (\<forall>v. a = Some v \<longrightarrow> (\<exists>n. sv_ssm sv n x = Some v))"
proof -
  obtain a w1 where a: "fetchOne sv x w = (Inr a, w1)" "w_flag_cache w1 = w_flag_cache w"
    "\<forall>v. a = Some v \<longrightarrow> (\<exists>n. sv_ssm sv n x = Some v)"
    using fetchOne_total by blast
  obtain b w2 where b: "fetchOne sv y w1 = (Inr b, w2)" "w_flag_cache w2 = w_flag_cache w1"
    using fetchOne_total by blast
  from a b have "bothE (fetchOne sv x) (fetchOne sv y) w = (Inr (a, b), w2)"
    by (simp add: bothE_def)
  with a b show ?thesis
    by auto
qed

lemma new_enforce_source:
  "\<exists>m w'. new_enforce env raw prev w = (Inr m, w') \<and>
    (m = DEFAULT_ENFORCEMENT_MODE \<or> (\<exists>p. prev = Some p \<and> ce_enforce p = m) \<or>
     (\<exists>v. raw = Some v \<and> enforce_value (Some v) = Some m))"
proof (cases "isValidEnforce raw")
  case True
  then show ?thesis
    by (cases raw) (auto simp: new_enforce_def isValidEnforce_def retE_def enforce_value_def)
next
  case False
  then show ?thesis
    by (cases raw; cases prev)
      (auto simp: new_enforce_def emitGovernanceFlagDefaulted_def emit_metric_def bindE_def retE_def)
qed

lemma refresh_source:
  "\<exists>e w'. refresh sv env w = (Inr e, w') \<and> mode_source sv env w (ce_enforce e)"
proof -
  obtain a b w1 where r: "bothE (fetchOne sv (enforce_parameter env)) (fetchOne sv (effective_at_parameter env)) w
      = (Inr (a, b), w1)"
    and a: "\<forall>v. a = Some v \<longrightarrow> (\<exists>n. sv_ssm sv n (enforce_parameter env) = Some v)"
    using bothE_fetchOne by blast
  obtain m w2 where m: "new_enforce env a (tbl_get (w_flag_cache w) env) w1 = (Inr m, w2)"
    and src: "m = DEFAULT_ENFORCEMENT_MODE \<or>
      (\<exists>p. tbl_get (w_flag_cache w) env = Some p \<and> ce_enforce p = m) \<or>
      (\<exists>v. a = Some v \<and> enforce_value (Some v) = Some m)"
    using new_enforce_source by blast
  have "mode_source sv env w m"
    using src a unfolding mode_source_def by blast
  with r m show ?thesis
    by (auto simp: refresh_def getsE_def bindE_def retE_def now_ms_def modifyE_def mode_source_def Let_def
        emitGovernanceFlagDefaulted_def emit_metric_def)
qed

lemma getGovernanceEnforce_source:
  "\<exists>m w'. getGovernanceEnforce sv env w = (Inr m, w') \<and> mode_source sv env w m"
proof (cases "tbl_get (w_flag_cache w) env")
  case None
  then show ?thesis
    using refresh_source [of sv env w]
    by (auto simp: getGovernanceEnforce_def getOrRefresh_def getsE_def bindE_def retE_def)
next
  case (Some c)
  obtain e w' where r: "refresh sv env (tick w) = (Inr e, w')" "mode_source sv env (tick w) (ce_enforce e)"
    using refresh_source by blast
  have "mode_source sv env w (ce_enforce e)"
    using r(2) by (simp add: mode_source_def)
  moreover have "mode_source sv env w (ce_enforce c)"
    using Some by (auto simp: mode_source_def)
  ultimately show ?thesis
    using r(1) Some
    by (auto simp: getGovernanceEnforce_def getOrRefresh_def getsE_def bindE_def retE_def now_ms_def)
qed

text \<open>The reader of the flag never throws and changes nothing but its cache; the mode it answers is
  the default, the one cached, or a value read from the parameter of that environment. When that
  parameter is missing and nothing is cached the answer is the default, whatever other
  parameters hold.\<close>

theorem governance_flag_total:
  "(\<exists>m w'. getGovernanceEnforce sv env w = (Inr m, w') \<and> durable w' = durable w \<and> mode_source sv env w m) \<and>
   ((\<forall>n. sv_ssm sv n (enforce_parameter env) = None) \<and> tbl_get (w_flag_cache w) env = None \<longrightarrow>
     fst (getGovernanceEnforce sv env w) = Inr DEFAULT_ENFORCEMENT_MODE)"
proof -
  obtain m w' where run: "getGovernanceEnforce sv env w = (Inr m, w')" and src: "mode_source sv env w m"
    using getGovernanceEnforce_source by blast
  have "durable w' = durable w"
    using keepsD [OF keeps_getGovernanceEnforce run] .
  moreover have "m = DEFAULT_ENFORCEMENT_MODE"
    if "\<forall>n. sv_ssm sv n (enforce_parameter env) = None" "tbl_get (w_flag_cache w) env = None"
    using src that by (auto simp: mode_source_def)
  ultimately show ?thesis
    using run src by auto
qed

section \<open>The ledger only grows\<close>

definition ledger_extends :: "world \<Rightarrow> world \<Rightarrow> bool" where
  "ledger_extends w w' \<longleftrightarrow> (\<forall>k row. tbl_get (w_ledger w) k = Some row \<longrightarrow> tbl_get (w_ledger w') k = Some row)"

text \<open>Everything durable but the ledger.\<close>

definition off_ledger :: "world \<Rightarrow> world" where
  "off_ledger w = (durable w)\<lparr>w_ledger := []\<rparr>"

text \<open>What the database promises about a failed condition: it held false, or the request had been
  applied by an earlier attempt of the client.\<close>

definition honest :: "services \<Rightarrow> bool" where
  "honest sv \<longleftrightarrow> (\<forall>n e. sv_fault sv n = Some (False, e) \<longrightarrow> \<not> isConditionalCheckFailed e)"

lemma ledger_extends_refl [simp]: "ledger_extends w w"
  by (simp add: ledger_extends_def)

lemma ledger_extends_trans: "ledger_extends u v \<Longrightarrow> ledger_extends v w \<Longrightarrow> ledger_extends u w"
  by (simp add: ledger_extends_def)

lemma ledger_extends_durable: "durable w' = durable w \<Longrightarrow> ledger_extends w w'"
  unfolding ledger_extends_def using durableD(7) [of w' w] by simp

lemma durable_off_ledger: "durable w' = durable w \<Longrightarrow> off_ledger w' = off_ledger w"
  by (simp add: off_ledger_def)

lemma keeps_off_ledger: "keeps m durable \<Longrightarrow> keeps m off_ledger"
  by (simp add: keeps_def off_ledger_def)

lemma put_ledger_cases:
  "put_ledger item w = (r, w') \<Longrightarrow>
     ledger_extends w w' \<and> off_ledger w' = off_ledger w \<and>
     tbl_get (w_ledger w') (li_findingId item) \<noteq> None \<and>
     (r = Inl ConditionalCheckFailedException \<and> w' = w \<or>
      r = Inr () \<and> tbl_get (w_ledger w') (li_findingId item) = Some item)"
proof (cases "tbl_get (w_ledger w) (li_findingId item)")
  case None
  moreover assume "put_ledger item w = (r, w')"
  ultimately have "r = Inr ()" "w' = w\<lparr>w_ledger := tbl_put (li_findingId item) item (w_ledger w)\<rparr>"
    by (simp_all add: put_ledger_def)
  with None show ?thesis
    by (simp add: ledger_extends_def off_ledger_def durable_def tbl.get_put)
next
  case (Some row)
  moreover assume "put_ledger item w = (r, w')"
  ultimately show ?thesis
    by (simp add: put_ledger_def)
qed

text \<open>What one write leaves: the row put, the row found, or, for a fault before the write, nothing.\<close>

lemma put_finding_state:
  assumes "put_finding sv item w = (r, w')"
  shows "w' = snd (put_ledger item (tick w)) \<or>
    (w' = tick w \<and> (\<exists>e. sv_fault sv (w_calls w) = Some (False, e) \<and>
       (r = Inr () \<longrightarrow> e = ConditionalCheckFailedException)))"
proof -
  obtain r0 v where put: "put_ledger item (tick w) = (r0, v)"
    by fastforce
  show ?thesis
  proof (cases "sv_fault sv (w_calls w)")
    case None
    with assms put show ?thesis
      by (cases r0) (auto simp: put_finding_def catchE_def service_def retE_def throwE_def split: if_splits)
  next
    case (Some f)
    with assms put show ?thesis
      by (cases f)
        (auto simp: put_finding_def catchE_def service_def retE_def throwE_def split: if_splits)
  qed
qed

lemma put_ledger_tick:
  "ledger_extends w (snd (put_ledger item (tick w)))" "off_ledger (snd (put_ledger item (tick w))) = off_ledger w"
proof -
  obtain r v where put: "put_ledger item (tick w) = (r, v)"
    by fastforce
  from put_ledger_cases [OF this] show "ledger_extends w (snd (put_ledger item (tick w)))"
    by (simp add: put ledger_extends_def)
  from put_ledger_cases [OF put] show "off_ledger (snd (put_ledger item (tick w))) = off_ledger w"
    by (simp add: put off_ledger_def)
qed

lemma ledger_extends_tick [simp]: "ledger_extends w (tick w)" "off_ledger (tick w) = off_ledger w"
  by (simp_all add: ledger_extends_def off_ledger_def)

lemma put_finding_extends: "put_finding sv item w = (r, w') \<Longrightarrow> ledger_extends w w'"
  using put_finding_state put_ledger_tick(1) ledger_extends_tick(1) by metis

lemma put_finding_off_ledger: "keeps (put_finding sv item) off_ledger"
proof -
  have "off_ledger (snd (put_finding sv item w)) = off_ledger w" for w
    using put_finding_state [of sv item w "fst (put_finding sv item w)" "snd (put_finding sv item w)"]
      put_ledger_tick(2) [of item w] by auto
  then show ?thesis
    by (simp add: keeps_def)
qed

lemma put_finding_recorded:
  assumes "put_finding sv item w = (Inr (), w')" and "honest sv"
  shows "\<exists>row. tbl_get (w_ledger w') (li_findingId item) = Some row \<and>
    (tbl_get (w_ledger w) (li_findingId item) = None \<longrightarrow> row = item)"
proof -
  have "\<not> (\<exists>e. sv_fault sv n = Some (False, e) \<and> e = ConditionalCheckFailedException)" for n
  proof
    assume "\<exists>e. sv_fault sv n = Some (False, e) \<and> e = ConditionalCheckFailedException"
    then have "\<not> isConditionalCheckFailed ConditionalCheckFailedException"
      using assms(2) unfolding honest_def by blast
    then show False
      by (simp add: isConditionalCheckFailed_def)
  qed
  then have w': "w' = snd (put_ledger item (tick w))"
    using put_finding_state [OF assms(1)] by blast
  obtain r v where "put_ledger item (tick w) = (r, v)"
    by fastforce
  from put_ledger_cases [OF this] this w' show ?thesis
    by auto
qed

lemma write_gate_finding:
  assumes "writeReleaseGateFinding sv i w = (r, w')"
  shows "ledger_extends w w'" "off_ledger w' = off_ledger w"
    "r = Inr () \<Longrightarrow> honest sv \<Longrightarrow>
       \<exists>row ts. tbl_get (w_ledger w') (gate_findingIdFor sv i) = Some row \<and>
         (tbl_get (w_ledger w) (gate_findingIdFor sv i) = None \<longrightarrow> row = gate_item sv ts i)"
proof -
  obtain ts where run: "put_finding sv (gate_item sv ts i) (tick w) = (r, w')"
    using assms by (auto simp: writeReleaseGateFinding_def bindE_def now_ms_def)
  show "ledger_extends w w'"
    using put_finding_extends [OF run] by (simp add: ledger_extends_def)
  show "off_ledger w' = off_ledger w"
    using keepsD [OF put_finding_off_ledger run] by simp
  assume "r = Inr ()" "honest sv"
  then show "\<exists>row ts. tbl_get (w_ledger w') (gate_findingIdFor sv i) = Some row \<and>
      (tbl_get (w_ledger w) (gate_findingIdFor sv i) = None \<longrightarrow> row = gate_item sv ts i)"
    using put_finding_recorded [of sv "gate_item sv ts i" "tick w" w'] run by (auto simp: gate_item_def)
qed

lemma write_approval_finding:
  assumes "writeReleasePromotionApprovalFinding sv i w = (r, w')"
  shows "ledger_extends w w'" "off_ledger w' = off_ledger w"
    "r = Inr () \<Longrightarrow> honest sv \<Longrightarrow>
       \<exists>row ts. tbl_get (w_ledger w') (approval_findingIdFor sv i) = Some row \<and>
         (tbl_get (w_ledger w) (approval_findingIdFor sv i) = None \<longrightarrow> row = approval_item sv ts i)"
proof -
  obtain ts where run: "put_finding sv (approval_item sv ts i) (tick w) = (r, w')"
    using assms by (auto simp: writeReleasePromotionApprovalFinding_def bindE_def now_ms_def)
  show "ledger_extends w w'"
    using put_finding_extends [OF run] by (simp add: ledger_extends_def)
  show "off_ledger w' = off_ledger w"
    using keepsD [OF put_finding_off_ledger run] by simp
  assume "r = Inr ()" "honest sv"
  then show "\<exists>row ts. tbl_get (w_ledger w') (approval_findingIdFor sv i) = Some row \<and>
      (tbl_get (w_ledger w) (approval_findingIdFor sv i) = None \<longrightarrow> row = approval_item sv ts i)"
    using put_finding_recorded [of sv "approval_item sv ts i" "tick w" w'] run
    by (auto simp: approval_item_def)
qed

lemma write_rollback_finding:
  assumes "writeAutoRollbackFinding sv i w = (r, w')"
  shows "ledger_extends w w'" "off_ledger w' = off_ledger w"
    "r = Inr () \<Longrightarrow> honest sv \<Longrightarrow>
       \<exists>row ts. tbl_get (w_ledger w') (rollback_findingIdFor sv i) = Some row \<and>
         (tbl_get (w_ledger w) (rollback_findingIdFor sv i) = None \<longrightarrow> row = rollback_item sv ts i)"
proof -
  obtain ts where run: "put_finding sv (rollback_item sv ts i) (tick w) = (r, w')"
    using assms by (auto simp: writeAutoRollbackFinding_def bindE_def now_ms_def)
  show "ledger_extends w w'"
    using put_finding_extends [OF run] by (simp add: ledger_extends_def)
  show "off_ledger w' = off_ledger w"
    using keepsD [OF put_finding_off_ledger run] by simp
  assume "r = Inr ()" "honest sv"
  then show "\<exists>row ts. tbl_get (w_ledger w') (rollback_findingIdFor sv i) = Some row \<and>
      (tbl_get (w_ledger w) (rollback_findingIdFor sv i) = None \<longrightarrow> row = rollback_item sv ts i)"
    using put_finding_recorded [of sv "rollback_item sv ts i" "tick w" w'] run
    by (auto simp: rollback_item_def)
qed

section \<open>Identifiers of findings\<close>

lemma count_hash_join:
  "ps \<noteq> [] \<Longrightarrow> list_all (\<lambda>p. CHR ''#'' \<notin> set p) ps \<Longrightarrow>
    Suc (count_list (hash_join ps) (CHR ''#'')) = length ps"
  by (induction ps rule: hash_join.induct) (simp_all add: count_list_append count_notin)

lemma hash_join_inject:
  "length ps = length qs \<Longrightarrow> list_all (\<lambda>p. CHR ''#'' \<notin> set p) ps \<Longrightarrow>
    list_all (\<lambda>p. CHR ''#'' \<notin> set p) qs \<Longrightarrow> hash_join ps = hash_join qs \<Longrightarrow> ps = qs"
proof (induction ps arbitrary: qs rule: hash_join.induct)
  case (3 p q ps)
  then obtain p' q' qs' where qs: "qs = p' # q' # qs'"
    by (cases qs; cases "tl qs") auto
  with 3 have "p @ CHR ''#'' # hash_join (q # ps) = p' @ CHR ''#'' # hash_join (q' # qs')"
    and "CHR ''#'' \<notin> set p" "CHR ''#'' \<notin> set p'"
    by simp_all
  then have "p = p'" and "hash_join (q # ps) = hash_join (q' # qs')"
    using first_separator_inject [of p "CHR ''#''" "hash_join (q # ps)" p' "hash_join (q' # qs')"] by blast+
  moreover have "q # ps = q' # qs'"
    using "3.prems" qs \<open>hash_join (q # ps) = hash_join (q' # qs')\<close> by (intro "3.IH") simp_all
  ultimately show ?case
    using qs by simp
next
  case (2 p)
  then obtain q where "qs = [q]"
    by (cases qs) auto
  with 2 show ?case
    by simp
qed simp

definition plain :: "string \<Rightarrow> bool" where
  "plain s \<longleftrightarrow> CHR ''#'' \<notin> set s"

lemma plain_simps [simp]:
  "plain (env_str e)" "plain (decision_str b)" "plain (show_nat n)" "plain (transition_str t)"
proof -
  show "plain (env_str e)" "plain (decision_str b)" "plain (show_nat n)"
    using env_str_no_hash [of e] show_nat_no_hash [of n] by (simp_all add: plain_def decision_str_def)
  show "plain (transition_str t)"
    by (cases t) (simp_all add: plain_def)
qed

lemma decision_str_inject [simp]: "decision_str a = decision_str b \<longleftrightarrow> a = b"
  by (simp add: decision_str_def)

lemma transition_not_decision [simp]: "transition_str t \<noteq> decision_str b" "decision_str b \<noteq> transition_str t"
  by (cases t; simp add: decision_str_def)+

text \<open>With a collision-free digest and identifiers without the separator, two gate findings share an
  identifier exactly when they agree on organisation, agent, environment, release and decision;
  and no gate finding shares one with an approval finding or a rollback finding, so the
  write-once rule never drops the finding of another decision.\<close>

theorem finding_ids_distinct:
  assumes "inj (sv_sha256hex sv)"
    and "list_all plain [gf_orgId i, gf_agentTargetId i, gf_releaseId i]"
    and "list_all plain [gf_orgId j, gf_agentTargetId j, gf_releaseId j]"
    and "list_all plain [af_orgId a, af_agentTargetId a, af_releaseId a]"
    and "list_all plain [rf_orgId r, rf_agentTargetId r]"
  shows "(gate_findingIdFor sv i = gate_findingIdFor sv j) =
      (gf_orgId i = gf_orgId j \<and> gf_agentTargetId i = gf_agentTargetId j \<and>
       gf_environment i = gf_environment j \<and> gf_releaseId i = gf_releaseId j \<and>
       gf_permit i = gf_permit j) \<and>
    gate_findingIdFor sv i \<noteq> approval_findingIdFor sv a \<and>
    gate_findingIdFor sv i \<noteq> rollback_findingIdFor sv r \<and>
    approval_findingIdFor sv a \<noteq> rollback_findingIdFor sv r"
proof -
  let ?g = "\<lambda>i. [gf_orgId i, gf_agentTargetId i, env_str (gf_environment i), gf_releaseId i, decision_str (gf_permit i)]"
  let ?a = "[af_orgId a, af_agentTargetId a, env_str (af_environment a), af_releaseId a, ''approval'',
      decision_str (af_permit a)]"
  let ?r = "[rf_orgId r, rf_agentTargetId r, env_str (rf_environment r), show_nat (rf_fromVersion r),
      transition_str (rf_action r)]"
  have plain: "list_all (\<lambda>p. CHR ''#'' \<notin> set p) (?g i)" "list_all (\<lambda>p. CHR ''#'' \<notin> set p) (?g j)"
    "list_all (\<lambda>p. CHR ''#'' \<notin> set p) ?a" "list_all (\<lambda>p. CHR ''#'' \<notin> set p) ?r"
    using assms(2-5) plain_simps [unfolded plain_def] by (simp_all add: plain_def)
  have "hash_join (?g i) = hash_join (?g j) \<Longrightarrow> ?g i = ?g j"
    using plain by (intro hash_join_inject) simp_all
  moreover have "hash_join (?g i) = hash_join ?r \<Longrightarrow> ?g i = ?r"
    using plain by (intro hash_join_inject) simp_all
  moreover have "hash_join (?g i) \<noteq> hash_join ?a" "hash_join ?a \<noteq> hash_join ?r"
    using count_hash_join [OF _ plain(1)] count_hash_join [OF _ plain(3)] count_hash_join [OF _ plain(4)]
    by (force simp del: hash_join.simps)+
  moreover have "sv_sha256hex sv x = sv_sha256hex sv y \<longleftrightarrow> x = y" for x y
    using assms(1) by (auto dest: injD)
  ultimately show ?thesis
    by (auto simp: gate_findingIdFor_def approval_findingIdFor_def rollback_findingIdFor_def
        simp del: hash_join.simps)
qed


section \<open>The small world\<close>

text \<open>The parameter is stored under the lower-case name of the environment; the flag is asked for the
  upper-case name, and answers the default.\<close>

definition lower_case_services :: services where
  "lower_case_services = (sample_services ''strict'')
     \<lparr>sv_ssm := (\<lambda>n name. if name = ''/citadel/governance/enforce/prod'' then Some ''strict'' else None)\<rparr>"

theorem governance_flag_total_witness:
  "fst (getGovernanceEnforce lower_case_services (env_str ENV_PROD) sample_world) = Inr Shadow"
proof -
  have "(\<forall>n. sv_ssm lower_case_services n (enforce_parameter (env_str ENV_PROD)) = None) \<and>
      tbl_get (w_flag_cache sample_world) (env_str ENV_PROD) = None"
    by (simp add: lower_case_services_def sample_services_def enforce_parameter_def sample_world_def)
  from governance_flag_total [THEN conjunct2, THEN mp, OF this] show ?thesis
    by (simp add: DEFAULT_ENFORCEMENT_MODE_def)
qed

definition sample_gate_finding :: gate_finding_input where
  "sample_gate_finding =
     \<lparr>gf_orgId = ''org'', gf_agentTargetId = ''agent'', gf_environment = ENV_DEV, gf_releaseId = ''r1'',
      gf_decidedBy = ''alice'', gf_permit = True, gf_reasons = [Gate R_NO_BASELINE], gf_scoreVector = [],
      gf_mode = Strict, gf_traceId = None, gf_runId = None\<rparr>"

definition sample_approval_finding :: approval_finding_input where
  "sample_approval_finding =
     \<lparr>af_orgId = ''org'', af_agentTargetId = ''agent'', af_environment = ENV_DEV, af_releaseId = ''r1'',
      af_decidedBy = ''alice'', af_permit = True, af_justification = None, af_traceId = None,
      af_runId = None, af_diff = None\<rparr>"

definition sample_rollback_finding :: rollback_finding_input where
  "sample_rollback_finding =
     \<lparr>rf_orgId = ''org'', rf_agentTargetId = ''agent'', rf_environment = ENV_DEV, rf_fromVersion = 2,
      rf_action = T_AUTO_ABORT_CANARY,
      rf_evidence =
        \<lparr>rev_metric = M_modelCallLatencyP95, rev_observedValue = 700, rev_threshold = 500,
         rev_sampleCount = 25, rev_windowStart = ''1'', rev_windowEnd = ''2'',
         rev_candidateReleaseId = ''r2'', rev_stableReleaseId = ''r1'', rev_fromReleaseId = ''r1'',
         rev_toReleaseId = ''r1'', rev_action = T_AUTO_ABORT_CANARY, rev_fromVersion = 2\<rparr>,
      rf_traceId = None, rf_runId = None\<rparr>"

theorem finding_ids_distinct_witness:
  "gate_findingIdFor (sample_services ''strict'') sample_gate_finding \<noteq>
     approval_findingIdFor (sample_services ''strict'') sample_approval_finding \<and>
   gate_findingIdFor (sample_services ''strict'') sample_gate_finding \<noteq>
     gate_findingIdFor (sample_services ''strict'') (sample_gate_finding\<lparr>gf_permit := False\<rparr>)"
proof -
  have "inj (sv_sha256hex (sample_services ''strict''))"
    by (simp add: sample_services_def)
  moreover have "list_all plain [''org'', ''agent'', ''r1'']" "list_all plain [''org'', ''agent'']"
    by (simp_all add: plain_def)
  ultimately show ?thesis
    using finding_ids_distinct [of "sample_services ''strict''" sample_gate_finding
        "sample_gate_finding\<lparr>gf_permit := False\<rparr>" sample_approval_finding sample_rollback_finding]
    by (simp add: sample_gate_finding_def sample_approval_finding_def sample_rollback_finding_def)
qed


section \<open>A pinned mode\<close>

text \<open>The container has read the mode of the environment once, and its parameter, whenever it can be
  read, still says so. Outages of the parameter store are allowed.\<close>

definition mode_pinned :: "services \<Rightarrow> string \<Rightarrow> governance_mode \<Rightarrow> world \<Rightarrow> bool" where
  "mode_pinned sv env m w \<longleftrightarrow>
     (\<exists>c. tbl_get (w_flag_cache w) env = Some c \<and> ce_enforce c = m) \<and>
     (\<forall>n v. sv_ssm sv n (enforce_parameter env) = Some v \<longrightarrow> enforce_value (Some v) = Some m)"

lemma mode_pinned_cache: "w_flag_cache w' = w_flag_cache w \<Longrightarrow> mode_pinned sv env m w' = mode_pinned sv env m w"
  by (simp add: mode_pinned_def)

lemma new_enforce_pinned:
  assumes "\<forall>v. raw = Some v \<longrightarrow> enforce_value (Some v) = Some m" and "ce_enforce c = m"
  shows "\<exists>w'. new_enforce env raw (Some c) w = (Inr m, w') \<and> w_flag_cache w' = w_flag_cache w"
proof (cases raw)
  case None
  then show ?thesis
    using assms(2)
    by (auto simp: new_enforce_def isValidEnforce_def enforce_value_def emitGovernanceFlagDefaulted_def
        emit_metric_def bindE_def retE_def)
next
  case (Some v)
  then show ?thesis
    using assms(1) by (auto simp: new_enforce_def isValidEnforce_def retE_def)
qed

lemma refresh_pinned:
  assumes "mode_pinned sv env m w"
  shows "\<exists>e w'. refresh sv env w = (Inr e, w') \<and> ce_enforce e = m \<and> mode_pinned sv env m w'"
proof -
  obtain c where c: "tbl_get (w_flag_cache w) env = Some c" "ce_enforce c = m"
    and ssm: "\<forall>n v. sv_ssm sv n (enforce_parameter env) = Some v \<longrightarrow> enforce_value (Some v) = Some m"
    using assms by (auto simp: mode_pinned_def)
  obtain a b w1 where both: "bothE (fetchOne sv (enforce_parameter env)) (fetchOne sv (effective_at_parameter env)) w
      = (Inr (a, b), w1)"
    and w1: "w_flag_cache w1 = w_flag_cache w"
    and a: "\<forall>v. a = Some v \<longrightarrow> (\<exists>n. sv_ssm sv n (enforce_parameter env) = Some v)"
    using bothE_fetchOne by blast
  have a_m: "\<forall>v. a = Some v \<longrightarrow> enforce_value (Some v) = Some m"
    using a ssm by blast
  from new_enforce_pinned [OF a_m c(2)] obtain w2 where
    new: "new_enforce env a (Some c) w1 = (Inr m, w2)" and w2: "w_flag_cache w2 = w_flag_cache w1"
    by blast
  show ?thesis
  proof (cases "a = None \<and> b = None")
    case True
    with both c w1 ssm show ?thesis
      by (simp add: refresh_def getsE_def bindE_def retE_def emitGovernanceFlagDefaulted_def emit_metric_def
          mode_pinned_def)
  next
    case False
    with both c new w1 w2 ssm show ?thesis
      by (auto simp: refresh_def getsE_def bindE_def retE_def now_ms_def modifyE_def mode_pinned_def Let_def
          tbl.get_put)
  qed
qed

lemma getGovernanceEnforce_pinned:
  assumes "mode_pinned sv env m w"
  shows "\<exists>w'. getGovernanceEnforce sv env w = (Inr m, w') \<and> mode_pinned sv env m w'"
proof -
  obtain c where c: "tbl_get (w_flag_cache w) env = Some c" "ce_enforce c = m"
    using assms by (auto simp: mode_pinned_def)
  have tick: "mode_pinned sv env m (tick w)"
    using assms by (simp add: mode_pinned_def)
  obtain e w' where "refresh sv env (tick w) = (Inr e, w')" "ce_enforce e = m" "mode_pinned sv env m w'"
    using refresh_pinned [OF tick] by blast
  with c tick show ?thesis
    by (auto simp: getGovernanceEnforce_def getOrRefresh_def getsE_def bindE_def retE_def now_ms_def)
qed

lemma put_finding_cache: "keeps (put_finding sv item) w_flag_cache"
proof -
  have "w_flag_cache (snd (put_finding sv item w)) = w_flag_cache w" for w
    using put_finding_state [of sv item w "fst (put_finding sv item w)" "snd (put_finding sv item w)"]
    by (auto simp: put_ledger_def split: option.split)
  then show ?thesis
    by (simp add: keeps_def)
qed

lemma write_finding_cache [keeps_intros]:
  "keeps (writeReleaseGateFinding sv i) w_flag_cache"
  "keeps (writeReleasePromotionApprovalFinding sv a) w_flag_cache"
  unfolding writeReleaseGateFinding_def writeReleasePromotionApprovalFinding_def
  by (intro keeps_intros put_finding_cache; simp add: keeps_def now_ms_def)+

end
