(* ===== verification/PointerResolver.thy ===== *)
theory PointerResolver
  imports ReleaseDiffQuery Governance
begin

text \<open>
  The resolver that moves environment pointers
  (backend/src/lambda/environment-release-pointer-resolver.ts): promotion, the canary life cycle,
  the reads and the handler. Each mutation first resolves the parameters of the move, with every
  check on the way, and then makes the one conditional write.
\<close>

section \<open>Permissions and errors\<close>

definition requirePermission :: "auth_context \<Rightarrow> string \<Rightarrow> unit io" where
  "requirePermission authContext permission =
     bindE (liftE (hasPermission authContext permission)) (\<lambda>granted.
     guardE granted (UnauthorizedError permission))"

definition requireReleasePromotePermission :: "auth_context \<Rightarrow> unit io" where
  "requireReleasePromotePermission authContext = requirePermission authContext ''release:promote''"

definition requireReleaseCanaryPermission :: "auth_context \<Rightarrow> unit io" where
  "requireReleaseCanaryPermission authContext = requirePermission authContext ''release:canary''"

definition isFailStatus :: "gate_status \<Rightarrow> bool" where
  "isFailStatus st \<longleftrightarrow> st = G_FAIL \<or> st = G_NO_BASELINE"

section \<open>The quality gate\<close>

text \<open>The read of the policy row, whose failure is a value, and the resolution over it.\<close>

definition tryE :: "'a io \<Rightarrow> (exn + 'a) io" where
  "tryE m = catchE (bindE m (\<lambda>a. retE (Inr a))) (\<lambda>e. retE (Inl e))"

definition read_policy :: "services \<Rightarrow> string \<Rightarrow> string \<Rightarrow> environment \<Rightarrow> promotion_policy option io" where
  "read_policy sv orgId agentTargetId environment =
     bindE (tryE (fetch sv (\<lambda>w. tbl_get (w_policies w) orgId))) (\<lambda>row.
     retE (resolvePromotionPolicy row agentTargetId (Some environment)))"

definition monotonicity_failure ::
  "services \<Rightarrow> string \<Rightarrow> string \<Rightarrow> environment \<Rightarrow> promotion_policy \<Rightarrow> decision_reason option io" where
  "monotonicity_failure sv callerOrgId agentTargetId environment policy =
     (case predecessorEnvironment environment of
        None \<Rightarrow> retE None
      | Some predecessor \<Rightarrow>
          bindE (read_policy sv callerOrgId agentTargetId predecessor) (\<lambda>resolution.
          retE (case resolution of
              None \<Rightarrow> Some MONOTONICITY_PREDECESSOR_UNREADABLE
            | Some lower \<Rightarrow>
                if monotonic policy lower then None
                else Some (MONOTONICITY_VIOLATION (comparePolicyStrictness policy lower)))))"

record gate_outcome =
  go_status :: gate_status
  go_reasons :: "decision_reason list"
  go_scoreVector :: "dimension_aggregate list"

definition synthetic_fail :: "decision_reason \<Rightarrow> gate_outcome" where
  "synthetic_fail reason = \<lparr>go_status = G_FAIL, go_reasons = [reason], go_scoreVector = []\<rparr>"

definition gate_verdict ::
  "services \<Rightarrow> agent_release \<Rightarrow> environment \<Rightarrow> string \<Rightarrow> gate_outcome io" where
  "gate_verdict sv release environment callerOrgId =
     bindE (now_iso sv) (\<lambda>now.
     bindE (read_policy sv callerOrgId (rel_agentTargetId release) environment) (\<lambda>resolution.
     case resolution of
       None \<Rightarrow> retE (synthetic_fail Policy_UNREADABLE)
     | Some policy \<Rightarrow>
         bindE (monotonicity_failure sv callerOrgId (rel_agentTargetId release) environment policy)
           (\<lambda>failure.
         case failure of
           Some reason \<Rightarrow> retE (synthetic_fail reason)
         | None \<Rightarrow>
             bindE (resolveReleaseGateEvidence sv release environment callerOrgId policy now) (\<lambda>evidence.
             case evidence of
               Inl reason \<Rightarrow> retE (synthetic_fail (Evidence reason))
             | Inr inputs \<Rightarrow>
                 (case evaluateReleaseGate (sv_date_parse sv) inputs of
                    None \<Rightarrow> throwE TypeError
                  | Some v \<Rightarrow> retE \<lparr>go_status = gv_status v, go_reasons = map Gate (gv_reasons v),
                                   go_scoreVector = gv_scoreVector v\<rparr>)))))"

definition trace_id :: "services \<Rightarrow> string option" where
  "trace_id sv = (if nonempty_str (sv_trace sv) then sv_trace sv else None)"

definition validateReleaseGate ::
  "services \<Rightarrow> agent_release \<Rightarrow> environment \<Rightarrow> string \<Rightarrow> auth_context \<Rightarrow> unit io" where
  "validateReleaseGate sv release environment callerOrgId authContext =
     bindE (gate_verdict sv release environment callerOrgId) (\<lambda>verdict.
     bindE (getGovernanceEnforce sv (env_str environment)) (\<lambda>gmode.
     let disposition = governanceDisposition gmode;
         failed = isFailStatus (go_status verdict);
         shouldBlock = gd_block disposition \<and> failed
     in bindE (whenE (gd_recordFinding disposition)
          (writeReleaseGateFinding sv
             \<lparr>gf_orgId = callerOrgId, gf_agentTargetId = rel_agentTargetId release,
              gf_environment = environment, gf_releaseId = rel_releaseId release,
              gf_decidedBy = ac_userId authContext, gf_permit = (\<not> failed),
              gf_reasons = go_reasons verdict, gf_scoreVector = go_scoreVector verdict,
              gf_mode = gmode, gf_traceId = trace_id sv, gf_runId = None\<rparr>)) (\<lambda>_.
        guardE (\<not> shouldBlock) (ReleaseGateError (rel_releaseId release) (go_reasons verdict)))))"

section \<open>Ladder, ceiling, percentage\<close>

definition assertLadderAdjacency ::
  "services \<Rightarrow> string \<Rightarrow> string \<Rightarrow> environment \<Rightarrow> string \<Rightarrow> unit io" where
  "assertLadderAdjacency sv callerOrgId agentTargetId environment releaseId =
     (case predecessorEnvironment environment of
        None \<Rightarrow> retE ()
      | Some predecessor \<Rightarrow>
          bindE (getEnvironmentReleasePointer sv callerOrgId agentTargetId predecessor) (\<lambda>p.
          guardE (map_option ptr_releaseId p = Some releaseId)
            (PromotionLadderError releaseId environment predecessor (map_option ptr_releaseId p))))"

definition enforceCanaryCeiling ::
  "services \<Rightarrow> string \<Rightarrow> string \<Rightarrow> environment \<Rightarrow> jsnum \<Rightarrow> unit io" where
  "enforceCanaryCeiling sv callerOrgId agentTargetId environment requestedBasisPoints =
     bindE (read_policy sv callerOrgId agentTargetId environment) (\<lambda>resolution.
     case resolution of
       None \<Rightarrow> throwE (CanaryCeilingError requestedBasisPoints None POLICY_UNREADABLE)
     | Some policy \<Rightarrow>
         guardE (\<not> js_lt (Fin (canaryMaxBasisPoints policy)) requestedBasisPoints)
           (CanaryCeilingError requestedBasisPoints (Some (canaryMaxBasisPoints policy)) EXCEEDS_CEILING))"

text \<open>\<open>Number.isInteger\<close> and the range, on a number.\<close>

fun js_isInteger :: "jsnum \<Rightarrow> bool" where
  "js_isInteger (Fin q) = (of_int \<lfloor>q\<rfloor> = q)"
| "js_isInteger _ = False"

definition validatePercentBasisPoints :: "jsnum \<Rightarrow> unit io" where
  "validatePercentBasisPoints percent =
     guardE (\<not> (\<not> js_isInteger percent \<or> js_lt percent (Fin 0) \<or> js_lt (Fin 10000) percent))
       (ValidationError ''percentBasisPoints'')"

section \<open>The approval\<close>

definition MAX_APPROVAL_DIFF_BYTES :: nat where
  "MAX_APPROVAL_DIFF_BYTES = 256 * 1024"

definition resolveCandidateVsStableDiff ::
  "services \<Rightarrow> agent_release \<Rightarrow> environment \<Rightarrow> string \<Rightarrow> approval_diff option io" where
  "resolveCandidateVsStableDiff sv candidate environment callerOrgId =
     catchE
       (bindE (getEnvironmentReleasePointer sv callerOrgId (rel_agentTargetId candidate) environment)
         (\<lambda>currentPointer.
        case currentPointer of
          None \<Rightarrow> retE None
        | Some p \<Rightarrow>
            if ptr_releaseId p = rel_releaseId candidate then retE None
            else bindE (releaseDiffQuery sv (ptr_releaseId p) (rel_releaseId candidate) callerOrgId)
              (\<lambda>result.
                retE (Some (if sv_diff_bytes sv result > MAX_APPROVAL_DIFF_BYTES
                            then Truncated_diff (rdr_releaseIdA result) (rdr_releaseIdB result)
                            else Full_diff result)))))
       (\<lambda>err. retE None)"

definition validatePromotionApproval ::
  "services \<Rightarrow> agent_release \<Rightarrow> environment \<Rightarrow> string \<Rightarrow> auth_context \<Rightarrow> promotion_approval option \<Rightarrow>
   unit io" where
  "validatePromotionApproval sv release environment callerOrgId authContext approval =
     bindE (getGovernanceEnforce sv (env_str environment)) (\<lambda>gmode.
     let disposition = governanceDisposition gmode
     in if \<not> gd_recordFinding disposition then retE ()
        else (case approval of
            None \<Rightarrow> guardE (\<not> gd_block disposition) (ReleaseApprovalRequiredError (rel_releaseId release))
          | Some a \<Rightarrow>
              bindE (resolveCandidateVsStableDiff sv release environment callerOrgId) (\<lambda>dif.
              bindE (writeReleasePromotionApprovalFinding sv
                 \<lparr>af_orgId = callerOrgId, af_agentTargetId = rel_agentTargetId release,
                  af_environment = environment, af_releaseId = rel_releaseId release,
                  af_decidedBy = ac_userId authContext, af_permit = appr_approved a,
                  af_justification = appr_justification a, af_traceId = trace_id sv,
                  af_runId = None, af_diff = dif\<rparr>) (\<lambda>_.
              guardE (\<not> (\<not> appr_approved a \<and> gd_block disposition))
                (ReleaseApprovalRequiredError (rel_releaseId release))))))"

section \<open>Moves\<close>

text \<open>The notification of a move: best effort.\<close>

definition emitReleasePointerMovedEvent :: "services \<Rightarrow> pointer \<Rightarrow> unit io" where
  "emitReleasePointerMovedEvent sv moved =
     catchE
       (service sv (\<lambda>w. (Inr (), w\<lparr>w_events := w_events w @ [RELEASE_POINTER_MOVED moved]\<rparr>)))
       (\<lambda>err. retE ())"

text \<open>A release of the caller's organisation, or the error.\<close>

definition own_release :: "services \<Rightarrow> string \<Rightarrow> string \<Rightarrow> agent_release io" where
  "own_release sv releaseId callerOrgId =
     bindE (getAgentRelease sv releaseId) (\<lambda>found.
     case found of
       None \<Rightarrow> throwE (ValidationError releaseId)
     | Some release \<Rightarrow>
         bindE (guardE (rel_orgId release = callerOrgId) (SecurityError releaseId)) (\<lambda>_. retE release))"

text \<open>The gate chain a promotion, a canary start and a full cutover share.\<close>

definition gate_chain ::
  "services \<Rightarrow> agent_release \<Rightarrow> string \<Rightarrow> environment \<Rightarrow> string \<Rightarrow> string \<Rightarrow> auth_context \<Rightarrow>
   promotion_approval option \<Rightarrow> unit io" where
  "gate_chain sv release agentTargetId environment releaseId callerOrgId authContext approval =
     bindE (assertLadderAdjacency sv callerOrgId agentTargetId environment releaseId) (\<lambda>_.
     bindE (validateReleaseGate sv release environment callerOrgId authContext) (\<lambda>_.
     validatePromotionApproval sv release environment callerOrgId authContext approval))"

definition promote_params ::
  "services \<Rightarrow> set_pointer_input \<Rightarrow> auth_context \<Rightarrow> string \<Rightarrow> set_params io" where
  "promote_params sv input authContext callerOrgId =
     bindE (requireReleasePromotePermission authContext) (\<lambda>_.
     bindE (own_release sv (spi_releaseId input) callerOrgId) (\<lambda>targetRelease.
     bindE (gate_chain sv targetRelease (spi_agentTargetId input) (spi_environment input)
              (spi_releaseId input) callerOrgId authContext (spi_approval input)) (\<lambda>_.
     bindE (getEnvironmentReleasePointer sv callerOrgId (spi_agentTargetId input) (spi_environment input))
       (\<lambda>currentPointer.
     retE \<lparr>sp_orgId = callerOrgId, sp_agentTargetId = spi_agentTargetId input,
           sp_environment = spi_environment input, sp_releaseId = spi_releaseId input,
           sp_expectedVersion = map_option ptr_version currentPointer,
           sp_currentReleaseId = map_option ptr_releaseId currentPointer,
           sp_promotedBy = ac_userId authContext, sp_canary = None, sp_transitionType = None\<rparr>))))"

definition promoteEnvironmentReleasePointer ::
  "services \<Rightarrow> set_pointer_input \<Rightarrow> auth_context \<Rightarrow> string \<Rightarrow> pointer io" where
  "promoteEnvironmentReleasePointer sv input authContext callerOrgId =
     bindE (promote_params sv input authContext callerOrgId) (\<lambda>params.
     bindE (setEnvironmentReleasePointer sv params) (\<lambda>moved.
     bindE (emitReleasePointerMovedEvent sv moved) (\<lambda>_. retE moved)))"

text \<open>The parameters of a canary operation: the stable release of the current pointer unless said.\<close>

definition canary_move ::
  "string \<Rightarrow> string \<Rightarrow> environment \<Rightarrow> pointer \<Rightarrow> auth_context \<Rightarrow> string \<Rightarrow> canary_state option \<Rightarrow>
   transition_type \<Rightarrow> set_params" where
  "canary_move callerOrgId agentTargetId environment currentPointer authContext releaseId canary tr =
     \<lparr>sp_orgId = callerOrgId, sp_agentTargetId = agentTargetId, sp_environment = environment,
      sp_releaseId = releaseId, sp_expectedVersion = Some (ptr_version currentPointer),
      sp_currentReleaseId = Some (ptr_releaseId currentPointer),
      sp_promotedBy = ac_userId authContext, sp_canary = canary, sp_transitionType = Some tr\<rparr>"

definition startCanary_params ::
  "services \<Rightarrow> start_canary_input \<Rightarrow> auth_context \<Rightarrow> string \<Rightarrow> set_params io" where
  "startCanary_params sv input authContext callerOrgId =
     bindE (requireReleaseCanaryPermission authContext) (\<lambda>_.
     bindE (validatePercentBasisPoints (sci_percentBasisPoints input)) (\<lambda>_.
     bindE (own_release sv (sci_candidateReleaseId input) callerOrgId) (\<lambda>candidate.
     bindE (getEnvironmentReleasePointer sv callerOrgId (sci_agentTargetId input) (sci_environment input))
       (\<lambda>found.
     case found of
       None \<Rightarrow> throwE (CanaryStateError ''no current release pointer'')
     | Some currentPointer \<Rightarrow>
         bindE (guardE (ptr_canary currentPointer = None) (CanaryStateError ''already active'')) (\<lambda>_.
         bindE (gate_chain sv candidate (sci_agentTargetId input) (sci_environment input)
                  (sci_candidateReleaseId input) callerOrgId authContext (sci_approval input)) (\<lambda>_.
         bindE (enforceCanaryCeiling sv callerOrgId (sci_agentTargetId input) (sci_environment input)
                  (sci_percentBasisPoints input)) (\<lambda>_.
         bindE (random_uuid sv) (\<lambda>newSalt.
         bindE (now_iso sv) (\<lambda>startedAt.
         retE (canary_move callerOrgId (sci_agentTargetId input) (sci_environment input) currentPointer
           authContext (ptr_releaseId currentPointer)
           (Some \<lparr>candidateReleaseId = sci_candidateReleaseId input,
                  percentBasisPoints = sci_percentBasisPoints input,
                  stickiness = sci_stickiness input, salt = newSalt,
                  canary_startedAt = startedAt, canary_startedBy = ac_userId authContext\<rparr>)
           T_CANARY_START))))))))))"

definition startCanary ::
  "services \<Rightarrow> start_canary_input \<Rightarrow> auth_context \<Rightarrow> string \<Rightarrow> pointer io" where
  "startCanary sv input authContext callerOrgId =
     bindE (startCanary_params sv input authContext callerOrgId) (setEnvironmentReleasePointer sv)"

text \<open>The active canary of the current pointer, or the error.\<close>

definition current_canary :: "services \<Rightarrow> string \<Rightarrow> string \<Rightarrow> environment \<Rightarrow> (pointer \<times> canary_state) io" where
  "current_canary sv callerOrgId agentTargetId environment =
     bindE (getEnvironmentReleasePointer sv callerOrgId agentTargetId environment) (\<lambda>found.
     case found of
       None \<Rightarrow> throwE (CanaryStateError ''no active canary'')
     | Some p \<Rightarrow> (case ptr_canary p of
           None \<Rightarrow> throwE (CanaryStateError ''no active canary'')
         | Some c \<Rightarrow> retE (p, c)))"

definition reweightCanary_params ::
  "services \<Rightarrow> reweight_canary_input \<Rightarrow> auth_context \<Rightarrow> string \<Rightarrow> set_params io" where
  "reweightCanary_params sv input authContext callerOrgId =
     bindE (requireReleaseCanaryPermission authContext) (\<lambda>_.
     bindE (validatePercentBasisPoints (rci_percentBasisPoints input)) (\<lambda>_.
     bindE (current_canary sv callerOrgId (rci_agentTargetId input) (rci_environment input))
       (\<lambda>(currentPointer, canary).
     bindE (enforceCanaryCeiling sv callerOrgId (rci_agentTargetId input) (rci_environment input)
              (rci_percentBasisPoints input)) (\<lambda>_.
     retE (canary_move callerOrgId (rci_agentTargetId input) (rci_environment input) currentPointer
       authContext (ptr_releaseId currentPointer)
       (Some (canary\<lparr>percentBasisPoints := rci_percentBasisPoints input\<rparr>)) T_CANARY_REWEIGHT)))))"

definition reweightCanary ::
  "services \<Rightarrow> reweight_canary_input \<Rightarrow> auth_context \<Rightarrow> string \<Rightarrow> pointer io" where
  "reweightCanary sv input authContext callerOrgId =
     bindE (reweightCanary_params sv input authContext callerOrgId) (setEnvironmentReleasePointer sv)"

definition promoteCanary_params ::
  "services \<Rightarrow> canary_op_input \<Rightarrow> auth_context \<Rightarrow> string \<Rightarrow> set_params io" where
  "promoteCanary_params sv input authContext callerOrgId =
     bindE (requireReleaseCanaryPermission authContext) (\<lambda>_.
     bindE (requireReleasePromotePermission authContext) (\<lambda>_.
     bindE (current_canary sv callerOrgId (coi_agentTargetId input) (coi_environment input))
       (\<lambda>(currentPointer, canary).
     bindE (own_release sv (candidateReleaseId canary) callerOrgId) (\<lambda>candidate.
     bindE (gate_chain sv candidate (coi_agentTargetId input) (coi_environment input)
              (candidateReleaseId canary) callerOrgId authContext (coi_approval input)) (\<lambda>_.
     retE (canary_move callerOrgId (coi_agentTargetId input) (coi_environment input) currentPointer
       authContext (candidateReleaseId canary) None T_CANARY_PROMOTE))))))"

definition promoteCanary ::
  "services \<Rightarrow> canary_op_input \<Rightarrow> auth_context \<Rightarrow> string \<Rightarrow> pointer io" where
  "promoteCanary sv input authContext callerOrgId =
     bindE (promoteCanary_params sv input authContext callerOrgId) (\<lambda>params.
     bindE (setEnvironmentReleasePointer sv params) (\<lambda>moved.
     bindE (emitReleasePointerMovedEvent sv moved) (\<lambda>_. retE moved)))"

definition abortCanary_params ::
  "services \<Rightarrow> canary_op_input \<Rightarrow> auth_context \<Rightarrow> string \<Rightarrow> set_params io" where
  "abortCanary_params sv input authContext callerOrgId =
     bindE (requireReleaseCanaryPermission authContext) (\<lambda>_.
     bindE (current_canary sv callerOrgId (coi_agentTargetId input) (coi_environment input))
       (\<lambda>(currentPointer, canary).
     retE (canary_move callerOrgId (coi_agentTargetId input) (coi_environment input) currentPointer
       authContext (ptr_releaseId currentPointer) None T_CANARY_ABORT)))"

definition abortCanary ::
  "services \<Rightarrow> canary_op_input \<Rightarrow> auth_context \<Rightarrow> string \<Rightarrow> pointer io" where
  "abortCanary sv input authContext callerOrgId =
     bindE (abortCanary_params sv input authContext callerOrgId) (setEnvironmentReleasePointer sv)"

section \<open>The handler\<close>

text \<open>The field with its arguments, as the schema types them.\<close>

datatype resolver_request =
    Promote_request set_pointer_input
  | StartCanary_request start_canary_input
  | ReweightCanary_request reweight_canary_input
  | PromoteCanary_request canary_op_input
  | AbortCanary_request canary_op_input
  | GetCurrent_request string environment
  | List_request string
  | History_request string environment "string option"
  | Unknown_request string

datatype resolver_answer = One pointer | Maybe "pointer option" | Many "pointer list"

definition fmapE :: "('a \<Rightarrow> 'b) \<Rightarrow> 'a io \<Rightarrow> 'b io" where
  "fmapE f m = bindE m (\<lambda>a. retE (f a))"

definition resolver_dispatch ::
  "services \<Rightarrow> resolver_request \<Rightarrow> auth_context \<Rightarrow> string \<Rightarrow> resolver_answer io" where
  "resolver_dispatch sv request authContext callerOrgId = (case request of
       Promote_request input \<Rightarrow> fmapE One (promoteEnvironmentReleasePointer sv input authContext callerOrgId)
     | StartCanary_request input \<Rightarrow> fmapE One (startCanary sv input authContext callerOrgId)
     | ReweightCanary_request input \<Rightarrow> fmapE One (reweightCanary sv input authContext callerOrgId)
     | PromoteCanary_request input \<Rightarrow> fmapE One (promoteCanary sv input authContext callerOrgId)
     | AbortCanary_request input \<Rightarrow> fmapE One (abortCanary sv input authContext callerOrgId)
     | GetCurrent_request a e \<Rightarrow> fmapE Maybe (getEnvironmentReleasePointer sv callerOrgId a e)
     | List_request a \<Rightarrow> fmapE Many (listEnvironmentReleasePointersForAgent sv callerOrgId a)
     | History_request a e until \<Rightarrow> fmapE Many (queryEnvironmentReleasePointerHistory sv callerOrgId a e until)
     | Unknown_request f \<Rightarrow> throwE (UnsupportedField f))"

definition pointer_handler :: "services \<Rightarrow> resolver_request gql_event \<Rightarrow> resolver_answer io" where
  "pointer_handler sv event =
     (let authContext = authContextFromEvent event
      in case ge_arguments event of
           Unknown_request f \<Rightarrow> throwE (UnsupportedField f)
         | request \<Rightarrow>
             (case extractOrgFromEvent event of
                None \<Rightarrow> throwE (ValidationError ''caller organization'')
              | Some claim \<Rightarrow>
                  bindE (liftE (string_org claim)) (\<lambda>callerOrgId.
                  resolver_dispatch sv request authContext callerOrgId)))"

end
