(* ===== verification/PointerSafety.thy ===== *)
theory PointerSafety
  imports PointerResolver
begin

text \<open>
  What the pointer resolver guarantees: what a successful operation has checked, what it may
  change whatever its outcome, and the composition with the invariant of pointers and history.
\<close>

section \<open>The parts that only read\<close>

lemma keeps_data_durable: "keeps m data \<Longrightarrow> keeps m durable"
  unfolding keeps_def using data_durable by blast

lemma keeps_requirePermission [keeps_intros]:
  "keeps (requireReleasePromotePermission ctx) f" "keeps (requireReleaseCanaryPermission ctx) f"
  unfolding requireReleasePromotePermission_def requireReleaseCanaryPermission_def requirePermission_def
  by (intro keeps_intros)+

lemma keeps_tryE [keeps_intros]: "keeps m f \<Longrightarrow> keeps (tryE m) f"
  unfolding tryE_def by (intro keeps_intros)

lemma keeps_read_policy [keeps_intros]: "keeps (read_policy sv org a e) durable"
  unfolding read_policy_def by (intro keeps_intros)

lemma keeps_monotonicity [keeps_intros]: "keeps (monotonicity_failure sv org a e p) durable"
  unfolding monotonicity_failure_def by (intro keeps_intros)

lemma keeps_gate_verdict [keeps_intros]: "keeps (gate_verdict sv rel e org) durable"
  unfolding gate_verdict_def
  by (intro keeps_intros keeps_data_durable [OF keeps_resolveReleaseGateEvidence])

lemma keeps_gate_verdict_data: "keeps (gate_verdict sv rel e org) data"
  unfolding gate_verdict_def monotonicity_failure_def read_policy_def tryE_def by (intro keeps_intros)

lemma keeps_assertLadder [keeps_intros]: "keeps (assertLadderAdjacency sv org a e r) durable"
  unfolding assertLadderAdjacency_def read_defs by (intro keeps_intros)

lemma keeps_ceiling [keeps_intros]: "keeps (enforceCanaryCeiling sv org a e p) durable"
  unfolding enforceCanaryCeiling_def by (intro keeps_intros)

lemma keeps_validatePercent [keeps_intros]: "keeps (validatePercentBasisPoints p) f"
  unfolding validatePercentBasisPoints_def by (intro keeps_intros)

lemma keeps_resolveDiff [keeps_intros]: "keeps (resolveCandidateVsStableDiff sv rel e org) durable"
  unfolding resolveCandidateVsStableDiff_def read_defs
  by (intro keeps_intros keeps_data_durable [OF keeps_releaseDiffQuery])

lemma keeps_own_release [keeps_intros]: "keeps (own_release sv r org) durable"
  unfolding own_release_def read_defs by (intro keeps_intros)

lemma keeps_current_canary [keeps_intros]: "keeps (current_canary sv org a e) durable"
  unfolding current_canary_def read_defs by (intro keeps_intros)

section \<open>The ledger grows, nothing else changes, before the write\<close>

text \<open>The steps of everything that runs before the conditional write.\<close>

definition recorded :: "world \<Rightarrow> world \<Rightarrow> bool" where
  "recorded w w' \<longleftrightarrow> off_ledger w' = off_ledger w \<and> ledger_extends w w'"

interpretation rec: guarantee recorded
  by unfold_locales (auto simp: recorded_def intro: ledger_extends_trans)

lemma recorded_durable: "keeps m durable \<Longrightarrow> guarantees m recorded"
  unfolding guarantees_def keeps_def recorded_def
  using ledger_extends_durable durable_off_ledger by blast

lemma recorded_gate: "guarantees (writeReleaseGateFinding sv i) recorded"
  unfolding guarantees_def recorded_def using write_gate_finding(1,2) by (metis surjective_pairing)

lemma recorded_approval: "guarantees (writeReleasePromotionApprovalFinding sv i) recorded"
  unfolding guarantees_def recorded_def using write_approval_finding(1,2) by (metis surjective_pairing)

lemma recorded_validateReleaseGate: "guarantees (validateReleaseGate sv rel e org ctx) recorded"
  unfolding validateReleaseGate_def Let_def
  by (intro rec.rules recorded_gate recorded_durable keeps_gate_verdict keeps_getGovernanceEnforce)

lemma recorded_validatePromotionApproval:
  "guarantees (validatePromotionApproval sv rel e org ctx appr) recorded"
  unfolding validatePromotionApproval_def Let_def
  by (intro rec.rules recorded_approval recorded_durable keeps_resolveDiff keeps_getGovernanceEnforce)

lemma recorded_gate_chain: "guarantees (gate_chain sv rel a e r org ctx appr) recorded"
  unfolding gate_chain_def
  by (intro rec.rules recorded_validateReleaseGate recorded_validatePromotionApproval
      recorded_durable keeps_assertLadder)

lemma keeps_getPointer [keeps_intros]: "keeps (getEnvironmentReleasePointer sv org a e) durable"
  unfolding read_defs by (intro keeps_intros)

lemmas recorded_rules = rec.rules recorded_gate_chain
  recorded_durable [OF keeps_requirePermission(1)] recorded_durable [OF keeps_requirePermission(2)]
  recorded_durable [OF keeps_own_release] recorded_durable [OF keeps_getPointer]
  recorded_durable [OF keeps_validatePercent] recorded_durable [OF keeps_ceiling]
  recorded_durable [OF keeps_current_canary] recorded_durable [OF keeps_now_durable(2)]
  recorded_durable [OF keeps_now_durable(3)]

lemma recorded_params:
  "guarantees (promote_params sv pin ctx org) recorded"
  "guarantees (startCanary_params sv sti ctx org) recorded"
  "guarantees (reweightCanary_params sv rin ctx org) recorded"
  "guarantees (promoteCanary_params sv cin ctx org) recorded"
  "guarantees (abortCanary_params sv cin ctx org) recorded"
  unfolding promote_params_def startCanary_params_def reweightCanary_params_def promoteCanary_params_def
    abortCanary_params_def
  by (intro recorded_rules)+

section \<open>The write\<close>

definition empty_store :: store where
  "empty_store = \<lparr>st_pointers = [], st_history = []\<rparr>"

text \<open>Everything but the store and the call counter.\<close>

definition off_store :: "world \<Rightarrow> world" where
  "off_store w = (data w)\<lparr>w_store := empty_store\<rparr>"

lemma off_store_simps [simp]:
  "off_store (tick w) = off_store w" "off_store (w\<lparr>w_store := st\<rparr>) = off_store w"
  by (simp_all add: off_store_def data_def)

lemma transact_run:
  "transact q ts w = (r, w') \<longleftrightarrow>
    transact_put q ts (w_store w) = (r, w_store w') \<and> w' = w\<lparr>w_store := w_store w'\<rparr>"
  by (auto simp: transact_def split: prod.splits)

text \<open>A platform that reports a failure only when the request was not applied.\<close>

definition clean_faults :: "services \<Rightarrow> bool" where
  "clean_faults sv \<longleftrightarrow> (\<forall>n e. sv_fault sv n \<noteq> Some (True, e))"

text \<open>One attempt of a move: the write happened, or the store is as it was; a success means it happened.\<close>

lemma setPointer_outcome:
  assumes "setEnvironmentReleasePointer sv q w = (r, w')"
  shows "off_store w' = off_store w \<and>
    (clean_faults sv \<and> (\<exists>e. r = Inl e) \<longrightarrow> w_store w' = w_store w) \<and>
    (\<exists>t. (let ts = sv_iso sv t in
      (w_store w' = w_store w \<or> transact_put q ts (w_store w) = (Inr (), w_store w')) \<and>
      (\<forall>p. r = Inr p \<longrightarrow> transact_put q ts (w_store w) = (Inr (), w_store w') \<and> p = moved_pointer q ts)))"
proof -
  let ?ts = "sv_iso sv (sv_now_ms sv (w_calls w))"
  obtain r1 w1 where t: "transact q ?ts (tick (tick w)) = (r1, w1)"
    by fastforce
  then have w1: "transact_put q ?ts (w_store w) = (r1, w_store w1)" "off_store w1 = off_store w"
    by (simp_all add: transact_run) (metis off_store_simps)
  have st: "w_store w1 = w_store w" if "r1 = Inl e" for e
    using transact_put_Inl w1(1) that by blast
  have run: "setEnvironmentReleasePointer sv q w =
    catchE (bindE (service sv (transact q ?ts)) (\<lambda>_. retE (moved_pointer q ?ts)))
      (\<lambda>err. case err of
         Sdk e \<Rightarrow> if isConditionalCheckFailed e
           then throwE (ConcurrentPromotionError (sp_orgId q) (sp_agentTargetId q) (sp_environment q))
           else throwE err
       | _ \<Rightarrow> throwE err) (tick w)"
    by (simp add: setEnvironmentReleasePointer_def now_iso_def now_ms_def bindE_def retE_def)
  have "off_store w' = off_store w \<and> (clean_faults sv \<and> (\<exists>e. r = Inl e) \<longrightarrow> w_store w' = w_store w) \<and>
      (w_store w' = w_store w \<or> transact_put q ?ts (w_store w) = (Inr (), w_store w')) \<and>
      (\<forall>p. r = Inr p \<longrightarrow> transact_put q ?ts (w_store w) = (Inr (), w_store w') \<and> p = moved_pointer q ?ts)"
  proof (cases "sv_fault sv (w_calls (tick w))")
    case None
    with assms run t w1 st show ?thesis
      by (cases r1) (auto simp: service_def catchE_def bindE_def retE_def throwE_def split: if_splits)
  next
    case (Some f)
    obtain applied e where f: "f = (applied, e)"
      by (cases f)
    with Some assms run t have w': "w' = (if applied then w1 else tick (tick w)) \<and> (\<exists>x. r = Inl x)"
      by (auto simp: service_def catchE_def bindE_def retE_def throwE_def split: if_splits)
    show ?thesis
    proof (cases applied)
      case True
      then have "\<not> clean_faults sv"
        using Some f by (auto simp: clean_faults_def)
      with True w' w1 st show ?thesis
        by (cases r1) auto
    next
      case False
      with w' show ?thesis
        by auto
    qed
  qed
  then show ?thesis
    unfolding Let_def by blast
qed

section \<open>What the gate chain has checked\<close>

definition policy_of :: "world \<Rightarrow> string \<Rightarrow> string \<Rightarrow> environment \<Rightarrow> promotion_policy option" where
  "policy_of w org a e =
     resolvePromotionPolicy (Inr (tbl_get (w_policies w) org) :: exn + jsval option) a (Some e)"

text \<open>The next lower environment points at the release.\<close>

definition ladder_ok :: "world \<Rightarrow> string \<Rightarrow> string \<Rightarrow> environment \<Rightarrow> string \<Rightarrow> bool" where
  "ladder_ok w org a e r \<longleftrightarrow>
     (\<forall>pe. predecessorEnvironment e = Some pe \<longrightarrow>
        (\<exists>p. read_pointer (w_store w) org a pe = Some p \<and> ptr_releaseId p = r))"

text \<open>The policy is at least as strict as that of the next lower environment, and the gate opened under it
  on evidence of the organisation.\<close>

definition gate_passed :: "services \<Rightarrow> world \<Rightarrow> agent_release \<Rightarrow> environment \<Rightarrow> string \<Rightarrow> bool" where
  "gate_passed sv w rel e org \<longleftrightarrow>
     (\<exists>policy i. policy_of w org (rel_agentTargetId rel) e = Some policy \<and>
        (\<forall>pe. predecessorEnvironment e = Some pe \<longrightarrow>
           (\<exists>lower. policy_of w org (rel_agentTargetId rel) pe = Some lower \<and> at_least_as_strict policy lower)) \<and>
        gi_policy i = policy \<and> gate_open (sv_date_parse sv) i \<and>
        (\<exists>run. owned_completed_run w org (ev_evalRunId (con_evalEvidence rel)) run \<and>
           Some (gi_runCompletedAt i) = run_completedAt run) \<and>
        tbl_get (w_suites w) (ev_evalSuiteId (con_evalEvidence rel)) = Some (gi_liveSuite i) \<and>
        suite_orgId (gi_liveSuite i) = Some org \<and>
        gi_hasBaseline i = (read_pointer (w_store w) org (rel_agentTargetId rel) e \<noteq> None))"

lemma ladder_durable: "durable w' = durable w \<Longrightarrow> ladder_ok w' = ladder_ok w"
  unfolding ladder_ok_def fun_eq_iff using durableD(1) [of w' w] by simp

lemma off_ledgerD:
  assumes "off_ledger w' = off_ledger w"
  shows "w_store w' = w_store w" "w_releases w' = w_releases w" "w_policies w' = w_policies w"
    "w_runs w' = w_runs w" "w_suites w' = w_suites w" "w_caseResults w' = w_caseResults w"
    "w_usage w' = w_usage w" "w_events w' = w_events w"
  using arg_cong [OF assms, of w_store] arg_cong [OF assms, of w_releases]
    arg_cong [OF assms, of w_policies] arg_cong [OF assms, of w_runs]
    arg_cong [OF assms, of w_suites] arg_cong [OF assms, of w_caseResults]
    arg_cong [OF assms, of w_usage] arg_cong [OF assms, of w_events]
  by (simp_all add: off_ledger_def durable_def)

lemma read_policy_Inr:
  assumes "read_policy sv org a e w = (Inr (Some p), w')"
  shows "policy_of w org a e = Some p"
proof -
  obtain row w1 where row: "tryE (fetch sv (\<lambda>w. tbl_get (w_policies w) org)) w = (Inr row, w1)"
    and p: "resolvePromotionPolicy row a (Some e) = Some p"
    using assms unfolding read_policy_def by (auto simp: run_rules)
  from p obtain r where r: "row = Inr r"
    by (cases row) (auto simp: resolvePromotionPolicy_def)
  have "r = tbl_get (w_policies w) org"
    using row r by (auto simp: tryE_def run_rules)
  with p r show ?thesis
    by (simp add: policy_of_def resolvePromotionPolicy_def)
qed

lemma policy_of_durable: "durable w' = durable w \<Longrightarrow> policy_of w' = policy_of w"
  unfolding policy_of_def fun_eq_iff using durableD(3) [of w' w] by simp

lemma monotonicity_failure_None:
  assumes "monotonicity_failure sv org a e p w = (Inr None, w')" and "predecessorEnvironment e = Some pe"
  shows "\<exists>lower. policy_of w org a pe = Some lower \<and> at_least_as_strict p lower"
  using assms unfolding monotonicity_failure_def
  by (auto simp: run_rules monotonic_iff dest!: read_policy_Inr split: option.splits if_splits)

lemma assertLadder_Inr:
  "assertLadderAdjacency sv org a e r w = (Inr u, w') \<Longrightarrow> ladder_ok w org a e r"
  unfolding assertLadderAdjacency_def read_defs ladder_ok_def
  by (auto simp: run_rules split: option.splits if_splits)

lemma resolved_evidence:
  assumes "resolveReleaseGateEvidence sv rel e org policy now w = (Inr (Inr i), w')"
  shows "\<exists>v. gather_evidence sv rel e org policy now w = (Inr i, v)"
  using assms by (auto simp: resolveReleaseGateEvidence_def run_rules split: if_splits)

lemma gate_verdict_pass:
  assumes run: "gate_verdict sv rel e org w = (Inr v, w')" and pass: "\<not> isFailStatus (go_status v)"
  shows "gate_passed sv w rel e org"
proof -
  let ?a = "rel_agentTargetId rel"
  obtain now resolution w1 w2 where
    now: "now_iso sv w = (Inr now, w1)" and
    pol0: "read_policy sv org ?a e w1 = (Inr resolution, w2)"
    using run unfolding gate_verdict_def by (auto simp: run_rules)
  with run pass obtain policy where pol: "read_policy sv org ?a e w1 = (Inr (Some policy), w2)"
    by (cases resolution)
      (auto simp: gate_verdict_def bindE_def retE_def synthetic_fail_def isFailStatus_def)
  obtain failure w3 where mono0: "monotonicity_failure sv org ?a e policy w2 = (Inr failure, w3)"
    using run now pol unfolding gate_verdict_def by (auto simp: bindE_def split: prod.splits sum.splits)
  with run pass now pol have mono: "monotonicity_failure sv org ?a e policy w2 = (Inr None, w3)"
    by (cases failure)
      (auto simp: gate_verdict_def bindE_def retE_def synthetic_fail_def isFailStatus_def)
  obtain evidence w4 where ev0: "resolveReleaseGateEvidence sv rel e org policy now w3 = (Inr evidence, w4)"
    using resolveReleaseGateEvidence_total by blast
  with run pass now pol mono obtain ev where
    ev: "resolveReleaseGateEvidence sv rel e org policy now w3 = (Inr (Inr ev), w4)"
    by (cases evidence)
      (auto simp: gate_verdict_def bindE_def retE_def synthetic_fail_def isFailStatus_def)
  with run now pol mono have v: "\<exists>g. evaluateReleaseGate (sv_date_parse sv) ev = Some g \<and> go_status v = gv_status g"
    by (auto simp: gate_verdict_def bindE_def retE_def throwE_def split: option.splits)
  have d1: "durable w1 = durable w" and d2: "durable w2 = durable w" and d3: "durable w3 = durable w"
    using keepsD [OF keeps_now_durable(2) now] keepsD [OF keeps_read_policy pol]
      keepsD [OF keeps_monotonicity mono] by simp_all
  obtain x where "gather_evidence sv rel e org policy now w3 = (Inr ev, x)"
    using resolved_evidence [OF ev] by blast
  note facts = gather_evidence_Inr [OF this]
  have "gate_open (sv_date_parse sv) ev"
    using v pass by (auto simp: gate_open_def isFailStatus_def) (metis gate_status.exhaust)
  moreover have "policy_of w org ?a e = Some policy"
    using read_policy_Inr [OF pol] policy_of_durable [OF d1] by simp
  moreover have "\<exists>lower. policy_of w org ?a pe = Some lower \<and> at_least_as_strict policy lower"
    if "predecessorEnvironment e = Some pe" for pe
    using monotonicity_failure_None [OF mono that] policy_of_durable [OF d2] by simp
  moreover have "owned_completed_run w3 = owned_completed_run w"
    unfolding owned_completed_run_def fun_eq_iff using durableD(4) [OF d3] by simp
  ultimately show ?thesis
    using facts durableD(1,5) [OF d3] unfolding gate_passed_def by auto
qed

lemma keeps_cache_data: "keeps m data \<Longrightarrow> keeps m w_flag_cache"
proof -
  assume "keeps m data"
  then have "w_flag_cache (data (snd (m w))) = w_flag_cache (data w)" for w
    unfolding keeps_def by simp
  then show ?thesis
    by (simp add: keeps_def data_def)
qed

section \<open>What a pinned mode adds\<close>

text \<open>The row a decision is recorded in; its content is the one just decided unless the same decision was
  recorded before.\<close>

definition gate_key :: "services \<Rightarrow> string \<Rightarrow> agent_release \<Rightarrow> environment \<Rightarrow> bool \<Rightarrow> string" where
  "gate_key sv org rel e permit = sv_sha256hex sv (hash_join
     [org, rel_agentTargetId rel, env_str e, rel_releaseId rel, decision_str permit])"

definition approval_key :: "services \<Rightarrow> string \<Rightarrow> agent_release \<Rightarrow> environment \<Rightarrow> bool \<Rightarrow> string" where
  "approval_key sv org rel e permit = sv_sha256hex sv (hash_join
     [org, rel_agentTargetId rel, env_str e, rel_releaseId rel, ''approval'', decision_str permit])"

definition has_finding :: "world \<Rightarrow> world \<Rightarrow> string \<Rightarrow> (ledger_item \<Rightarrow> bool) \<Rightarrow> bool" where
  "has_finding w w' k P \<longleftrightarrow>
     (\<exists>row. tbl_get (w_ledger w') k = Some row \<and> (tbl_get (w_ledger w) k = None \<longrightarrow> P row))"

lemma has_finding_extends:
  "has_finding w v k P \<Longrightarrow> ledger_extends v w' \<Longrightarrow> has_finding w w' k P"
  by (auto simp: has_finding_def ledger_extends_def)

definition by_caller :: "auth_context \<Rightarrow> agent_release \<Rightarrow> bool \<Rightarrow> ledger_item \<Rightarrow> bool" where
  "by_caller ctx rel permit row \<longleftrightarrow>
     li_permit row = permit \<and> li_decided_by row = ac_userId ctx \<and> li_release_id row = rel_releaseId rel"

lemma validateReleaseGate_run:
  assumes run: "validateReleaseGate sv rel e org ctx w = (r, w')"
    and pin: "mode_pinned sv (env_str e) m w"
  shows "mode_pinned sv (env_str e) m w' \<and>
    (r = Inr () \<and> m = Strict \<longrightarrow> gate_passed sv w rel e org) \<and>
    (r = Inr () \<and> m \<noteq> Permissive \<and> honest sv \<longrightarrow>
       (\<exists>permit. (m = Strict \<longrightarrow> permit) \<and>
          has_finding w w' (gate_key sv org rel e permit) (by_caller ctx rel permit)))"
proof -
  obtain v w1 where verdict: "gate_verdict sv rel e org w = (v, w1)"
    by fastforce
  have d1: "durable w1 = durable w" and c1: "w_flag_cache w1 = w_flag_cache w"
    using keepsD [OF keeps_gate_verdict verdict]
      keepsD [OF keeps_cache_data [OF keeps_gate_verdict_data] verdict] by simp_all
  have pin1: "mode_pinned sv (env_str e) m w1"
    using pin c1 by (simp add: mode_pinned_def)
  obtain w2 where flag: "getGovernanceEnforce sv (env_str e) w1 = (Inr m, w2)"
    and pin2: "mode_pinned sv (env_str e) m w2"
    using getGovernanceEnforce_pinned [OF pin1] by blast
  have d2: "durable w2 = durable w"
    using keepsD [OF keeps_getGovernanceEnforce flag] d1 by simp
  show ?thesis
  proof (cases v)
    case (Inl x)
    with run verdict pin1 show ?thesis
      by (auto simp: validateReleaseGate_def bindE_def)
  next
    case (Inr g)
    let ?permit = "\<not> isFailStatus (go_status g)"
    let ?i = "\<lparr>gf_orgId = org, gf_agentTargetId = rel_agentTargetId rel,
              gf_environment = e, gf_releaseId = rel_releaseId rel,
              gf_decidedBy = ac_userId ctx, gf_permit = ?permit,
              gf_reasons = go_reasons g, gf_scoreVector = go_scoreVector g,
              gf_mode = m, gf_traceId = trace_id sv, gf_runId = None\<rparr>"
    obtain x w3 where wr: "writeReleaseGateFinding sv ?i w2 = (x, w3)"
      by fastforce
    have step: "validateReleaseGate sv rel e org ctx w =
      bindE (whenE (gd_recordFinding (governanceDisposition m)) (writeReleaseGateFinding sv ?i))
        (\<lambda>_. guardE (\<not> (gd_block (governanceDisposition m) \<and> isFailStatus (go_status g)))
          (ReleaseGateError (rel_releaseId rel) (go_reasons g))) w2"
      using verdict Inr flag by (simp add: validateReleaseGate_def bindE_step Let_def)
    have key: "gate_findingIdFor sv ?i = gate_key sv org rel e ?permit"
      by (simp add: gate_findingIdFor_def gate_key_def)
    show ?thesis
    proof (cases "m = Permissive")
      case True
      with step run pin2 show ?thesis
        by (auto simp: bindE_def whenE_def guardE_def retE_def)
    next
      case False
      then have rec: "gd_recordFinding (governanceDisposition m)"
        by (cases m) simp_all
      have pin3: "mode_pinned sv (env_str e) m w3"
        using pin2 mode_pinned_cache keepsD [OF write_finding_cache(1) wr] by blast
      have w': "w' = w3"
        using run step rec wr by (cases x) (auto simp: bindE_def whenE_def guardE_run)
      have ok: "x = Inr () \<and> (m = Strict \<longrightarrow> ?permit)" if "r = Inr ()"
        using run step rec wr that
        by (cases x; cases m) (auto simp: bindE_def whenE_def guardE_run split: if_splits)
      have "has_finding w w' (gate_key sv org rel e ?permit) (by_caller ctx rel ?permit)"
        if "r = Inr ()" "honest sv"
        using write_gate_finding(3) [OF wr _ that(2)] ok [OF that(1)] w' key durableD(7) [OF d2]
        by (auto simp: has_finding_def by_caller_def gate_item_def)
      moreover have "gate_passed sv w rel e org" if "r = Inr ()" "m = Strict"
        using gate_verdict_pass verdict Inr ok that by blast
      ultimately show ?thesis
        using pin3 w' ok by blast
    qed
  qed
qed

lemma validatePromotionApproval_run:
  assumes run: "validatePromotionApproval sv rel e org ctx appr w = (r, w')"
    and pin: "mode_pinned sv (env_str e) Strict w"
  shows "(r = Inr () \<longrightarrow> (\<exists>a. appr = Some a \<and> appr_approved a)) \<and>
    (r = Inr () \<and> honest sv \<longrightarrow>
       has_finding w w' (approval_key sv org rel e True) (by_caller ctx rel True)) \<and>
    (\<forall>a. appr = Some a \<and> \<not> appr_approved a \<and> honest sv \<and>
         r = Inl (ReleaseApprovalRequiredError (rel_releaseId rel)) \<longrightarrow>
       has_finding w w' (approval_key sv org rel e False) (by_caller ctx rel False))"
proof -
  obtain w1 where flag: "getGovernanceEnforce sv (env_str e) w = (Inr Strict, w1)"
    using getGovernanceEnforce_pinned [OF pin] by blast
  show ?thesis
  proof (cases appr)
    case None
    with run flag show ?thesis
      by (simp add: validatePromotionApproval_def bindE_step guardE_run)
  next
    case (Some a)
    obtain x w2 where diff: "resolveCandidateVsStableDiff sv rel e org w1 = (x, w2)"
      by fastforce
    then obtain d where x: "x = Inr d"
      by (auto simp: resolveCandidateVsStableDiff_def catchE_def retE_def split: prod.splits sum.splits)
    let ?i = "\<lparr>af_orgId = org, af_agentTargetId = rel_agentTargetId rel,
                  af_environment = e, af_releaseId = rel_releaseId rel,
                  af_decidedBy = ac_userId ctx, af_permit = appr_approved a,
                  af_justification = appr_justification a, af_traceId = trace_id sv,
                  af_runId = None, af_diff = d\<rparr>"
    obtain y w3 where wr: "writeReleasePromotionApprovalFinding sv ?i w2 = (y, w3)"
      by fastforce
    have step: "validatePromotionApproval sv rel e org ctx appr w =
      bindE (writeReleasePromotionApprovalFinding sv ?i)
        (\<lambda>_. guardE (appr_approved a) (ReleaseApprovalRequiredError (rel_releaseId rel))) w2"
      using flag diff x Some by (simp add: validatePromotionApproval_def bindE_step)
    have key: "approval_findingIdFor sv ?i = approval_key sv org rel e (appr_approved a)"
      by (simp add: approval_findingIdFor_def approval_key_def)
    have "durable w2 = durable w"
      using keepsD [OF keeps_getGovernanceEnforce flag] keepsD [OF keeps_resolveDiff diff] by simp
    note ledger = durableD(7) [OF this]
    have found: "has_finding w w3 (approval_key sv org rel e (appr_approved a)) (by_caller ctx rel (appr_approved a))"
      if "y = Inr ()" "honest sv"
      using write_approval_finding(3) [OF wr that] key ledger
      by (auto simp: has_finding_def by_caller_def approval_item_def)
    show ?thesis
    proof (cases y)
      case (Inl err)
      obtain ts where "put_finding sv (approval_item sv ts ?i) (tick w2) = (y, w3)"
        using wr by (auto simp: writeReleasePromotionApprovalFinding_def bindE_def now_ms_def)
      then have "\<exists>s. err = Sdk s"
        using Inl by (auto simp: put_finding_def catchE_def service_def throwE_def retE_def
            split: option.splits prod.splits sum.splits if_splits)
      with Inl run step wr show ?thesis
        by (auto simp: bindE_stop)
    next
      case (Inr u)
      then have "guardE (appr_approved a) (ReleaseApprovalRequiredError (rel_releaseId rel)) w3 = (r, w')"
        using run step wr by (simp add: bindE_step)
      with Inr found Some show ?thesis
        by (cases "appr_approved a") (auto simp: guardE_run)
    qed
  qed
qed

lemma gate_chain_run:
  assumes run: "gate_chain sv rel a e rid org ctx appr w = (Inr u, w')"
  shows "ladder_ok w org a e rid \<and>
    (mode_pinned sv (env_str e) Strict w \<longrightarrow>
       gate_passed sv w rel e org \<and> (\<exists>x. appr = Some x \<and> appr_approved x) \<and>
       (honest sv \<longrightarrow>
          has_finding w w' (gate_key sv org rel e True) (by_caller ctx rel True) \<and>
          (\<exists>v. ledger_extends w v \<and>
             has_finding v w' (approval_key sv org rel e True) (by_caller ctx rel True))))"
proof -
  obtain w1 w2 where ladder: "assertLadderAdjacency sv org a e rid w = (Inr (), w1)"
    and gate: "validateReleaseGate sv rel e org ctx w1 = (Inr (), w2)"
    and appr: "validatePromotionApproval sv rel e org ctx appr w2 = (Inr (), w')"
    using run unfolding gate_chain_def by (auto simp: run_rules)
  have d1: "durable w1 = durable w"
    using keepsD [OF keeps_assertLadder ladder] .
  have c1: "w_flag_cache w1 = w_flag_cache w"
    using ladder unfolding assertLadderAdjacency_def read_defs
    by (auto simp: run_rules split: option.splits)
  have r12: "ledger_extends w1 w2" and r23: "ledger_extends w2 w'"
    using guaranteesD [OF recorded_validateReleaseGate gate]
      guaranteesD [OF recorded_validatePromotionApproval appr] by (simp_all add: recorded_def)
  have r01: "ledger_extends w w1"
    using ledger_extends_durable [OF d1] .
  have "gate_passed sv w1 rel e org = gate_passed sv w rel e org"
    using durableD(1,4,5) [OF d1] policy_of_durable [OF d1]
    by (simp add: gate_passed_def owned_completed_run_def)
  moreover have "has_finding w1 v k P = has_finding w v k P" for v k P
    using durableD(7) [OF d1] by (simp add: has_finding_def)
  moreover have "mode_pinned sv (env_str e) Strict w1 = mode_pinned sv (env_str e) Strict w"
    using c1 by (rule mode_pinned_cache)
  ultimately show ?thesis
    using assertLadder_Inr [OF ladder] validateReleaseGate_run [OF gate, of Strict]
      validatePromotionApproval_run [OF appr] has_finding_extends [OF _ r23]
      ledger_extends_trans [OF r01 r12]
    by (metis governance_mode.distinct(3))
qed

text \<open>What a passed gate chain stands for, between the world before it and a later one.\<close>

definition chain_checked ::
  "services \<Rightarrow> world \<Rightarrow> world \<Rightarrow> auth_context \<Rightarrow> string \<Rightarrow> agent_release \<Rightarrow> string \<Rightarrow> environment \<Rightarrow>
   string \<Rightarrow> promotion_approval option \<Rightarrow> bool" where
  "chain_checked sv w w' ctx org rel a e rid appr \<longleftrightarrow>
     ladder_ok w org a e rid \<and>
     (mode_pinned sv (env_str e) Strict w \<longrightarrow>
        gate_passed sv w rel e org \<and> (\<exists>x. appr = Some x \<and> appr_approved x) \<and>
        (honest sv \<longrightarrow>
           has_finding w w' (gate_key sv org rel e True) (by_caller ctx rel True) \<and>
           (\<exists>v. ledger_extends w v \<and>
              has_finding v w' (approval_key sv org rel e True) (by_caller ctx rel True))))"

lemma chain_checkedI:
  assumes run: "gate_chain sv rel a e rid org ctx appr u = (Inr x, v)"
    and d: "durable u = durable w" and c: "w_flag_cache u = w_flag_cache w" and ext: "ledger_extends v w'"
  shows "chain_checked sv w w' ctx org rel a e rid appr"
proof -
  have "gate_passed sv u rel e org = gate_passed sv w rel e org"
    using durableD(1,4,5) [OF d] policy_of_durable [OF d]
    by (simp add: gate_passed_def owned_completed_run_def)
  moreover have "has_finding u t k P = has_finding w t k P" for t k P
    using durableD(7) [OF d] by (simp add: has_finding_def)
  moreover have "mode_pinned sv (env_str e) Strict u = mode_pinned sv (env_str e) Strict w"
    using c by (rule mode_pinned_cache)
  moreover have "ledger_extends u = ledger_extends w"
    using durableD(7) [OF d] by (simp add: ledger_extends_def fun_eq_iff)
  ultimately show ?thesis
    using gate_chain_run [OF run] has_finding_extends [OF _ ext] ladder_durable [OF d]
    unfolding chain_checked_def by metis
qed

lemma requirePermission_Inr:
  "requireReleasePromotePermission ctx w = (Inr u, w') \<Longrightarrow>
     hasPermission ctx ''release:promote'' = Inr True \<and> w' = w"
  "requireReleaseCanaryPermission ctx w = (Inr u, w') \<Longrightarrow>
     hasPermission ctx ''release:canary'' = Inr True \<and> w' = w"
  by (auto simp: requireReleasePromotePermission_def requireReleaseCanaryPermission_def requirePermission_def
      run_rules split: if_splits)

lemma own_release_Inr:
  "own_release sv r org w = (Inr rel, w') \<Longrightarrow>
     tbl_get (w_releases w) r = Some rel \<and> rel_orgId rel = org \<and> w' = tick w"
  unfolding own_release_def read_defs by (auto simp: run_rules split: option.splits if_splits)

lemma getPointer_Inr:
  "getEnvironmentReleasePointer sv org a e w = (Inr p, w') \<Longrightarrow>
     p = read_pointer (w_store w) org a e \<and> w' = tick w"
  unfolding read_defs by (auto simp: run_rules)

lemma current_canary_Inr:
  "current_canary sv org a e w = (Inr (p, c), w') \<Longrightarrow>
     read_pointer (w_store w) org a e = Some p \<and> ptr_canary p = Some c \<and> w' = tick w"
  unfolding current_canary_def read_defs by (auto simp: run_rules split: option.splits)

lemma validatePercent_Inr:
  "validatePercentBasisPoints x w = (Inr u, w') \<Longrightarrow>
     (\<exists>n. x = Fin (of_int n) \<and> 0 \<le> n \<and> n \<le> 10000) \<and> w' = w"
  by (cases x) (auto simp: validatePercentBasisPoints_def guardE_run not_less split: if_splits
      intro!: exI [of _ "\<lfloor>q\<rfloor>" for q])

lemma enforceCeiling_Inr:
  "enforceCanaryCeiling sv org a e x w = (Inr u, w') \<Longrightarrow>
     \<exists>policy. policy_of w org a e = Some policy \<and> \<not> js_lt (Fin (canaryMaxBasisPoints policy)) x"
  unfolding enforceCanaryCeiling_def
  by (auto simp: run_rules dest!: read_policy_Inr split: option.splits if_splits)

lemma promote_params_Inr:
  assumes "promote_params sv input ctx org w = (Inr q, w1)"
  shows "hasPermission ctx ''release:promote'' = Inr True \<and>
    (\<exists>rel. tbl_get (w_releases w) (spi_releaseId input) = Some rel \<and> rel_orgId rel = org \<and>
       chain_checked sv w w1 ctx org rel (spi_agentTargetId input) (spi_environment input)
         (spi_releaseId input) (spi_approval input)) \<and>
    (let p = read_pointer (w_store w) org (spi_agentTargetId input) (spi_environment input)
     in q = \<lparr>sp_orgId = org, sp_agentTargetId = spi_agentTargetId input,
           sp_environment = spi_environment input, sp_releaseId = spi_releaseId input,
           sp_expectedVersion = map_option ptr_version p, sp_currentReleaseId = map_option ptr_releaseId p,
           sp_promotedBy = ac_userId ctx, sp_canary = None, sp_transitionType = None\<rparr>)"
proof -
  obtain rel w2 u3 w3 where
    perm: "requireReleasePromotePermission ctx w = (Inr (), w)" and
    rel: "own_release sv (spi_releaseId input) org w = (Inr rel, w2)" and
    chain: "gate_chain sv rel (spi_agentTargetId input) (spi_environment input) (spi_releaseId input) org ctx
      (spi_approval input) w2 = (Inr u3, w3)" and
    cur: "\<exists>p. getEnvironmentReleasePointer sv org (spi_agentTargetId input) (spi_environment input) w3 = (Inr p, w1) \<and>
      q = \<lparr>sp_orgId = org, sp_agentTargetId = spi_agentTargetId input,
           sp_environment = spi_environment input, sp_releaseId = spi_releaseId input,
           sp_expectedVersion = map_option ptr_version p, sp_currentReleaseId = map_option ptr_releaseId p,
           sp_promotedBy = ac_userId ctx, sp_canary = None, sp_transitionType = None\<rparr>"
    using assms unfolding promote_params_def
    by (auto simp: run_rules dest: requirePermission_Inr(1))
  have w2: "w2 = tick w"
    using own_release_Inr [OF rel] by simp
  have w1: "w1 = tick w3"
    using cur getPointer_Inr by blast
  have st: "w_store w3 = w_store w"
    using guaranteesD [OF recorded_gate_chain chain] off_ledgerD(1) [of w3 w2] w2 by (simp add: recorded_def)
  have chk: "chain_checked sv w w1 ctx org rel (spi_agentTargetId input) (spi_environment input)
         (spi_releaseId input) (spi_approval input)"
    by (rule chain_checkedI [OF chain]) (simp_all add: w1 w2)
  from cur st have q: "q = \<lparr>sp_orgId = org, sp_agentTargetId = spi_agentTargetId input,
      sp_environment = spi_environment input, sp_releaseId = spi_releaseId input,
      sp_expectedVersion = map_option ptr_version (read_pointer (w_store w) org (spi_agentTargetId input) (spi_environment input)),
      sp_currentReleaseId = map_option ptr_releaseId (read_pointer (w_store w) org (spi_agentTargetId input) (spi_environment input)),
      sp_promotedBy = ac_userId ctx, sp_canary = None, sp_transitionType = None\<rparr>"
    using getPointer_Inr by fastforce
  from requirePermission_Inr(1) [OF perm] own_release_Inr [OF rel] chk show ?thesis
    unfolding q Let_def by blast
qed

definition sane_percent :: "services \<Rightarrow> world \<Rightarrow> string \<Rightarrow> string \<Rightarrow> environment \<Rightarrow> jsnum \<Rightarrow> bool" where
  "sane_percent sv w org a e x \<longleftrightarrow>
     (\<exists>n policy. x = Fin (of_int n) \<and> 0 \<le> n \<and> n \<le> 10000 \<and>
        policy_of w org a e = Some policy \<and> of_int n \<le> canaryMaxBasisPoints policy)"

lemma sane_percentI:
  assumes "validatePercentBasisPoints x v = (Inr u, v')"
    and "enforceCanaryCeiling sv org a e x t = (Inr u', t')" and "w_policies t = w_policies w"
  shows "sane_percent sv w org a e x"
proof -
  obtain n where n: "x = Fin (of_int n)" "0 \<le> n" "n \<le> 10000"
    using validatePercent_Inr [OF assms(1)] by blast
  obtain policy where "policy_of t org a e = Some policy" "\<not> js_lt (Fin (canaryMaxBasisPoints policy)) x"
    using enforceCeiling_Inr [OF assms(2)] by blast
  moreover have "policy_of t org a e = policy_of w org a e"
    using assms(3) by (simp add: policy_of_def)
  ultimately show ?thesis
    using n unfolding sane_percent_def by (auto simp: not_less intro!: exI [of _ n])
qed

lemma startCanary_params_Inr:
  assumes "startCanary_params sv input ctx org w = (Inr q, w1)"
  shows "hasPermission ctx ''release:canary'' = Inr True \<and>
    sane_percent sv w org (sci_agentTargetId input) (sci_environment input) (sci_percentBasisPoints input) \<and>
    (\<exists>rel. tbl_get (w_releases w) (sci_candidateReleaseId input) = Some rel \<and> rel_orgId rel = org \<and>
       chain_checked sv w w1 ctx org rel (sci_agentTargetId input) (sci_environment input)
         (sci_candidateReleaseId input) (sci_approval input)) \<and>
    (\<exists>p n t. read_pointer (w_store w) org (sci_agentTargetId input) (sci_environment input) = Some p \<and>
       ptr_canary p = None \<and>
       q = canary_move org (sci_agentTargetId input) (sci_environment input) p ctx (ptr_releaseId p)
           (Some \<lparr>candidateReleaseId = sci_candidateReleaseId input,
                  percentBasisPoints = sci_percentBasisPoints input,
                  stickiness = sci_stickiness input, salt = sv_uuid sv n,
                  canary_startedAt = sv_iso sv t, canary_startedBy = ac_userId ctx\<rparr>)
           T_CANARY_START)"
proof -
  obtain rel p v1 v2 v3 w2 u3 w3 u4 w4 n t where
    perm: "requireReleaseCanaryPermission ctx w = (Inr (), v1)" and
    pct: "validatePercentBasisPoints (sci_percentBasisPoints input) v1 = (Inr (), v2)" and
    rel: "own_release sv (sci_candidateReleaseId input) org v2 = (Inr rel, w2)" and
    cur: "getEnvironmentReleasePointer sv org (sci_agentTargetId input) (sci_environment input) w2 =
      (Inr (Some p), v3)" "ptr_canary p = None" and
    chain: "gate_chain sv rel (sci_agentTargetId input) (sci_environment input) (sci_candidateReleaseId input)
      org ctx (sci_approval input) v3 = (Inr u3, w3)" and
    ceil: "enforceCanaryCeiling sv org (sci_agentTargetId input) (sci_environment input)
      (sci_percentBasisPoints input) w3 = (Inr u4, w4)" and
    fin: "w1 = tick (tick w4)" and
    q: "q = canary_move org (sci_agentTargetId input) (sci_environment input) p ctx (ptr_releaseId p)
           (Some \<lparr>candidateReleaseId = sci_candidateReleaseId input,
                  percentBasisPoints = sci_percentBasisPoints input,
                  stickiness = sci_stickiness input, salt = sv_uuid sv n,
                  canary_startedAt = sv_iso sv t, canary_startedBy = ac_userId ctx\<rparr>)
           T_CANARY_START"
    using assms unfolding startCanary_params_def
    by (auto simp: run_rules split: option.splits if_splits)
  have v: "v1 = w" "v2 = w" "w2 = tick w" "v3 = tick (tick w)"
    using requirePermission_Inr(2) [OF perm] validatePercent_Inr [OF pct] own_release_Inr [OF rel]
      getPointer_Inr [OF cur(1)] by simp_all
  have pol: "w_policies w3 = w_policies w"
    using guaranteesD [OF recorded_gate_chain chain] off_ledgerD(3) [of w3 v3] v
    by (simp add: recorded_def)
  have "ledger_extends w3 w1"
    using ledger_extends_durable [OF keepsD [OF keeps_ceiling ceil]] fin by (simp add: ledger_extends_def)
  then have chk: "chain_checked sv w w1 ctx org rel (sci_agentTargetId input) (sci_environment input)
         (sci_candidateReleaseId input) (sci_approval input)"
    by (intro chain_checkedI [OF chain]) (simp_all add: v)
  have "read_pointer (w_store w) org (sci_agentTargetId input) (sci_environment input) = Some p"
    using getPointer_Inr [OF cur(1)] v by simp
  with requirePermission_Inr(2) [OF perm] sane_percentI [OF pct ceil pol] own_release_Inr [OF rel] chk cur(2) q
  show ?thesis
    unfolding v by blast
qed

lemma reweightCanary_params_Inr:
  assumes "reweightCanary_params sv input ctx org w = (Inr q, w1)"
  shows "hasPermission ctx ''release:canary'' = Inr True \<and>
    sane_percent sv w org (rci_agentTargetId input) (rci_environment input) (rci_percentBasisPoints input) \<and>
    (\<exists>p c. read_pointer (w_store w) org (rci_agentTargetId input) (rci_environment input) = Some p \<and>
       ptr_canary p = Some c \<and>
       q = canary_move org (rci_agentTargetId input) (rci_environment input) p ctx (ptr_releaseId p)
           (Some (c\<lparr>percentBasisPoints := rci_percentBasisPoints input\<rparr>)) T_CANARY_REWEIGHT)"
proof -
  obtain p c u v1 v2 v3 where
    perm: "requireReleaseCanaryPermission ctx w = (Inr (), v1)" and
    pct: "validatePercentBasisPoints (rci_percentBasisPoints input) v1 = (Inr (), v2)" and
    cur: "current_canary sv org (rci_agentTargetId input) (rci_environment input) v2 = (Inr (p, c), v3)" and
    ceil: "enforceCanaryCeiling sv org (rci_agentTargetId input) (rci_environment input)
      (rci_percentBasisPoints input) v3 = (Inr u, w1)" and
    q: "q = canary_move org (rci_agentTargetId input) (rci_environment input) p ctx (ptr_releaseId p)
           (Some (c\<lparr>percentBasisPoints := rci_percentBasisPoints input\<rparr>)) T_CANARY_REWEIGHT"
    using assms unfolding reweightCanary_params_def
    by (auto simp: run_rules split: prod.splits)
  have v: "v1 = w" "v2 = w" "v3 = tick w"
    using requirePermission_Inr(2) [OF perm] validatePercent_Inr [OF pct] current_canary_Inr [OF cur] by simp_all
  have "sane_percent sv w org (rci_agentTargetId input) (rci_environment input) (rci_percentBasisPoints input)"
    by (rule sane_percentI [OF pct ceil]) (simp add: v)
  with requirePermission_Inr(2) [OF perm] current_canary_Inr [OF cur] q show ?thesis
    unfolding v by blast
qed

lemma promoteCanary_params_Inr:
  assumes "promoteCanary_params sv input ctx org w = (Inr q, w1)"
  shows "hasPermission ctx ''release:canary'' = Inr True \<and> hasPermission ctx ''release:promote'' = Inr True \<and>
    (\<exists>p c rel. read_pointer (w_store w) org (coi_agentTargetId input) (coi_environment input) = Some p \<and>
       ptr_canary p = Some c \<and>
       tbl_get (w_releases w) (candidateReleaseId c) = Some rel \<and> rel_orgId rel = org \<and>
       chain_checked sv w w1 ctx org rel (coi_agentTargetId input) (coi_environment input)
         (candidateReleaseId c) (coi_approval input) \<and>
       q = canary_move org (coi_agentTargetId input) (coi_environment input) p ctx (candidateReleaseId c)
           None T_CANARY_PROMOTE)"
proof -
  obtain p c rel v1 v2 v3 w2 u where
    perm: "requireReleaseCanaryPermission ctx w = (Inr (), v1)" "requireReleasePromotePermission ctx v1 = (Inr (), v2)" and
    cur: "current_canary sv org (coi_agentTargetId input) (coi_environment input) v2 = (Inr (p, c), v3)" and
    rel: "own_release sv (candidateReleaseId c) org v3 = (Inr rel, w2)" and
    chain: "gate_chain sv rel (coi_agentTargetId input) (coi_environment input) (candidateReleaseId c)
      org ctx (coi_approval input) w2 = (Inr u, w1)" and
    q: "q = canary_move org (coi_agentTargetId input) (coi_environment input) p ctx (candidateReleaseId c)
           None T_CANARY_PROMOTE"
    using assms unfolding promoteCanary_params_def
    by (auto simp: run_rules split: prod.splits)
  have v: "v1 = w" "v2 = w" "v3 = tick w" "w2 = tick (tick w)"
    using requirePermission_Inr(2) [OF perm(1)] requirePermission_Inr(1) [OF perm(2)] current_canary_Inr [OF cur]
      own_release_Inr [OF rel] by simp_all
  have "chain_checked sv w w1 ctx org rel (coi_agentTargetId input) (coi_environment input)
         (candidateReleaseId c) (coi_approval input)"
    by (intro chain_checkedI [OF chain]) (simp_all add: v)
  with requirePermission_Inr(2) [OF perm(1)] requirePermission_Inr(1) [OF perm(2)] current_canary_Inr [OF cur]
    own_release_Inr [OF rel] q
  show ?thesis
    by (auto simp: v)
qed

lemma abortCanary_params_Inr:
  assumes "abortCanary_params sv input ctx org w = (Inr q, w1)"
  shows "hasPermission ctx ''release:canary'' = Inr True \<and>
    (\<exists>p c. read_pointer (w_store w) org (coi_agentTargetId input) (coi_environment input) = Some p \<and>
       ptr_canary p = Some c \<and>
       q = canary_move org (coi_agentTargetId input) (coi_environment input) p ctx (ptr_releaseId p)
           None T_CANARY_ABORT)"
  using assms unfolding abortCanary_params_def
  by (auto simp: run_rules dest!: requirePermission_Inr(2) current_canary_Inr split: prod.splits)

section \<open>The effect of an operation\<close>

definition other_tables where
  "other_tables w = (w_releases w, w_policies w, w_runs w, w_suites w, w_caseResults w, w_usage w)"

text \<open>Whatever the outcome: the ledger grows, other tables are untouched, and the store is as it was or
  one complete move of the organisation further.\<close>

definition one_move :: "services \<Rightarrow> string \<Rightarrow> store \<Rightarrow> store \<Rightarrow> bool" where
  "one_move sv org st st' \<longleftrightarrow>
     (\<exists>q t. sp_orgId q = org \<and> versioned_move st q \<and> transact_put q (sv_iso sv t) st = (Inr (), st'))"

definition resolver_effect :: "services \<Rightarrow> string \<Rightarrow> world \<Rightarrow> world \<Rightarrow> bool" where
  "resolver_effect sv org w w' \<longleftrightarrow>
     other_tables w' = other_tables w \<and> ledger_extends w w' \<and>
     (w_store w' = w_store w \<or> one_move sv org (w_store w) (w_store w'))"

lemma other_tables_recorded: "recorded w w' \<Longrightarrow> other_tables w' = other_tables w \<and> w_store w' = w_store w"
  using off_ledgerD [of w' w] by (simp add: recorded_def other_tables_def)

lemma off_storeD:
  assumes "off_store w' = off_store w"
  shows "other_tables w' = other_tables w" "w_ledger w' = w_ledger w" "w_flag_cache w' = w_flag_cache w"
  using arg_cong [OF assms, of other_tables] arg_cong [OF assms, of w_ledger]
    arg_cong [OF assms, of w_flag_cache]
  by (simp_all add: off_store_def data_def other_tables_def)

lemma recorded_effect: "recorded w w' \<Longrightarrow> resolver_effect sv org w w'"
  using other_tables_recorded [of w w'] by (simp add: resolver_effect_def recorded_def)

text \<open>The store is as it was or one move further, the one the parameters describe; a success made it.\<close>

definition move_made :: "services \<Rightarrow> set_params io \<Rightarrow> world \<Rightarrow> exn + pointer \<Rightarrow> world \<Rightarrow> bool" where
  "move_made sv pc w r w' \<longleftrightarrow>
     (w_store w' = w_store w \<or>
       (\<exists>q v t. pc w = (Inr q, v) \<and> transact_put q (sv_iso sv t) (w_store w) = (Inr (), w_store w'))) \<and>
     (clean_faults sv \<and> (\<exists>e. r = Inl e) \<longrightarrow> w_store w' = w_store w) \<and>
     (\<forall>p. r = Inr p \<longrightarrow>
       (\<exists>q v t. pc w = (Inr q, v) \<and> p = moved_pointer q (sv_iso sv t) \<and>
          transact_put q (sv_iso sv t) (w_store w) = (Inr (), w_store w') \<and> w_ledger w' = w_ledger v))"

lemma move_outcome:
  assumes pc: "guarantees pc recorded"
    and facts: "\<And>q v. pc w = (Inr q, v) \<Longrightarrow> sp_orgId q = org \<and> versioned_move (w_store w) q"
    and run: "bindE pc (setEnvironmentReleasePointer sv) w = (r, w')"
  shows "resolver_effect sv org w w' \<and> move_made sv pc w r w'"
proof -
  obtain x v where x: "pc w = (x, v)"
    by fastforce
  then have rec: "recorded w v"
    using guaranteesD [OF pc] by blast
  note tables = other_tables_recorded [OF rec]
  show ?thesis
  proof (cases x)
    case (Inl e)
    with run x rec show ?thesis
      using tables by (auto simp: bindE_stop recorded_effect move_made_def)
  next
    case (Inr q)
    then have set: "setEnvironmentReleasePointer sv q v = (r, w')"
      using run x by (simp add: bindE_step)
    from setPointer_outcome [OF set] obtain t where
      off: "off_store w' = off_store v" and
      cl: "clean_faults sv \<and> (\<exists>e. r = Inl e) \<longrightarrow> w_store w' = w_store v" and
      st: "w_store w' = w_store v \<or> transact_put q (sv_iso sv t) (w_store v) = (Inr (), w_store w')" and
      ok: "\<forall>p. r = Inr p \<longrightarrow> transact_put q (sv_iso sv t) (w_store v) = (Inr (), w_store w') \<and>
        p = moved_pointer q (sv_iso sv t)"
      unfolding Let_def by blast
    have "ledger_extends w w'"
      using rec off_storeD(2) [OF off] by (simp add: recorded_def ledger_extends_def)
    moreover have "w_store w' = w_store w \<or> one_move sv org (w_store w) (w_store w')"
      using st facts [of q v] x Inr tables unfolding one_move_def by auto
    ultimately show ?thesis
      using off_storeD(1,2) [OF off] tables ok st cl x Inr by (auto simp: resolver_effect_def move_made_def)
  qed
qed

lemma emit_outcome:
  "emitReleasePointerMovedEvent sv m w = (r, w') \<Longrightarrow>
     r = Inr () \<and> w_store w' = w_store w \<and> w_ledger w' = w_ledger w \<and> other_tables w' = other_tables w"
  unfolding emitReleasePointerMovedEvent_def
  by (auto simp: catchE_def service_def retE_def other_tables_def split: option.splits prod.splits if_splits)

lemma move_emit_outcome:
  assumes pc: "guarantees pc recorded"
    and facts: "\<And>q v. pc w = (Inr q, v) \<Longrightarrow> sp_orgId q = org \<and> versioned_move (w_store w) q"
    and run: "bindE pc (\<lambda>q. bindE (setEnvironmentReleasePointer sv q) (\<lambda>m.
       bindE (emitReleasePointerMovedEvent sv m) (\<lambda>_. retE m))) w = (r, w')"
  shows "resolver_effect sv org w w' \<and> move_made sv pc w r w'"
proof -
  obtain x u where x: "bindE pc (setEnvironmentReleasePointer sv) w = (x, u)"
    by fastforce
  have run': "bindE (bindE pc (setEnvironmentReleasePointer sv)) (\<lambda>m.
      bindE (emitReleasePointerMovedEvent sv m) (\<lambda>_. retE m)) w = (r, w')"
    using run by (simp add: bindE_assoc)
  note out = move_outcome [OF pc facts x]
  show ?thesis
  proof (cases x)
    case (Inl e)
    with run' x out show ?thesis
      by (simp add: bindE_stop move_made_def)
  next
    case (Inr m)
    obtain y v where y: "emitReleasePointerMovedEvent sv m u = (y, v)"
      by fastforce
    note emit = emit_outcome [OF y]
    then have "r = Inr m" "w' = v"
      using run' x Inr y by (simp_all add: bindE_step retE_def)
    with out Inr emit show ?thesis
      by (auto simp: resolver_effect_def ledger_extends_def move_made_def)
  qed
qed

end
