(* ===== verification/PointerTheorems.thy ===== *)
theory PointerTheorems
  imports PointerSafety
begin

text \<open>
  The properties of the pointer resolver: what a successful promotion, canary start, reweight and
  full cutover have checked, what no operation can change, and that the handler keeps the
  invariant of pointers and history and stays within the caller's organisation.
\<close>

section \<open>Outcome of each operation\<close>

lemma versioned_move_read:
  "read_pointer st org a e = Some p \<Longrightarrow> versioned_move st (canary_move org a e p ctx r c t)"
  by (simp add: versioned_move_def canary_move_def)

lemma promote_params_versioned:
  "promote_params sv input ctx org w = (Inr q, v) \<Longrightarrow> sp_orgId q = org \<and> versioned_move (w_store w) q"
  by (auto simp: Let_def versioned_move_def dest!: promote_params_Inr)

lemma startCanary_params_versioned:
  "startCanary_params sv input ctx org w = (Inr q, v) \<Longrightarrow> sp_orgId q = org \<and> versioned_move (w_store w) q"
  by (auto simp: versioned_move_def canary_move_def dest!: startCanary_params_Inr)

lemma reweightCanary_params_versioned:
  "reweightCanary_params sv input ctx org w = (Inr q, v) \<Longrightarrow> sp_orgId q = org \<and> versioned_move (w_store w) q"
  by (auto simp: versioned_move_def canary_move_def dest!: reweightCanary_params_Inr)

lemma promoteCanary_params_versioned:
  "promoteCanary_params sv input ctx org w = (Inr q, v) \<Longrightarrow> sp_orgId q = org \<and> versioned_move (w_store w) q"
  by (auto simp: versioned_move_def canary_move_def dest!: promoteCanary_params_Inr)

lemma abortCanary_params_versioned:
  "abortCanary_params sv input ctx org w = (Inr q, v) \<Longrightarrow> sp_orgId q = org \<and> versioned_move (w_store w) q"
  by (auto simp: versioned_move_def canary_move_def dest!: abortCanary_params_Inr)

lemma promote_outcome:
  assumes "promoteEnvironmentReleasePointer sv input ctx org w = (r, w')"
  shows "resolver_effect sv org w w' \<and> move_made sv (promote_params sv input ctx org) w r w'"
  using assms unfolding promoteEnvironmentReleasePointer_def
  by (intro move_emit_outcome [OF recorded_params(1)] promote_params_versioned)

lemma startCanary_outcome:
  assumes "startCanary sv input ctx org w = (r, w')"
  shows "resolver_effect sv org w w' \<and> move_made sv (startCanary_params sv input ctx org) w r w'"
  using assms unfolding startCanary_def
  by (intro move_outcome [OF recorded_params(2)] startCanary_params_versioned)

lemma reweightCanary_outcome:
  assumes "reweightCanary sv input ctx org w = (r, w')"
  shows "resolver_effect sv org w w' \<and> move_made sv (reweightCanary_params sv input ctx org) w r w'"
  using assms unfolding reweightCanary_def
  by (intro move_outcome [OF recorded_params(3)] reweightCanary_params_versioned)

lemma promoteCanary_outcome:
  assumes "promoteCanary sv input ctx org w = (r, w')"
  shows "resolver_effect sv org w w' \<and> move_made sv (promoteCanary_params sv input ctx org) w r w'"
  using assms unfolding promoteCanary_def
  by (intro move_emit_outcome [OF recorded_params(4)] promoteCanary_params_versioned)

lemma abortCanary_outcome:
  assumes "abortCanary sv input ctx org w = (r, w')"
  shows "resolver_effect sv org w w' \<and> move_made sv (abortCanary_params sv input ctx org) w r w'"
  using assms unfolding abortCanary_def
  by (intro move_outcome [OF recorded_params(5)] abortCanary_params_versioned)

text \<open>The pointer after a move, and nothing else of it.\<close>

definition moved_to :: "world \<Rightarrow> world \<Rightarrow> string \<Rightarrow> string \<Rightarrow> environment \<Rightarrow> auth_context \<Rightarrow> string \<Rightarrow>
    canary_state option \<Rightarrow> pointer \<Rightarrow> bool" where
  "moved_to w w' org a e ctx rid c p \<longleftrightarrow>
     (let old = read_pointer (w_store w) org a e
      in (\<exists>row. read_pointer (w_store w') org a e = Some row \<and> row\<lparr>ptr_canaryActiveKey := None\<rparr> = p) \<and>
         ptr_releaseId p = rid \<and> ptr_canary p = c \<and> ptr_promotedBy p = ac_userId ctx \<and>
         ptr_version p = (case old of None \<Rightarrow> 1 | Some x \<Rightarrow> ptr_version x + 1) \<and>
         ptr_previousReleaseId p = map_option ptr_releaseId old \<and>
         (\<forall>o' a' e'. (o', a', e') \<noteq> (org, a, e) \<longrightarrow>
            read_pointer (w_store w') o' a' e' = read_pointer (w_store w) o' a' e'))"

lemma moved_toI:
  assumes "transact_put q ts (w_store w) = (Inr (), w_store w')" and "p = moved_pointer q ts"
    and "sp_orgId q = org" "sp_agentTargetId q = a" "sp_environment q = e" "sp_releaseId q = rid"
      "sp_canary q = c" "sp_promotedBy q = ac_userId ctx"
      "sp_expectedVersion q = map_option ptr_version (read_pointer (w_store w) org a e)"
      "sp_currentReleaseId q = map_option ptr_releaseId (read_pointer (w_store w) org a e)"
  shows "moved_to w w' org a e ctx rid c p"
  using assms read_after_put [OF assms(1)]
  by (auto simp: moved_to_def Let_def nextVersion_def split: option.split)

section \<open>Promotion\<close>

text \<open>C2. A promotion that succeeds was permitted, names an existing release of the caller's
  organisation that the next lower environment currently points at, and, where enforcement is
  strict, one the quality gate passed under a policy at least as strict as the lower
  environment's and a human approved, with both decisions in the ledger. The pointer then names the
  release one version later, without a canary, and no other pointer has moved.\<close>

theorem promotion_checked:
  assumes "promoteEnvironmentReleasePointer sv input ctx org w = (Inr p, w')"
  shows "hasPermission ctx ''release:promote'' = Inr True \<and>
    (\<exists>rel. tbl_get (w_releases w) (spi_releaseId input) = Some rel \<and> rel_orgId rel = org \<and>
       chain_checked sv w w' ctx org rel (spi_agentTargetId input) (spi_environment input)
         (spi_releaseId input) (spi_approval input)) \<and>
    moved_to w w' org (spi_agentTargetId input) (spi_environment input) ctx (spi_releaseId input) None p"
proof -
  obtain q v t where pc: "promote_params sv input ctx org w = (Inr q, v)"
    and p: "p = moved_pointer q (sv_iso sv t)"
    and put: "transact_put q (sv_iso sv t) (w_store w) = (Inr (), w_store w')"
    and ledger: "w_ledger w' = w_ledger v"
    using promote_outcome [OF assms] unfolding move_made_def by blast
  note facts = promote_params_Inr [OF pc, unfolded Let_def]
  have "chain_checked sv w w' = chain_checked sv w v"
    using ledger by (simp add: chain_checked_def has_finding_def fun_eq_iff)
  moreover have "moved_to w w' org (spi_agentTargetId input) (spi_environment input) ctx (spi_releaseId input) None p"
    using facts by (intro moved_toI [OF put p]) simp_all
  ultimately show ?thesis
    using facts by simp
qed

section \<open>The canary life cycle\<close>

text \<open>Starting a canary takes the same checks as promoting the candidate, plus a whole number of basis
  points between 0 and 10000 and at most the ceiling of the policy, on a pointer without a canary;
  the stable release stays.\<close>

theorem canary_start_checked:
  assumes "startCanary sv input ctx org w = (Inr p, w')"
  shows "hasPermission ctx ''release:canary'' = Inr True \<and>
    sane_percent sv w org (sci_agentTargetId input) (sci_environment input) (sci_percentBasisPoints input) \<and>
    (\<exists>rel. tbl_get (w_releases w) (sci_candidateReleaseId input) = Some rel \<and> rel_orgId rel = org \<and>
       chain_checked sv w w' ctx org rel (sci_agentTargetId input) (sci_environment input)
         (sci_candidateReleaseId input) (sci_approval input)) \<and>
    (\<exists>old c. read_pointer (w_store w) org (sci_agentTargetId input) (sci_environment input) = Some old \<and>
       ptr_canary old = None \<and>
       moved_to w w' org (sci_agentTargetId input) (sci_environment input) ctx (ptr_releaseId old) (Some c) p \<and>
       candidateReleaseId c = sci_candidateReleaseId input \<and>
       percentBasisPoints c = sci_percentBasisPoints input \<and> stickiness c = sci_stickiness input)"
proof -
  obtain q v t where pc: "startCanary_params sv input ctx org w = (Inr q, v)"
    and p: "p = moved_pointer q (sv_iso sv t)"
    and put: "transact_put q (sv_iso sv t) (w_store w) = (Inr (), w_store w')"
    and ledger: "w_ledger w' = w_ledger v"
    using startCanary_outcome [OF assms] unfolding move_made_def by blast
  note facts = startCanary_params_Inr [OF pc]
  then obtain old n u where old: "read_pointer (w_store w) org (sci_agentTargetId input) (sci_environment input) = Some old"
    "ptr_canary old = None"
    and q: "q = canary_move org (sci_agentTargetId input) (sci_environment input) old ctx (ptr_releaseId old)
           (Some \<lparr>candidateReleaseId = sci_candidateReleaseId input,
                  percentBasisPoints = sci_percentBasisPoints input,
                  stickiness = sci_stickiness input, salt = sv_uuid sv n,
                  canary_startedAt = sv_iso sv u, canary_startedBy = ac_userId ctx\<rparr>)
           T_CANARY_START"
    by blast
  have "chain_checked sv w w' = chain_checked sv w v"
    using ledger by (simp add: chain_checked_def has_finding_def fun_eq_iff)
  moreover have "moved_to w w' org (sci_agentTargetId input) (sci_environment input) ctx (ptr_releaseId old)
      (sp_canary q) p"
    using old by (intro moved_toI [OF put p]) (simp_all add: q canary_move_def)
  ultimately show ?thesis
    using facts old by (auto simp: q canary_move_def)
qed

text \<open>Reweighting a canary changes its threshold only: release, candidate, stickiness, salt and start are
  those of the canary before, and the new threshold is a whole number of basis points under the
  ceiling.\<close>

theorem canary_reweight_keeps_salt:
  assumes "reweightCanary sv input ctx org w = (Inr p, w')"
  shows "hasPermission ctx ''release:canary'' = Inr True \<and>
    sane_percent sv w org (rci_agentTargetId input) (rci_environment input) (rci_percentBasisPoints input) \<and>
    (\<exists>old c. read_pointer (w_store w) org (rci_agentTargetId input) (rci_environment input) = Some old \<and>
       ptr_canary old = Some c \<and>
       moved_to w w' org (rci_agentTargetId input) (rci_environment input) ctx (ptr_releaseId old)
         (Some (c\<lparr>percentBasisPoints := rci_percentBasisPoints input\<rparr>)) p)"
proof -
  obtain q v t where pc: "reweightCanary_params sv input ctx org w = (Inr q, v)"
    and p: "p = moved_pointer q (sv_iso sv t)"
    and put: "transact_put q (sv_iso sv t) (w_store w) = (Inr (), w_store w')"
    using reweightCanary_outcome [OF assms] unfolding move_made_def by blast
  from reweightCanary_params_Inr [OF pc] obtain old c where
    old: "read_pointer (w_store w) org (rci_agentTargetId input) (rci_environment input) = Some old"
      "ptr_canary old = Some c"
    and q: "q = canary_move org (rci_agentTargetId input) (rci_environment input) old ctx (ptr_releaseId old)
           (Some (c\<lparr>percentBasisPoints := rci_percentBasisPoints input\<rparr>)) T_CANARY_REWEIGHT"
    by blast
  have "moved_to w w' org (rci_agentTargetId input) (rci_environment input) ctx (ptr_releaseId old)
         (Some (c\<lparr>percentBasisPoints := rci_percentBasisPoints input\<rparr>)) p"
    using old by (intro moved_toI [OF put p]) (simp_all add: q canary_move_def)
  with reweightCanary_params_Inr [OF pc] old show ?thesis
    by blast
qed

text \<open>C11. A full cutover needs both permissions and passes the whole gate chain again on the candidate of the
  active canary; the pointer then names the candidate, without a canary.\<close>

theorem canary_promote_checked:
  assumes "promoteCanary sv input ctx org w = (Inr p, w')"
  shows "hasPermission ctx ''release:canary'' = Inr True \<and> hasPermission ctx ''release:promote'' = Inr True \<and>
    (\<exists>old c rel. read_pointer (w_store w) org (coi_agentTargetId input) (coi_environment input) = Some old \<and>
       ptr_canary old = Some c \<and>
       tbl_get (w_releases w) (candidateReleaseId c) = Some rel \<and> rel_orgId rel = org \<and>
       chain_checked sv w w' ctx org rel (coi_agentTargetId input) (coi_environment input)
         (candidateReleaseId c) (coi_approval input) \<and>
       moved_to w w' org (coi_agentTargetId input) (coi_environment input) ctx (candidateReleaseId c) None p)"
proof -
  obtain q v t where pc: "promoteCanary_params sv input ctx org w = (Inr q, v)"
    and p: "p = moved_pointer q (sv_iso sv t)"
    and put: "transact_put q (sv_iso sv t) (w_store w) = (Inr (), w_store w')"
    and ledger: "w_ledger w' = w_ledger v"
    using promoteCanary_outcome [OF assms] unfolding move_made_def by blast
  have chk: "chain_checked sv w w' = chain_checked sv w v"
    using ledger by (simp add: chain_checked_def has_finding_def fun_eq_iff)
  from promoteCanary_params_Inr [OF pc] obtain old c rel where
    old: "read_pointer (w_store w) org (coi_agentTargetId input) (coi_environment input) = Some old"
    and more: "ptr_canary old = Some c" "tbl_get (w_releases w) (candidateReleaseId c) = Some rel" "rel_orgId rel = org"
      "chain_checked sv w v ctx org rel (coi_agentTargetId input) (coi_environment input)
         (candidateReleaseId c) (coi_approval input)"
    and q: "q = canary_move org (coi_agentTargetId input) (coi_environment input) old ctx (candidateReleaseId c)
           None T_CANARY_PROMOTE"
    by blast
  have "moved_to w w' org (coi_agentTargetId input) (coi_environment input) ctx (candidateReleaseId c) None p"
    using old by (intro moved_toI [OF put p]) (simp_all add: q canary_move_def)
  with promoteCanary_params_Inr [OF pc] old more chk show ?thesis
    by metis
qed

section \<open>What no outcome can change\<close>

text \<open>The stable release of every pointer.\<close>

definition stable_of :: "store \<Rightarrow> string \<Rightarrow> string \<Rightarrow> environment \<Rightarrow> string option" where
  "stable_of st org a e = map_option ptr_releaseId (read_pointer st org a e)"

lemma stable_of_move:
  assumes "transact_put (canary_move org a e old ctx (ptr_releaseId old) c t) ts st = (Inr (), st')"
    and "read_pointer st org a e = Some old"
  shows "stable_of st' = stable_of st"
  using assms(2) read_after_put [OF assms(1)]
  by (auto simp: stable_of_def fun_eq_iff canary_move_def)

lemma move_made_stable:
  assumes "move_made sv pc w r w'"
    and "\<And>q v. pc w = (Inr q, v) \<Longrightarrow>
      \<exists>a e old c t. read_pointer (w_store w) org a e = Some old \<and>
        q = canary_move org a e old ctx (ptr_releaseId old) c t"
  shows "stable_of (w_store w') = stable_of (w_store w)"
proof (cases "w_store w' = w_store w")
  case False
  then obtain q v t where pc: "pc w = (Inr q, v)"
    and put: "transact_put q (sv_iso sv t) (w_store w) = (Inr (), w_store w')"
    using assms(1) unfolding move_made_def by blast
  from assms(2) [OF pc] put stable_of_move show ?thesis
    by blast
qed simp

text \<open>Whatever happens to a canary start, a reweight or an abort, failures of the platform included, the
  stable release of every pointer is what it was.\<close>

theorem canary_ops_keep_stable:
  "stable_of (w_store (snd (startCanary sv si ctx org w))) = stable_of (w_store w) \<and>
   stable_of (w_store (snd (reweightCanary sv ri ctx org w))) = stable_of (w_store w) \<and>
   stable_of (w_store (snd (abortCanary sv ci ctx org w))) = stable_of (w_store w)"
proof (intro conjI)
  have "move_made sv (startCanary_params sv si ctx org) w (fst (startCanary sv si ctx org w))
      (snd (startCanary sv si ctx org w))"
    using startCanary_outcome by (metis surjective_pairing)
  then show "stable_of (w_store (snd (startCanary sv si ctx org w))) = stable_of (w_store w)"
    by (rule move_made_stable [where org = org and ctx = ctx]) (blast dest: startCanary_params_Inr)
  have "move_made sv (reweightCanary_params sv ri ctx org) w (fst (reweightCanary sv ri ctx org w))
      (snd (reweightCanary sv ri ctx org w))"
    using reweightCanary_outcome by (metis surjective_pairing)
  then show "stable_of (w_store (snd (reweightCanary sv ri ctx org w))) = stable_of (w_store w)"
    by (rule move_made_stable [where org = org and ctx = ctx]) (blast dest: reweightCanary_params_Inr)
  have "move_made sv (abortCanary_params sv ci ctx org) w (fst (abortCanary sv ci ctx org w))
      (snd (abortCanary sv ci ctx org w))"
    using abortCanary_outcome by (metis surjective_pairing)
  then show "stable_of (w_store (snd (abortCanary sv ci ctx org w))) = stable_of (w_store w)"
    by (rule move_made_stable [where org = org and ctx = ctx]) (blast dest: abortCanary_params_Inr)
qed

section \<open>The handler\<close>

lemma fmapE_run: "fmapE f m w = (r, w') \<Longrightarrow> \<exists>x. m w = (x, w') \<and> (\<forall>e. r = Inl e \<longleftrightarrow> x = Inl e)"
  by (auto simp: fmapE_def bindE_def retE_def split: prod.splits sum.splits)

lemma data_effect: "keeps m data \<Longrightarrow> m w = (r, w') \<Longrightarrow> resolver_effect sv org w w'"
  using recorded_durable [OF keeps_data_durable, of m] by (auto dest: guaranteesD recorded_effect)

lemma dispatch_effect:
  assumes "resolver_dispatch sv req ctx org w = (r, w')"
  shows "resolver_effect sv org w w'"
proof (cases req)
  case (Promote_request i)
  with assms promote_outcome show ?thesis
    by (fastforce simp: resolver_dispatch_def dest!: fmapE_run)
next
  case (StartCanary_request i)
  with assms startCanary_outcome show ?thesis
    by (fastforce simp: resolver_dispatch_def dest!: fmapE_run)
next
  case (ReweightCanary_request i)
  with assms reweightCanary_outcome show ?thesis
    by (fastforce simp: resolver_dispatch_def dest!: fmapE_run)
next
  case (PromoteCanary_request i)
  with assms promoteCanary_outcome show ?thesis
    by (fastforce simp: resolver_dispatch_def dest!: fmapE_run)
next
  case (AbortCanary_request i)
  with assms abortCanary_outcome show ?thesis
    by (fastforce simp: resolver_dispatch_def dest!: fmapE_run)
next
  case (GetCurrent_request a e)
  with assms data_effect [OF keeps_fetch_data] show ?thesis
    by (fastforce simp: resolver_dispatch_def read_defs dest!: fmapE_run)
next
  case (List_request a)
  with assms data_effect [OF keeps_fetch_data] show ?thesis
    by (fastforce simp: resolver_dispatch_def read_defs dest!: fmapE_run)
next
  case (History_request a e u)
  with assms data_effect [OF keeps_fetch_data] show ?thesis
    by (fastforce simp: resolver_dispatch_def read_defs dest!: fmapE_run)
next
  case (Unknown_request f)
  with assms show ?thesis
    by (auto simp: resolver_dispatch_def throwE_run resolver_effect_def)
qed

lemma pointer_handler_cases:
  assumes "pointer_handler sv event w = (r, w')"
  shows "(w' = w \<and> (\<exists>e. r = Inl e)) \<or>
    (\<exists>org. extractOrgFromEvent event = Some (JStr org) \<and>
       resolver_dispatch sv (ge_arguments event) (authContextFromEvent event) org w = (r, w'))"
proof -
  let ?run = "\<lambda>claim. bindE (liftE (string_org claim))
    (\<lambda>org. resolver_dispatch sv (ge_arguments event) (authContextFromEvent event) org)"
  have step: "?thesis" if "?run claim w = (r, w')" "extractOrgFromEvent event = Some claim" for claim
    using that by (cases claim) (auto simp: string_org_def bindE_def liftE_def)
  show ?thesis
  proof (cases "extractOrgFromEvent event")
    case None
    with assms show ?thesis
      by (cases "ge_arguments event") (auto simp: pointer_handler_def Let_def throwE_run)
  next
    case (Some claim)
    then have "w' = w \<and> (\<exists>e. r = Inl e) \<or> ?run claim w = (r, w')"
      using assms by (cases "ge_arguments event") (auto simp: pointer_handler_def Let_def throwE_run)
    with step Some show ?thesis
      by blast
  qed
qed

lemma one_move_confined:
  assumes "one_move sv org st st'" and "o' \<noteq> org"
  shows "read_pointer st' o' a e = read_pointer st o' a e"
  using assms read_after_put unfolding one_move_def by fastforce

text \<open>C8. The handler acts for the caller's own organisation only. Without an organisation claim it throws and
  changes nothing. With one, whatever the request and its outcome: no pointer of another
  organisation moves, releases, policies, runs, suites and usage are untouched, and no row of the
  ledger is changed or lost.\<close>

theorem handler_confined:
  assumes "pointer_handler sv event w = (r, w')"
  shows "((\<nexists>org. extractOrgFromEvent event = Some (JStr org)) \<longrightarrow> w' = w \<and> (\<exists>e. r = Inl e)) \<and>
    (\<forall>org. extractOrgFromEvent event = Some (JStr org) \<longrightarrow>
       (\<forall>o' a e. o' \<noteq> org \<longrightarrow> read_pointer (w_store w') o' a e = read_pointer (w_store w) o' a e)) \<and>
    other_tables w' = other_tables w \<and> ledger_extends w w'"
  using pointer_handler_cases [OF assms]
proof
  assume "\<exists>org. extractOrgFromEvent event = Some (JStr org) \<and>
       resolver_dispatch sv (ge_arguments event) (authContextFromEvent event) org w = (r, w')"
  then obtain org where org: "extractOrgFromEvent event = Some (JStr org)"
    and run: "resolver_dispatch sv (ge_arguments event) (authContextFromEvent event) org w = (r, w')"
    by blast
  from dispatch_effect [OF run] have eff: "resolver_effect sv org w w'" .
  then have "read_pointer (w_store w') o' a e = read_pointer (w_store w) o' a e" if "o' \<noteq> org" for o' a e
    using one_move_confined that unfolding resolver_effect_def by metis
  with eff org show ?thesis
    by (simp add: resolver_effect_def)
qed auto

text \<open>C10. Every run of the handler, successful, refused or cut short, keeps the invariant of pointers and
  history: the history of each pointer has exactly one row for each version up to the current one.\<close>

theorem handler_keeps_invariant:
  assumes "store_inv (w_store w)" and "\<forall>t. CHR ''#'' \<notin> set (sv_iso sv t)"
  shows "store_inv (w_store (snd (pointer_handler sv event w)))"
proof -
  obtain r w' where run: "pointer_handler sv event w = (r, w')"
    by fastforce
  have "w_store w' = w_store w \<or> (\<exists>org. one_move sv org (w_store w) (w_store w'))"
    using pointer_handler_cases [OF run] dispatch_effect unfolding resolver_effect_def by blast
  then have "store_inv (w_store w')"
  proof
    assume "\<exists>org. one_move sv org (w_store w) (w_store w')"
    then obtain q t where "versioned_move (w_store w) q"
      "transact_put q (sv_iso sv t) (w_store w) = (Inr (), w_store w')"
      unfolding one_move_def by blast
    with assms show ?thesis
      by (intro store_inv_put [of "w_store w" q "sv_iso sv t" "()" "w_store w'"]) simp_all
  qed (simp add: assms)
  then show ?thesis
    using run by simp
qed

lemma move_made_refusal: "move_made sv pc w (Inl e) w' \<Longrightarrow> clean_faults sv \<Longrightarrow> w_store w' = w_store w"
  by (simp add: move_made_def)

lemma fmapE_Inl: "fmapE f m w = (Inl e, w') \<Longrightarrow> m w = (Inl e, w')"
  by (auto simp: fmapE_def bindE_def retE_def split: prod.splits sum.splits)

lemma dispatch_refusal:
  assumes "resolver_dispatch sv req ctx org w = (Inl err, w')" and "clean_faults sv"
  shows "w_store w' = w_store w"
proof (cases req)
  case (Promote_request i)
  with assms(1) have "promoteEnvironmentReleasePointer sv i ctx org w = (Inl err, w')"
    by (auto simp: resolver_dispatch_def dest: fmapE_Inl)
  from promote_outcome [OF this] assms(2) show ?thesis
    using move_made_refusal by blast
next
  case (StartCanary_request i)
  with assms(1) have "startCanary sv i ctx org w = (Inl err, w')"
    by (auto simp: resolver_dispatch_def dest: fmapE_Inl)
  from startCanary_outcome [OF this] assms(2) show ?thesis
    using move_made_refusal by blast
next
  case (ReweightCanary_request i)
  with assms(1) have "reweightCanary sv i ctx org w = (Inl err, w')"
    by (auto simp: resolver_dispatch_def dest: fmapE_Inl)
  from reweightCanary_outcome [OF this] assms(2) show ?thesis
    using move_made_refusal by blast
next
  case (PromoteCanary_request i)
  with assms(1) have "promoteCanary sv i ctx org w = (Inl err, w')"
    by (auto simp: resolver_dispatch_def dest: fmapE_Inl)
  from promoteCanary_outcome [OF this] assms(2) show ?thesis
    using move_made_refusal by blast
next
  case (AbortCanary_request i)
  with assms(1) have "abortCanary sv i ctx org w = (Inl err, w')"
    by (auto simp: resolver_dispatch_def dest: fmapE_Inl)
  from abortCanary_outcome [OF this] assms(2) show ?thesis
    using move_made_refusal by blast
next
  case (GetCurrent_request a e)
  with assms(1) show ?thesis
    by (auto simp: resolver_dispatch_def read_defs dest!: fmapE_Inl fetch_Inl)
next
  case (List_request a)
  with assms(1) show ?thesis
    by (auto simp: resolver_dispatch_def read_defs dest!: fmapE_Inl fetch_Inl)
next
  case (History_request a e u)
  with assms(1) show ?thesis
    by (auto simp: resolver_dispatch_def read_defs dest!: fmapE_Inl fetch_Inl)
next
  case (Unknown_request f)
  with assms(1) show ?thesis
    by (auto simp: resolver_dispatch_def throwE_run)
qed

text \<open>With a platform that reports a failure only when the request was not applied, a request that is
  refused or fails has moved no pointer and written no history.\<close>

theorem refusal_moves_nothing:
  assumes "clean_faults sv" and "fst (pointer_handler sv event w) = Inl err"
  shows "w_store (snd (pointer_handler sv event w)) = w_store w"
proof -
  obtain w' where run: "pointer_handler sv event w = (Inl err, w')"
    using assms(2) by (metis prod.collapse)
  show ?thesis
    using pointer_handler_cases [OF run] dispatch_refusal [OF _ assms(1)] run by auto
qed

section \<open>Decisions are recorded before they count\<close>


text \<open>C17. In strict enforcement a promotion goes on only with an explicit approval, recorded; a denial is
  refused, and the refusal that asks for approval comes after the denial is in the ledger.\<close>

theorem strict_needs_approval:
  assumes "validatePromotionApproval sv rel e org ctx appr w = (r, w')"
    and "mode_pinned sv (env_str e) Strict w" and "honest sv"
  shows "(r = Inr () \<longrightarrow> (\<exists>a. appr = Some a \<and> appr_approved a) \<and>
      has_finding w w' (approval_key sv org rel e True) (by_caller ctx rel True)) \<and>
    (\<forall>a. appr = Some a \<and> \<not> appr_approved a \<and>
         r = Inl (ReleaseApprovalRequiredError (rel_releaseId rel)) \<longrightarrow>
       has_finding w w' (approval_key sv org rel e False) (by_caller ctx rel False))"
  using validatePromotionApproval_run [OF assms(1,2)] assms(3) by blast

section \<open>A strict promotion in the small world\<close>

definition strict_world :: world where
  "strict_world = sample_world\<lparr>w_flag_cache :=
     [(''DEV'', \<lparr>ce_enforce = Strict, ce_effectiveAt = None, ce_loadedAt = 0\<rparr>)]\<rparr>"

definition sample_promotion :: "string \<Rightarrow> set_pointer_input" where
  "sample_promotion a = \<lparr>spi_agentTargetId = a, spi_environment = ENV_DEV, spi_releaseId = ''r1'',
     spi_approval = Some \<lparr>appr_approved = True, appr_justification = None\<rparr>\<rparr>"

lemma sample_policy_read:
  assumes "w_policies w = w_policies sample_world"
  shows "read_policy (sample_services m) ''org'' ''agent'' ENV_DEV w = (Inr (Some sample_policy), tick w)"
proof -
  have row: "resolvePromotionPolicy (Inr (tbl_get (w_policies sample_world) ''org'') :: exn + jsval option) ''agent'' (Some ENV_DEV)
      = Some sample_policy"
    by (simp add: sample_world_def tbl_get_def resolvePromotionPolicy_def isReadableRow_def orgId_readable_def js_prop_def
        container_readable_def overrides_readable_def hasWrongTypeField_def has_wrong_type_def POLICY_FIELDS_def
        promotion_layers_def mergePolicyFields_def merge_layers_def merge_source_def as_source_def override_at_def
        isSaneBoolean_def sample_policy_def DEFAULT_PROMOTION_POLICY_def)
  then show ?thesis
    using assms by (simp add: read_policy_def tryE_def fetch_def service_def cmd_defs sample_services_def)
qed


text \<open>The tables the gate reads, as in the small world.\<close>

definition as_sample :: "world \<Rightarrow> bool" where
  "as_sample w \<longleftrightarrow> other_tables w = other_tables sample_world \<and> st_pointers (w_store w) = []"

lemma as_sample_tick [simp]: "as_sample (tick w) = as_sample w"
  by (simp add: as_sample_def other_tables_def)

lemma sample_verdict:
  assumes "as_sample w" and "w_calls w = 1"
  shows "\<exists>w'. gate_verdict (sample_services m) sample_release ENV_DEV ''org'' w =
    (Inr \<lparr>go_status = G_NO_BASELINE_PASS, go_reasons = [Gate R_NO_BASELINE],
          go_scoreVector = [sample_task_aggregate]\<rparr>, w')"
proof -
  let ?sv = "sample_services m"
  have now: "now_iso ?sv w = (Inr ''1'', tick w)"
  proof -
    have "show_nat 1 = ''1''"
      by code_simp
    then show ?thesis
      using assms(2) by (simp add: now_iso_def now_ms_def bindE_def retE_def sample_services_def)
  qed
  have pol: "read_policy ?sv ''org'' ''agent'' ENV_DEV (tick w) = (Inr (Some sample_policy), tick (tick w))"
    using assms(1) by (intro sample_policy_read) (simp add: as_sample_def other_tables_def)
  have mono: "monotonicity_failure ?sv ''org'' ''agent'' ENV_DEV p v = (Inr None, v)" for p v
    by (simp add: monotonicity_failure_def predecessorEnvironment_def ENVIRONMENT_ORDER_def retE_def)
  obtain v where ev: "resolveReleaseGateEvidence ?sv sample_release ENV_DEV ''org'' sample_policy ''1'' (tick (tick w)) =
      (Inr (Inr (sample_gate_inputs sample_policy ''1'')), v)"
    using sample_evidence [of "tick (tick w)" m sample_policy "''1''"] assms(1)
    by (auto simp: as_sample_def other_tables_def sample_world_def)
  have gate: "evaluateReleaseGate sample_date (sample_gate_inputs sample_policy ''1'') =
     Some \<lparr>gv_status = G_NO_BASELINE_PASS, gv_reasons = [R_NO_BASELINE], gv_failedThresholds = [],
       gv_scoreVector = [sample_task_aggregate],
       gv_staleness = \<lparr>stale = False, stale_reasons = []\<rparr>, gv_requiredPacksSatisfied = True\<rparr>"
    by (simp add: evaluateReleaseGate_def Let_def sample_gate_inputs_def sample_inputs_def sample_policy_def
        sample_suite_def sample_task_aggregate_def DEFAULT_PROMOTION_POLICY_def assessStaleness_def
        sample_date_def evaluateAbsoluteThresholds_def aggByDimension_def evaluateRequiredPacks_def
        emptyAggregate_def thin_def below_def MS_PER_DAY_def digits_value_def)
  have dp: "sv_date_parse ?sv = sample_date"
    by (simp add: sample_services_def)
  have a: "rel_agentTargetId sample_release = ''agent''"
    by (simp add: sample_release_def)
  show ?thesis
    by (simp add: gate_verdict_def a bindE_step now pol mono ev gate dp retE_def)
qed

lemma strict_flag:
  assumes "mode_pinned (sample_services ''strict'') ''DEV'' Strict w"
  shows "\<exists>w'. getGovernanceEnforce (sample_services ''strict'') ''DEV'' w = (Inr Strict, w')
     \<and> mode_pinned (sample_services ''strict'') ''DEV'' Strict w'"
  using getGovernanceEnforce_pinned [OF assms] .

lemma put_finding_no_fault:
  "\<forall>n. sv_fault sv n = None \<Longrightarrow> \<exists>w'. put_finding sv item w = (Inr (), w')"
  by (auto simp: put_finding_def catchE_def service_def put_ledger_def retE_def split: option.split)

lemma sample_writes:
  "\<exists>w'. writeReleaseGateFinding (sample_services m) i w = (Inr (), w')"
  "\<exists>w'. writeReleasePromotionApprovalFinding (sample_services m) a w = (Inr (), w')"
  using put_finding_no_fault [of "sample_services m" _ "tick w"]
  by (simp_all add: writeReleaseGateFinding_def writeReleasePromotionApprovalFinding_def bindE_step now_ms_def
      sample_services_def)

lemma sample_gate:
  assumes "as_sample w" and "w_calls w = 1" and "mode_pinned (sample_services ''strict'') ''DEV'' Strict w"
  shows "\<exists>w'. validateReleaseGate (sample_services ''strict'') sample_release ENV_DEV ''org'' ctx w = (Inr (), w')"
proof -
  let ?sv = "sample_services ''strict''"
  obtain v where verdict: "gate_verdict ?sv sample_release ENV_DEV ''org'' w =
    (Inr \<lparr>go_status = G_NO_BASELINE_PASS, go_reasons = [Gate R_NO_BASELINE],
          go_scoreVector = [sample_task_aggregate]\<rparr>, v)"
    using sample_verdict [OF assms(1,2)] by blast
  have "w_flag_cache v = w_flag_cache w"
    using keepsD [OF keeps_cache_data [OF keeps_gate_verdict_data] verdict] .
  with assms(3) have "mode_pinned ?sv ''DEV'' Strict v"
    using mode_pinned_cache by blast
  then obtain u where flag: "getGovernanceEnforce ?sv ''DEV'' v = (Inr Strict, u)"
    using strict_flag by blast
  obtain t where gate: "\<And>i. writeReleaseGateFinding ?sv i u = (Inr (), t i)"
    using sample_writes(1) [of "''strict''" _ u] by metis
  show ?thesis
    by (simp add: validateReleaseGate_def bindE_step verdict flag isFailStatus_def whenE_def gate guardE_def retE_def)
qed

lemma sample_approval:
  assumes "mode_pinned (sample_services ''strict'') ''DEV'' Strict w"
  shows "\<exists>w'. validatePromotionApproval (sample_services ''strict'') sample_release ENV_DEV ''org'' ctx
    (Some \<lparr>appr_approved = True, appr_justification = j\<rparr>) w = (Inr (), w')"
proof -
  let ?sv = "sample_services ''strict''"
  obtain u where flag: "getGovernanceEnforce ?sv ''DEV'' w = (Inr Strict, u)"
    using strict_flag [OF assms] by blast
  obtain d v where diff: "resolveCandidateVsStableDiff ?sv sample_release ENV_DEV ''org'' u = (Inr d, v)"
    by (cases "resolveCandidateVsStableDiff ?sv sample_release ENV_DEV ''org'' u")
      (auto simp: resolveCandidateVsStableDiff_def catchE_def retE_def split: prod.splits sum.splits)
  obtain t where "\<And>i. writeReleasePromotionApprovalFinding ?sv i v = (Inr (), t i)"
    using sample_writes(2) [of "''strict''" _ v] by metis
  then show ?thesis
    by (simp add: validatePromotionApproval_def bindE_step flag diff guardE_def retE_def)
qed


lemma set_no_fault:
  assumes "\<forall>n. sv_fault sv n = None"
    and "put_condition (sp_expectedVersion q)
      (read_pointer (w_store w) (sp_orgId q) (sp_agentTargetId q) (sp_environment q))"
  shows "\<exists>p w'. setEnvironmentReleasePointer sv q w = (Inr p, w')"
proof -
  let ?ts = "sv_iso sv (sv_now_ms sv (w_calls w))"
  obtain u where "transact q ?ts (tick (tick w)) = (Inr (), u)"
    using assms(2) by (auto simp: transact_def transact_put_def read_pointer_def Let_def)
  then show ?thesis
    using assms(1)
    by (simp add: setEnvironmentReleasePointer_def now_iso_def now_ms_def bindE_def retE_def catchE_def service_def)
qed

lemma emit_no_fault: "\<exists>w'. emitReleasePointerMovedEvent sv m w = (Inr (), w')"
  using emit_outcome by (metis surjective_pairing)

lemma sample_permission:
  "requireReleasePromotePermission sample_caller w = (Inr (), w)"
  "requireReleaseCanaryPermission sample_caller w = (Inr (), w)"
  by (simp_all add: requireReleasePromotePermission_def requireReleaseCanaryPermission_def requirePermission_def
      hasPermission_def sample_caller_def rolePermissions_def cmd_defs)

lemma sample_own_release:
  "as_sample w \<Longrightarrow> own_release (sample_services m) ''r1'' ''org'' w = (Inr sample_release, tick w)"
  by (simp add: own_release_def read_defs fetch_def service_def cmd_defs sample_services_def as_sample_def
      other_tables_def sample_world_def tbl_get_def sample_release_def)

lemma ladder_DEV: "assertLadderAdjacency sv org a ENV_DEV r w = (Inr (), w)"
  by (simp add: assertLadderAdjacency_def predecessorEnvironment_def ENVIRONMENT_ORDER_def retE_def)

lemma strict_world_simps:
  "as_sample strict_world" "w_calls strict_world = 0"
  "mode_pinned (sample_services ''strict'') ''DEV'' Strict strict_world"
  by (auto simp: as_sample_def strict_world_def other_tables_def sample_world_def mode_pinned_def
      sample_services_def tbl_get_def enforce_value_def)

lemma sample_chain:
  "\<exists>v. gate_chain (sample_services ''strict'') sample_release a ENV_DEV ''r1'' ''org'' ctx
    (Some \<lparr>appr_approved = True, appr_justification = j\<rparr>) (tick strict_world) = (Inr (), v)"
proof -
  let ?sv = "sample_services ''strict''"
  have start: "as_sample (tick strict_world)" "w_calls (tick strict_world) = 1"
      "mode_pinned ?sv ''DEV'' Strict (tick strict_world)"
    using strict_world_simps by (simp_all add: mode_pinned_cache [of "tick strict_world" strict_world])
  obtain v where gate: "validateReleaseGate ?sv sample_release ENV_DEV ''org'' ctx (tick strict_world) = (Inr (), v)"
    using sample_gate [OF start] by blast
  have "mode_pinned ?sv ''DEV'' Strict v"
    using validateReleaseGate_run [OF gate, of Strict] start(3) by simp
  from sample_approval [OF this] obtain u where
    "validatePromotionApproval ?sv sample_release ENV_DEV ''org'' ctx
      (Some \<lparr>appr_approved = True, appr_justification = j\<rparr>) v = (Inr (), u)"
    by blast
  then show ?thesis
    by (simp add: gate_chain_def bindE_step ladder_DEV gate)
qed

lemma sample_promotion_runs:
  "\<exists>p w'. promoteEnvironmentReleasePointer (sample_services ''strict'') (sample_promotion a) sample_caller ''org''
    strict_world = (Inr p, w')"
proof -
  let ?sv = "sample_services ''strict''"
  obtain v where chain: "gate_chain ?sv sample_release a ENV_DEV ''r1'' ''org'' sample_caller
    (Some \<lparr>appr_approved = True, appr_justification = None\<rparr>) (tick strict_world) = (Inr (), v)"
    using sample_chain by blast
  have "w_store v = w_store strict_world"
    using guaranteesD [OF recorded_gate_chain chain] off_ledgerD(1) [of v "tick strict_world"] by (simp add: recorded_def)
  then have none: "read_pointer (w_store v) ''org'' a ENV_DEV = None"
    using strict_world_simps(1) by (simp add: as_sample_def read_pointer_def)
  have cur: "getEnvironmentReleasePointer ?sv ''org'' a ENV_DEV v = (Inr None, tick v)"
    using none by (simp add: read_defs fetch_def service_def sample_services_def)
  let ?q = "\<lparr>sp_orgId = ''org'', sp_agentTargetId = a, sp_environment = ENV_DEV, sp_releaseId = ''r1'',
      sp_expectedVersion = None, sp_currentReleaseId = None,
      sp_promotedBy = ac_userId sample_caller, sp_canary = None, sp_transitionType = None\<rparr>"
  have params: "promote_params ?sv (sample_promotion a) sample_caller ''org'' strict_world = (Inr ?q, tick v)"
    by (simp add: promote_params_def sample_promotion_def bindE_step sample_permission
        sample_own_release strict_world_simps(1) chain cur retE_def)
  obtain p u where set: "setEnvironmentReleasePointer ?sv ?q (tick v) = (Inr p, u)"
    using set_no_fault [of ?sv ?q "tick v"] none by (auto simp: sample_services_def put_condition_def)
  obtain t where "emitReleasePointerMovedEvent ?sv p u = (Inr (), t)"
    using emit_no_fault by blast
  then show ?thesis
    by (simp add: promoteEnvironmentReleasePointer_def bindE_step params set retE_def)
qed

theorem promotion_checked_witness:
  "\<exists>p w'. promoteEnvironmentReleasePointer (sample_services ''strict'') (sample_promotion ''agent'') sample_caller ''org''
    strict_world = (Inr p, w') \<and>
    moved_to strict_world w' ''org'' ''agent'' ENV_DEV sample_caller ''r1'' None p \<and>
    gate_passed (sample_services ''strict'') strict_world sample_release ENV_DEV ''org''"
proof -
  obtain p w' where run: "promoteEnvironmentReleasePointer (sample_services ''strict'') (sample_promotion ''agent'')
      sample_caller ''org'' strict_world = (Inr p, w')"
    using sample_promotion_runs by blast
  have "tbl_get (w_releases strict_world) ''r1'' = Some sample_release"
    by (simp add: strict_world_def sample_world_def tbl_get_def)
  with promotion_checked [OF run] run strict_world_simps(3) show ?thesis
    by (auto simp: sample_promotion_def chain_checked_def)
qed

text \<open>Nothing compares the agent of the release with the agent whose pointer moves.\<close>

lemma promotion_ignores_agent_of_release:
  "\<exists>p w'. promoteEnvironmentReleasePointer (sample_services ''strict'') (sample_promotion ''other'') sample_caller
      ''org'' strict_world = (Inr p, w') \<and>
    ptr_agentTargetId p = ''other'' \<and> rel_agentTargetId sample_release = ''agent''"
proof -
  obtain p w' where run: "promoteEnvironmentReleasePointer (sample_services ''strict'') (sample_promotion ''other'')
      sample_caller ''org'' strict_world = (Inr p, w')"
    using sample_promotion_runs by blast
  obtain q v t where "promote_params (sample_services ''strict'') (sample_promotion ''other'') sample_caller ''org''
      strict_world = (Inr q, v)" "p = moved_pointer q (sv_iso (sample_services ''strict'') t)"
    using promote_outcome [OF run] unfolding move_made_def by blast
  with run show ?thesis
    by (auto simp: sample_promotion_def sample_release_def Let_def dest!: promote_params_Inr)
qed

section \<open>The gate always answers\<close>

text \<open>Resolved evidence has a comparison exactly when it has a baseline, so the gate never fails.\<close>

lemma read_policy_total: "\<exists>p w'. read_policy sv org a e w = (Inr p, w')"
proof -
  obtain x w' where "fetch sv (\<lambda>w. tbl_get (w_policies w) org) w = (x, w')"
    by fastforce
  then show ?thesis
    by (cases x) (simp_all add: read_policy_def tryE_def bindE_def catchE_def retE_def)
qed

lemma monotonicity_total: "\<exists>f w'. monotonicity_failure sv org a e p w = (Inr f, w')"
proof (cases "predecessorEnvironment e")
  case (Some pe)
  obtain q w' where "read_policy sv org a pe w = (Inr q, w')"
    using read_policy_total by blast
  with Some show ?thesis
    by (simp add: monotonicity_failure_def bindE_step retE_def)
qed (simp add: monotonicity_failure_def retE_def)

lemma gate_verdict_total: "\<exists>v w'. gate_verdict sv rel e org w = (Inr v, w')"
proof -
  obtain now w1 where now: "now_iso sv w = (Inr now, w1)"
    by (simp add: now_iso_def now_ms_def bindE_def retE_def)
  obtain pol w2 where pol: "read_policy sv org (rel_agentTargetId rel) e w1 = (Inr pol, w2)"
    using read_policy_total by blast
  show ?thesis
  proof (cases pol)
    case None
    with now pol show ?thesis
      by (simp add: gate_verdict_def bindE_step retE_def)
  next
    case (Some policy)
    obtain f w3 where mono: "monotonicity_failure sv org (rel_agentTargetId rel) e policy w2 = (Inr f, w3)"
      using monotonicity_total by blast
    show ?thesis
    proof (cases f)
      case None
      obtain ev w4 where ev: "resolveReleaseGateEvidence sv rel e org policy now w3 = (Inr ev, w4)"
        using resolveReleaseGateEvidence_total by blast
      show ?thesis
      proof (cases ev)
        case (Inl reason)
        with now pol mono ev Some None show ?thesis
          by (simp add: gate_verdict_def bindE_step retE_def)
      next
        case (Inr i)
        obtain x where "gather_evidence sv rel e org policy now w3 = (Inr i, x)"
          using resolved_evidence ev Inr by blast
        note facts = gather_evidence_Inr [OF this]
        then have "\<exists>g. evaluateReleaseGate (sv_date_parse sv) i = Some g"
          by (cases "gi_comparisonVerdict i") (auto simp: evaluateReleaseGate_def Let_def)
        with now pol mono ev Some None Inr show ?thesis
          by (auto simp: gate_verdict_def bindE_step retE_def)
      qed
    next
      case (Some reason)
      with now pol mono \<open>pol = Some policy\<close> show ?thesis
        by (simp add: gate_verdict_def bindE_step retE_def)
    qed
  qed
qed


section \<open>A canary in the small world\<close>

lemma permissive_gate:
  assumes "mode_pinned sv (env_str e) Permissive w"
  shows "\<exists>w'. validateReleaseGate sv rel e org ctx w = (Inr (), w') \<and> mode_pinned sv (env_str e) Permissive w'"
proof -
  obtain v u where verdict: "gate_verdict sv rel e org w = (Inr v, u)"
    using gate_verdict_total by blast
  have "mode_pinned sv (env_str e) Permissive u"
    using assms mode_pinned_cache keepsD [OF keeps_cache_data [OF keeps_gate_verdict_data] verdict] by blast
  then obtain t where "getGovernanceEnforce sv (env_str e) u = (Inr Permissive, t)" "mode_pinned sv (env_str e) Permissive t"
    using getGovernanceEnforce_pinned by blast
  then show ?thesis
    by (auto simp: validateReleaseGate_def bindE_step verdict whenE_def guardE_def retE_def)
qed

lemma permissive_chain:
  assumes "mode_pinned sv ''DEV'' Permissive w"
  shows "\<exists>w'. gate_chain sv rel a ENV_DEV r org ctx appr w = (Inr (), w')"
proof -
  obtain v where gate: "validateReleaseGate sv rel ENV_DEV org ctx w = (Inr (), v)" "mode_pinned sv ''DEV'' Permissive v"
    using permissive_gate [of sv ENV_DEV w rel org ctx] assms by auto
  obtain u where "getGovernanceEnforce sv ''DEV'' v = (Inr Permissive, u)"
    using getGovernanceEnforce_pinned [OF gate(2)] by blast
  then show ?thesis
    by (simp add: gate_chain_def bindE_step ladder_DEV gate validatePromotionApproval_def retE_def)
qed

definition sample_pointer :: "canary_state option \<Rightarrow> pointer" where
  "sample_pointer c =
     \<lparr>ptr_orgId = ''org'', ptr_agentTargetId = ''agent'', ptr_environment = ENV_DEV, ptr_releaseId = ''r0'',
      ptr_previousReleaseId = None, ptr_promotedAt = ''0'', ptr_promotedBy = ''alice'', ptr_version = 1,
      ptr_canary = c, ptr_transitionType = Some T_PROMOTE,
      ptr_canaryActiveKey = map_option (\<lambda>_. ''org#agent#DEV'') c\<rparr>"

definition sample_canary :: canary_state where
  "sample_canary =
     \<lparr>candidateReleaseId = ''r1'', percentBasisPoints = Fin 1000, stickiness = St_user, salt = ''salt'',
      canary_startedAt = ''0'', canary_startedBy = ''alice''\<rparr>"

definition canary_world :: "canary_state option \<Rightarrow> world" where
  "canary_world c = sample_world
     \<lparr>w_store := \<lparr>st_pointers = [((''org'', ''agent#DEV''), sample_pointer c)], st_history = []\<rparr>,
      w_flag_cache := [(''DEV'', \<lparr>ce_enforce = Permissive, ce_effectiveAt = None, ce_loadedAt = 0\<rparr>)]\<rparr>"

lemma canary_world_simps:
  "w_policies (canary_world c) = w_policies sample_world" "w_releases (canary_world c) = w_releases sample_world"
  "mode_pinned (sample_services ''permissive'') ''DEV'' Permissive (canary_world c)"
  "read_pointer (w_store (canary_world c)) ''org'' ''agent'' ENV_DEV = Some (sample_pointer c)"
  by (auto simp: canary_world_def mode_pinned_def sample_services_def tbl_get_def enforce_value_def
      read_pointer_def sortKey_def)

lemma sample_own_release':
  "w_releases w = w_releases sample_world \<Longrightarrow>
    own_release (sample_services m) ''r1'' ''org'' w = (Inr sample_release, tick w)"
  by (simp add: own_release_def read_defs fetch_def service_def cmd_defs sample_services_def
      sample_world_def tbl_get_def sample_release_def)

lemma sample_percent: "validatePercentBasisPoints (Fin 1000) w = (Inr (), w)" "validatePercentBasisPoints (Fin 2000) w = (Inr (), w)"
  by (simp_all add: validatePercentBasisPoints_def guardE_def retE_def)

lemma sample_ceiling:
  assumes "w_policies w = w_policies sample_world" and "q \<le> 2500"
  shows "enforceCanaryCeiling (sample_services m) ''org'' ''agent'' ENV_DEV (Fin q) w = (Inr (), tick w)"
  using assms by (simp add: enforceCanaryCeiling_def bindE_step sample_policy_read guardE_def retE_def sample_policy_def
      DEFAULT_PROMOTION_POLICY_def)

lemma sample_get_pointer:
  "w_store w = w_store (canary_world c) \<Longrightarrow>
    getEnvironmentReleasePointer (sample_services m) ''org'' ''agent'' ENV_DEV w = (Inr (Some (sample_pointer c)), tick w)"
  using canary_world_simps(4) [of c] by (simp add: read_defs fetch_def service_def sample_services_def)

lemma sample_current_canary:
  "w_store w = w_store (canary_world (Some sample_canary)) \<Longrightarrow>
    current_canary (sample_services m) ''org'' ''agent'' ENV_DEV w =
      (Inr (sample_pointer (Some sample_canary), sample_canary), tick w)"
  by (simp add: current_canary_def bindE_step sample_get_pointer [of w "Some sample_canary"] sample_pointer_def retE_def)

lemma canary_set:
  assumes "w_store w = w_store (canary_world c)"
  shows "\<exists>p w'. setEnvironmentReleasePointer (sample_services m)
    (canary_move ''org'' ''agent'' ENV_DEV (sample_pointer c) ctx r d t) w = (Inr p, w')"
  using canary_world_simps(4) [of c] assms
  by (intro set_no_fault) (simp_all add: sample_services_def canary_move_def put_condition_def)

definition sample_start :: start_canary_input where
  "sample_start = \<lparr>sci_agentTargetId = ''agent'', sci_environment = ENV_DEV, sci_candidateReleaseId = ''r1'',
     sci_percentBasisPoints = Fin 1000, sci_stickiness = St_user, sci_approval = None\<rparr>"

definition sample_reweight :: reweight_canary_input where
  "sample_reweight = \<lparr>rci_agentTargetId = ''agent'', rci_environment = ENV_DEV, rci_percentBasisPoints = Fin 2000\<rparr>"

definition sample_op :: canary_op_input where
  "sample_op = \<lparr>coi_agentTargetId = ''agent'', coi_environment = ENV_DEV, coi_approval = None\<rparr>"

lemma sample_start_runs:
  "\<exists>p w'. startCanary (sample_services ''permissive'') sample_start sample_caller ''org'' (canary_world None) = (Inr p, w')"
proof -
  let ?sv = "sample_services ''permissive''"
  let ?w = "canary_world None"
  have "mode_pinned ?sv ''DEV'' Permissive (tick (tick ?w))"
    using canary_world_simps(3) mode_pinned_cache [of "tick (tick ?w)" ?w] by simp
  then obtain v where chain: "gate_chain ?sv sample_release ''agent'' ENV_DEV ''r1'' ''org'' sample_caller None
      (tick (tick ?w)) = (Inr (), v)"
    using permissive_chain by blast
  have same: "w_store v = w_store ?w" "w_policies v = w_policies sample_world"
    using guaranteesD [OF recorded_gate_chain chain] off_ledgerD(1,3) [of v "tick (tick ?w)"] canary_world_simps(1)
    by (simp_all add: recorded_def)
  have "ptr_canary (sample_pointer None) = None"
    by (simp add: sample_pointer_def)
  then have "\<exists>c. startCanary_params ?sv sample_start sample_caller ''org'' ?w =
      (Inr (canary_move ''org'' ''agent'' ENV_DEV (sample_pointer None) sample_caller
        (ptr_releaseId (sample_pointer None)) (Some c) T_CANARY_START), tick (tick (tick v)))"
    using same
    by (simp add: startCanary_params_def sample_start_def bindE_step sample_permission sample_percent
        sample_own_release' canary_world_simps sample_get_pointer [of _ None] guardE_def retE_def chain sample_ceiling
        random_uuid_def now_iso_def now_ms_def) blast
  then obtain c where params: "startCanary_params ?sv sample_start sample_caller ''org'' ?w =
      (Inr (canary_move ''org'' ''agent'' ENV_DEV (sample_pointer None) sample_caller
        (ptr_releaseId (sample_pointer None)) (Some c) T_CANARY_START), tick (tick (tick v)))"
    by blast
  show ?thesis
    using canary_set [of "tick (tick (tick v))" None] same by (simp add: startCanary_def bindE_step params)
qed

theorem canary_start_checked_witness:
  "\<exists>p w' c. startCanary (sample_services ''permissive'') sample_start sample_caller ''org'' (canary_world None) =
      (Inr p, w') \<and>
    moved_to (canary_world None) w' ''org'' ''agent'' ENV_DEV sample_caller ''r0'' (Some c) p \<and>
    candidateReleaseId c = ''r1''"
proof -
  obtain p w' where run: "startCanary (sample_services ''permissive'') sample_start sample_caller ''org''
      (canary_world None) = (Inr p, w')"
    using sample_start_runs by blast
  have "ptr_releaseId (sample_pointer None) = ''r0''"
    by (simp add: sample_pointer_def)
  with canary_start_checked [OF run] run show ?thesis
    by (auto simp: sample_start_def canary_world_simps)
qed

theorem canary_reweight_keeps_salt_witness:
  "\<exists>p w'. reweightCanary (sample_services ''permissive'') sample_reweight sample_caller ''org''
      (canary_world (Some sample_canary)) = (Inr p, w') \<and>
    moved_to (canary_world (Some sample_canary)) w' ''org'' ''agent'' ENV_DEV sample_caller ''r0''
      (Some (sample_canary\<lparr>percentBasisPoints := Fin 2000\<rparr>)) p"
proof -
  let ?sv = "sample_services ''permissive''"
  let ?w = "canary_world (Some sample_canary)"
  have "reweightCanary_params ?sv sample_reweight sample_caller ''org'' ?w =
      (Inr (canary_move ''org'' ''agent'' ENV_DEV (sample_pointer (Some sample_canary)) sample_caller
        (ptr_releaseId (sample_pointer (Some sample_canary)))
        (Some (sample_canary\<lparr>percentBasisPoints := Fin 2000\<rparr>)) T_CANARY_REWEIGHT), tick (tick ?w))"
    by (simp add: reweightCanary_params_def sample_reweight_def bindE_step sample_permission sample_percent
        sample_current_canary canary_world_simps sample_ceiling retE_def)
  then obtain p w' where run: "reweightCanary ?sv sample_reweight sample_caller ''org'' ?w = (Inr p, w')"
    using canary_set [of "tick (tick ?w)" "Some sample_canary"] by (simp add: reweightCanary_def bindE_step) blast
  have "ptr_releaseId (sample_pointer (Some sample_canary)) = ''r0''"
    "ptr_canary (sample_pointer (Some sample_canary)) = Some sample_canary"
    by (simp_all add: sample_pointer_def)
  with canary_reweight_keeps_salt [OF run] run show ?thesis
    by (auto simp: sample_reweight_def canary_world_simps)
qed

theorem canary_promote_checked_witness:
  "\<exists>p w'. promoteCanary (sample_services ''permissive'') sample_op sample_caller ''org''
      (canary_world (Some sample_canary)) = (Inr p, w') \<and>
    moved_to (canary_world (Some sample_canary)) w' ''org'' ''agent'' ENV_DEV sample_caller ''r1'' None p"
proof -
  let ?sv = "sample_services ''permissive''"
  let ?w = "canary_world (Some sample_canary)"
  have cand: "candidateReleaseId sample_canary = ''r1''"
    by (simp add: sample_canary_def)
  have "mode_pinned ?sv ''DEV'' Permissive (tick (tick ?w))"
    using canary_world_simps(3) mode_pinned_cache [of "tick (tick ?w)" ?w] by simp
  then obtain v where chain: "gate_chain ?sv sample_release ''agent'' ENV_DEV ''r1'' ''org'' sample_caller None
      (tick (tick ?w)) = (Inr (), v)"
    using permissive_chain by blast
  have same: "w_store v = w_store ?w"
    using guaranteesD [OF recorded_gate_chain chain] off_ledgerD(1) [of v "tick (tick ?w)"] by (simp add: recorded_def)
  have params: "promoteCanary_params ?sv sample_op sample_caller ''org'' ?w =
      (Inr (canary_move ''org'' ''agent'' ENV_DEV (sample_pointer (Some sample_canary)) sample_caller
        ''r1'' None T_CANARY_PROMOTE), v)"
    by (simp add: promoteCanary_params_def sample_op_def bindE_step sample_permission cand
        sample_current_canary canary_world_simps sample_own_release' chain retE_def)
  obtain p u where set: "setEnvironmentReleasePointer ?sv (canary_move ''org'' ''agent'' ENV_DEV
      (sample_pointer (Some sample_canary)) sample_caller ''r1'' None T_CANARY_PROMOTE) v = (Inr p, u)"
    using canary_set [OF same] by blast
  obtain t where "emitReleasePointerMovedEvent ?sv p u = (Inr (), t)"
    using emit_no_fault by blast
  then have run: "promoteCanary ?sv sample_op sample_caller ''org'' ?w = (Inr p, t)"
    by (simp add: promoteCanary_def bindE_step params set retE_def)
  have "ptr_canary (sample_pointer (Some sample_canary)) = Some sample_canary"
    by (simp add: sample_pointer_def)
  with canary_promote_checked [OF run] run cand show ?thesis
    by (auto simp: sample_op_def canary_world_simps)
qed


section \<open>The handler in the small world\<close>

definition sample_event :: "string \<Rightarrow> resolver_request \<Rightarrow> resolver_request gql_event" where
  "sample_event grp req =
     \<lparr>ge_identity = JObj [(''sub'', JStr ''alice''), (''custom:organization'', JStr ''org''),
        (''cognito:groups'', JArr [JStr grp])],
      ge_fieldName = [], ge_arguments = req\<rparr>"

lemma sample_event_org: "extractOrgFromEvent (sample_event g req) = Some (JStr ''org'')"
  by (simp add: sample_event_def extractOrgFromEvent_def readClaim_def js_prop_def Let_def)

theorem handler_confined_witness:
  "\<exists>r w'. pointer_handler (sample_services ''strict'') (sample_event ''architect'' (Promote_request (sample_promotion ''agent'')))
      strict_world = (r, w') \<and>
    read_pointer (w_store w') ''other-org'' ''agent'' ENV_DEV = read_pointer (w_store strict_world) ''other-org'' ''agent'' ENV_DEV"
proof -
  obtain r w' where run: "pointer_handler (sample_services ''strict'')
      (sample_event ''architect'' (Promote_request (sample_promotion ''agent''))) strict_world = (r, w')"
    by fastforce
  with handler_confined [OF run] sample_event_org show ?thesis
    by auto
qed

theorem handler_keeps_invariant_witness:
  "store_inv (w_store (snd (pointer_handler (sample_services ''strict'')
     (sample_event ''architect'' (Promote_request (sample_promotion ''agent''))) strict_world)))"
proof (rule handler_keeps_invariant)
  show "store_inv (w_store strict_world)"
    using store_inv_empty by (simp add: strict_world_def sample_world_def)
  show "\<forall>t. CHR ''#'' \<notin> set (sv_iso (sample_services ''strict'') t)"
    by (simp add: sample_services_def show_nat_no_hash)
qed

theorem refusal_moves_nothing_witness:
  "fst (pointer_handler (sample_services ''strict'') (sample_event ''developer'' (Promote_request (sample_promotion ''agent'')))
      strict_world) = Inl (UnauthorizedError ''release:promote'') \<and>
   w_store (snd (pointer_handler (sample_services ''strict'')
      (sample_event ''developer'' (Promote_request (sample_promotion ''agent''))) strict_world)) = w_store strict_world"
proof -
  let ?e = "sample_event ''developer'' (Promote_request (sample_promotion ''agent''))"
  have "hasPermission (authContextFromEvent ?e) ''release:promote'' = Inr False"
    by (simp add: hasPermission_def authContextFromEvent_def deriveRoles_def readGroups_def readClaim_def
        sample_event_def js_prop_def first_occurrences_def rolePermissions_def inherited_names_def Let_def)
  then have refused: "fst (pointer_handler (sample_services ''strict'') ?e strict_world) =
      Inl (UnauthorizedError ''release:promote'')"
    using sample_event_org
    by (simp add: pointer_handler_def sample_event_def string_org_def resolver_dispatch_def fmapE_def
        promoteEnvironmentReleasePointer_def promote_params_def requireReleasePromotePermission_def
        requirePermission_def cmd_defs Let_def)
  moreover have "clean_faults (sample_services ''strict'')"
    by (simp add: clean_faults_def sample_services_def)
  ultimately show ?thesis
    using refusal_moves_nothing by blast
qed

lemma sample_honest: "honest (sample_services m)"
  by (simp add: honest_def sample_services_def)


theorem strict_needs_approval_witness:
  "\<exists>w'. validatePromotionApproval (sample_services ''strict'') sample_release ENV_DEV ''org'' sample_caller
      (Some \<lparr>appr_approved = True, appr_justification = None\<rparr>) strict_world = (Inr (), w') \<and>
    has_finding strict_world w' (approval_key (sample_services ''strict'') ''org'' sample_release ENV_DEV True)
      (by_caller sample_caller sample_release True)"
proof -
  have pin: "mode_pinned (sample_services ''strict'') (env_str ENV_DEV) Strict strict_world"
    using strict_world_simps(3) by simp
  obtain w' where run: "validatePromotionApproval (sample_services ''strict'') sample_release ENV_DEV ''org''
      sample_caller (Some \<lparr>appr_approved = True, appr_justification = None\<rparr>) strict_world = (Inr (), w')"
    using sample_approval strict_world_simps(3) by blast
  from strict_needs_approval [OF run pin sample_honest] run show ?thesis
    by blast
qed

end
