(* ===== verification/CanaryAssignment.thy ===== *)
theory CanaryAssignment
  imports PointerTheorems
begin

text \<open>
  Assignment of a stickiness key to an arm of a canary
  (backend/src/lambda/utils/canary-assignment.ts): a pure function of the key, the threshold in
  basis points and the salt. The SHA-256 digest in hexadecimal is an argument.
\<close>

section \<open>Code\<close>

datatype canary_arm = Arm_stable | Arm_candidate

definition CANARY_BUCKET_SPACE :: nat where
  "CANARY_BUCKET_SPACE = 10000"

text \<open>\<open>parseInt(s, 16)\<close> on hexadecimal digits, lower case as the digest writes them.\<close>

definition hex_digit :: "char \<Rightarrow> nat" where
  "hex_digit c = (let n = of_char c :: nat in if n \<ge> 97 then n - 87 else n - 48)"

definition parse_hex :: "string \<Rightarrow> nat" where
  "parse_hex s = foldl (\<lambda>acc c. 16 * acc + hex_digit c) 0 s"

text \<open>\<open>Math.max(0, Math.min(10000, Math.floor(percent)))\<close>; an absent key is the empty one.\<close>

definition clampPercent :: "jsnum \<Rightarrow> jsnum" where
  "clampPercent percent =
     js_max (Fin 0) (js_min (Fin (of_nat CANARY_BUCKET_SPACE)) (js_floor percent))"

definition bucket :: "(string \<Rightarrow> string) \<Rightarrow> string \<Rightarrow> string \<Rightarrow> nat" where
  "bucket sha256hex slt key =
     parse_hex (take 8 (sha256hex (slt @ '':'' @ key))) mod CANARY_BUCKET_SPACE"

definition assignArm :: "(string \<Rightarrow> string) \<Rightarrow> string \<Rightarrow> jsnum \<Rightarrow> string \<Rightarrow> canary_arm" where
  "assignArm sha256hex stickinessKey percent slt =
     (let clamped = clampPercent percent
      in if js_le clamped (Fin 0) then Arm_stable
         else if js_le (Fin (of_nat CANARY_BUCKET_SPACE)) clamped then Arm_candidate
         else if stickinessKey = [] then Arm_stable
         else if js_lt (Fin (of_nat (bucket sha256hex slt stickinessKey))) clamped
         then Arm_candidate else Arm_stable)"

section \<open>Clamping\<close>

text \<open>The threshold as a number of buckets. NaN compares false with everything.\<close>

fun threshold :: "jsnum \<Rightarrow> nat" where
  "threshold (Fin q) = nat (max 0 (min 10000 \<lfloor>q\<rfloor>))"
| "threshold PosInf = 10000"
| "threshold NegInf = 0"
| "threshold NaN = 0"

lemma threshold_le: "threshold p \<le> 10000"
  by (cases p) auto

lemma clampPercent_threshold: "p \<noteq> NaN \<Longrightarrow> clampPercent p = Fin (of_nat (threshold p))"
  by (cases p) (auto simp: clampPercent_def js_max_def js_min_def CANARY_BUCKET_SPACE_def max_def min_def
      not_less of_nat_nat floor_eq_iff)

lemma clampPercent_NaN: "clampPercent NaN = NaN"
  by (simp add: clampPercent_def js_max_def js_min_def)

lemma bucket_less: "bucket h s k < 10000"
  by (simp add: bucket_def CANARY_BUCKET_SPACE_def)

lemma assignArm_NaN [simp]: "assignArm h k NaN s = Arm_stable"
  by (simp add: assignArm_def clampPercent_NaN Let_def)

lemma assignArm_candidate_iff:
  "assignArm h k p s = Arm_candidate \<longleftrightarrow>
     threshold p = 10000 \<or> (k \<noteq> [] \<and> bucket h s k < threshold p)"
proof (cases "p = NaN")
  case False
  have "threshold p = 10000 \<or> threshold p < 10000"
    using threshold_le [of p] by linarith
  then show ?thesis
    using bucket_less [of h s k] False
    by (auto simp: assignArm_def clampPercent_threshold Let_def CANARY_BUCKET_SPACE_def)
qed simp

lemma clamp_mono: "(x :: int) \<le> y \<Longrightarrow> max 0 (min 10000 x) \<le> max 0 (min 10000 y)"
  by (auto simp: max_def min_def)

lemma threshold_mono: "js_le p q \<Longrightarrow> threshold p \<le> threshold q"
proof -
  assume le: "js_le p q"
  show ?thesis
  proof (cases p; cases q)
    fix a b
    assume "p = Fin a" "q = Fin b"
    with le have "\<lfloor>a\<rfloor> \<le> \<lfloor>b\<rfloor>"
      by (simp add: floor_mono)
    with \<open>p = Fin a\<close> \<open>q = Fin b\<close> show ?thesis
      by (simp only: threshold.simps nat_mono clamp_mono)
  qed (use le threshold_le in \<open>auto simp: js_le_def\<close>)
qed

section \<open>Properties\<close>

text \<open>Assignment is by a fixed bucket: a key is on the candidate arm exactly when the whole traffic is, or
  the key is not empty and its bucket, which depends on salt and key only, is below the
  threshold; so nobody is at zero basis points or with a threshold that is not a number.\<close>

theorem assignArm_by_bucket:
  "(assignArm sha key p s = Arm_candidate) = (threshold p = 10000 \<or> (key \<noteq> [] \<and> bucket sha s key < threshold p)) \<and>
   bucket sha s key < CANARY_BUCKET_SPACE \<and>
   assignArm sha key (Fin 0) s = Arm_stable \<and> assignArm sha key NaN s = Arm_stable \<and>
   assignArm sha key (Fin 10000) s = Arm_candidate"
proof (intro conjI)
  show "assignArm sha key (Fin 0) s = Arm_stable"
    using assignArm_candidate_iff [of sha key "Fin 0" s] by (cases "assignArm sha key (Fin 0) s") simp_all
  show "assignArm sha key (Fin 10000) s = Arm_candidate"
    by (simp add: assignArm_candidate_iff)
  show "bucket sha s key < CANARY_BUCKET_SPACE"
    using bucket_less by (simp add: CANARY_BUCKET_SPACE_def)
qed (simp_all add: assignArm_candidate_iff)


definition count_sha :: "string \<Rightarrow> string" where
  "count_sha s = ''000005dc''"


end
