(* ===== verification/Rollback.thy ===== *)
theory Rollback
  imports PointerTheorems
begin

text \<open>
  The scheduled evaluator of active canaries: the metrics of a candidate arm
  (backend/src/lambda/utils/rollback-metrics-reader.ts) and the evaluator that aborts a breaching
  canary (lambda/agent-release-rollback-evaluator.ts). The pages of a query are one query; log
  lines are not modelled, the metric the alarm is on is.
\<close>

section \<open>Metrics of the candidate arm\<close>

definition usage_rows :: "world \<Rightarrow> string \<Rightarrow> string \<Rightarrow> string \<Rightarrow> usage_row list" where
  "usage_rows w orgId windowStart windowEnd =
     map snd (tbl_query (\<lambda>k. fst k = ''ORG#'' @ orgId \<and> windowStart \<le> snd k \<and> snd k \<le> windowEnd) (w_usage w))"

record arm_sums =
  as_pricedCostMicros :: rat
  as_sampleCount :: nat
  as_latencies :: "rat list"

definition candidate_row :: "string \<Rightarrow> usage_row \<Rightarrow> bool" where
  "candidate_row candidate row \<longleftrightarrow>
     ur_releaseArm row = Some ''candidate'' \<and> ur_releaseId row = Some candidate \<and>
     \<not> ur_evalContext row \<and> ur_costContext row \<noteq> Some ''eval''"

text \<open>The body of the loop over the rows.\<close>

definition arm_step :: "string \<Rightarrow> arm_sums \<Rightarrow> usage_row \<Rightarrow> arm_sums" where
  "arm_step candidate acc row =
     (if \<not> candidate_row candidate row then acc
      else acc\<lparr>as_sampleCount := as_sampleCount acc + 1,
               as_pricedCostMicros :=
                 (case ur_costMicros row of
                    Some c \<Rightarrow> if ur_priced row then as_pricedCostMicros acc + c else as_pricedCostMicros acc
                  | None \<Rightarrow> as_pricedCostMicros acc),
               as_latencies :=
                 (case ur_latencyMs row of
                    Some l \<Rightarrow> as_latencies acc @ [l]
                  | None \<Rightarrow> as_latencies acc)\<rparr>)"

definition no_sums :: arm_sums where
  "no_sums = \<lparr>as_pricedCostMicros = 0, as_sampleCount = 0, as_latencies = []\<rparr>"

definition arm_result :: "arm_sums \<Rightarrow> candidate_arm_metrics" where
  "arm_result acc =
     \<lparr>cam_costPerInvocationMicros =
        (if as_sampleCount acc > 0 then Some (as_pricedCostMicros acc / of_nat (as_sampleCount acc)) else None),
      cam_modelCallLatencyP95Ms = arm_percentile (as_latencies acc) 95,
      cam_errorRate = None, cam_policyViolationFindingRate = None, cam_driftScore = None,
      cam_sampleCount = as_sampleCount acc\<rparr>"

definition arm_metrics :: "string \<Rightarrow> usage_row list \<Rightarrow> candidate_arm_metrics" where
  "arm_metrics candidate rows = arm_result (foldl (arm_step candidate) no_sums rows)"

definition readCandidateArmMetrics ::
  "services \<Rightarrow> string \<Rightarrow> string \<Rightarrow> string \<Rightarrow> string \<Rightarrow> candidate_arm_metrics io" where
  "readCandidateArmMetrics sv orgId candidate windowStart windowEnd =
     bindE (fetch sv (\<lambda>w. usage_rows w orgId windowStart windowEnd)) (\<lambda>rows.
     retE (arm_metrics candidate rows))"

section \<open>The evaluator\<close>

text \<open>The \<open>Date\<close> constructor drops the fraction of its argument; \<open>toISOString\<close> throws on a time
  outside the range of dates.\<close>

definition MAX_DATE_MS :: rat where
  "MAX_DATE_MS = 8640000000000000"

definition date_trunc :: "rat \<Rightarrow> rat" where
  "date_trunc t = (if t < 0 then of_int \<lceil>t\<rceil> else of_int \<lfloor>t\<rfloor>)"

definition windowBounds :: "services \<Rightarrow> rat \<Rightarrow> rat \<Rightarrow> exn + (string \<times> string)" where
  "windowBounds sv now windowMinutes =
     (let start = date_trunc (now - windowMinutes * 60000)
      in if \<bar>start\<bar> > MAX_DATE_MS then Inl RangeError
         else Inr (sv_iso sv start, sv_iso sv now))"

definition read_rollback_policy :: "services \<Rightarrow> string \<Rightarrow> string \<Rightarrow> environment \<Rightarrow> rollback_policy option io" where
  "read_rollback_policy sv orgId agentTargetId environment =
     bindE (tryE (fetch sv (\<lambda>w. tbl_get (w_policies w) orgId))) (\<lambda>row.
     retE (resolveRollbackPolicy row agentTargetId (Some environment)))"

record canary_breach =
  cb_breach :: rollback_breach
  cb_windowStart :: string
  cb_windowEnd :: string

text \<open>Everything up to the decision.\<close>

definition decide_canary :: "services \<Rightarrow> pointer \<Rightarrow> canary_state \<Rightarrow> rat \<Rightarrow> canary_breach option io" where
  "decide_canary sv pointer canary now =
     bindE (read_rollback_policy sv (ptr_orgId pointer) (ptr_agentTargetId pointer) (ptr_environment pointer))
       (\<lambda>resolution.
     case resolution of
       None \<Rightarrow> retE None
     | Some policy \<Rightarrow>
         if \<not> rb_enabled policy then retE None
         else
           bindE (liftE (windowBounds sv now (evaluationWindowMinutes policy))) (\<lambda>(windowStart, windowEnd).
           bindE (readCandidateArmMetrics sv (ptr_orgId pointer) (candidateReleaseId canary) windowStart windowEnd)
             (\<lambda>metrics.
           retE (case evaluateRollback metrics policy of
               Breach b \<Rightarrow> Some \<lparr>cb_breach = b, cb_windowStart = windowStart, cb_windowEnd = windowEnd\<rparr>
             | _ \<Rightarrow> None))))"

definition rollback_evidence_of :: "pointer \<Rightarrow> canary_state \<Rightarrow> canary_breach \<Rightarrow> pointer \<Rightarrow> rollback_evidence" where
  "rollback_evidence_of pointer canary found moved =
     (let b = cb_breach found in
      \<lparr>rev_metric = br_metric b, rev_observedValue = br_observedValue b, rev_threshold = br_threshold b,
       rev_sampleCount = br_sampleCount b, rev_windowStart = cb_windowStart found,
       rev_windowEnd = cb_windowEnd found, rev_candidateReleaseId = candidateReleaseId canary,
       rev_stableReleaseId = ptr_releaseId pointer, rev_fromReleaseId = ptr_releaseId pointer,
       rev_toReleaseId = ptr_releaseId moved, rev_action = T_AUTO_ABORT_CANARY,
       rev_fromVersion = ptr_version pointer\<rparr>)"

definition rollback_finding :: "pointer \<Rightarrow> rollback_evidence \<Rightarrow> rollback_finding_input" where
  "rollback_finding pointer evidence =
     \<lparr>rf_orgId = ptr_orgId pointer, rf_agentTargetId = ptr_agentTargetId pointer,
      rf_environment = ptr_environment pointer, rf_fromVersion = ptr_version pointer,
      rf_action = T_AUTO_ABORT_CANARY, rf_evidence = evidence, rf_traceId = None, rf_runId = None\<rparr>"

text \<open>The version-gated move; losing the race is not an error.\<close>

definition abort_or_lose :: "services \<Rightarrow> pointer \<Rightarrow> pointer option io" where
  "abort_or_lose sv pointer =
     catchE
       (bindE (performAutoAbortCanary sv (ptr_orgId pointer) (ptr_agentTargetId pointer)
          (ptr_environment pointer) (ptr_releaseId pointer) (ptr_version pointer)) (\<lambda>m. retE (Some m)))
       (\<lambda>err. case err of
           ConcurrentPromotionError _ _ _ \<Rightarrow> retE None
         | _ \<Rightarrow> throwE err)"

definition emit_auto_rollback :: "services \<Rightarrow> rollback_notice \<Rightarrow> unit io" where
  "emit_auto_rollback sv n =
     catchE (service sv (\<lambda>w. (Inr (), w\<lparr>w_events := w_events w @ [Auto_rollback_event n]\<rparr>))) (\<lambda>err. retE ())"

text \<open>Everything after the decision: the move, then its finding, then the notification.\<close>

definition roll_back :: "services \<Rightarrow> pointer \<Rightarrow> canary_state \<Rightarrow> canary_breach \<Rightarrow> unit io" where
  "roll_back sv pointer canary found =
     bindE (abort_or_lose sv pointer) (\<lambda>outcome.
     case outcome of
       None \<Rightarrow> retE ()
     | Some moved \<Rightarrow>
         let evidence = rollback_evidence_of pointer canary found moved
         in bindE (catchE (writeAutoRollbackFinding sv (rollback_finding pointer evidence))
                (\<lambda>err. emit_metric AutoRollbackFindingWriteFailure)) (\<lambda>_.
            emit_auto_rollback sv
              \<lparr>rn_orgId = ptr_orgId pointer, rn_agentTargetId = ptr_agentTargetId pointer,
               rn_environment = ptr_environment pointer, rn_evidence = evidence\<rparr>))"

definition evaluateOneCanary :: "services \<Rightarrow> pointer \<Rightarrow> rat \<Rightarrow> unit io" where
  "evaluateOneCanary sv pointer now = (case ptr_canary pointer of
       None \<Rightarrow> retE ()
     | Some canary \<Rightarrow>
         bindE (decide_canary sv pointer canary now) (\<lambda>decision.
         case decision of
           None \<Rightarrow> retE ()
         | Some found \<Rightarrow> roll_back sv pointer canary found))"

text \<open>A canary whose evaluation throws is logged, and the others are still evaluated.\<close>

fun evaluate_each :: "services \<Rightarrow> rat \<Rightarrow> pointer list \<Rightarrow> unit io" where
  "evaluate_each sv now [] = retE ()"
| "evaluate_each sv now (pointer # canaries) =
     bindE (catchE (evaluateOneCanary sv pointer now) (\<lambda>err. retE ())) (\<lambda>_.
     evaluate_each sv now canaries)"

definition evaluateRollbacks :: "services \<Rightarrow> rat option \<Rightarrow> unit io" where
  "evaluateRollbacks sv given =
     bindE (case given of Some now \<Rightarrow> retE now | None \<Rightarrow> now_ms sv) (\<lambda>now.
     bindE (queryActiveCanaries sv) (\<lambda>canaries.
     evaluate_each sv now canaries))"

section \<open>What the metrics measure\<close>

lemma arm_fold:
  "foldl (arm_step candidate) acc rows =
     \<lparr>as_pricedCostMicros = as_pricedCostMicros acc +
        sum_list (map (\<lambda>r. the (ur_costMicros r))
          (filter (\<lambda>r. ur_priced r \<and> ur_costMicros r \<noteq> None) (filter (candidate_row candidate) rows))),
      as_sampleCount = as_sampleCount acc + length (filter (candidate_row candidate) rows),
      as_latencies = as_latencies acc @
        List.map_filter ur_latencyMs (filter (candidate_row candidate) rows)\<rparr>"
  by (induction rows arbitrary: acc) (auto simp: arm_step_def map_filter_simps split: option.split)

text \<open>The metrics of an arm count exactly the rows of the candidate release on the candidate arm outside
  evaluations: their number, the sum of the priced costs over that number, and the 95th
  percentile of the latencies measured; nothing else can be measured, and no row, no cost.\<close>

theorem arm_metrics_correct:
  "(let mine = filter (candidate_row candidate) rows;
        priced = filter (\<lambda>r. ur_priced r \<and> ur_costMicros r \<noteq> None) mine
    in arm_metrics candidate rows =
      \<lparr>cam_costPerInvocationMicros =
         (if mine = [] then None
          else Some (sum_list (map (\<lambda>r. the (ur_costMicros r)) priced) / of_nat (length mine))),
       cam_modelCallLatencyP95Ms = arm_percentile (List.map_filter ur_latencyMs mine) 95,
       cam_errorRate = None, cam_policyViolationFindingRate = None, cam_driftScore = None,
       cam_sampleCount = length mine\<rparr>) \<and>
   arm_metrics candidate (filter (candidate_row candidate) rows) = arm_metrics candidate rows"
  by (simp add: arm_metrics_def arm_result_def no_sums_def arm_fold Let_def)

section \<open>One canary\<close>

lemma keeps_read_rollback_policy [keeps_intros]: "keeps (read_rollback_policy sv org a e) data"
  unfolding read_rollback_policy_def tryE_def by (intro keeps_intros)

lemma keeps_readCandidate [keeps_intros]: "keeps (readCandidateArmMetrics sv org c ws we) data"
  unfolding readCandidateArmMetrics_def by (intro keeps_intros)

lemma keeps_decide [keeps_intros]: "keeps (decide_canary sv p c now) data"
  unfolding decide_canary_def by (intro keeps_intros)

lemma dataD:
  assumes "data w = data v"
  shows "w_store w = w_store v" "w_ledger w = w_ledger v" "other_tables w = other_tables v"
    "w_metrics w = w_metrics v" "w_events w = w_events v"
  using arg_cong [OF assms, of w_store] arg_cong [OF assms, of w_ledger] arg_cong [OF assms, of other_tables]
    arg_cong [OF assms, of w_metrics] arg_cong [OF assms, of w_events]
  by (simp_all add: data_def other_tables_def)

text \<open>The policy and the rows of the world decide.\<close>

definition breach_found :: "services \<Rightarrow> rat \<Rightarrow> world \<Rightarrow> pointer \<Rightarrow> canary_breach \<Rightarrow> bool" where
  "breach_found sv now w p found \<longleftrightarrow>
     (\<exists>c policy. ptr_canary p = Some c \<and>
        resolveRollbackPolicy (Inr (tbl_get (w_policies w) (ptr_orgId p)) :: exn + jsval option)
          (ptr_agentTargetId p) (Some (ptr_environment p)) = Some policy \<and>
        rb_enabled policy \<and>
        windowBounds sv now (evaluationWindowMinutes policy) = Inr (cb_windowStart found, cb_windowEnd found) \<and>
        evaluateRollback (arm_metrics (candidateReleaseId c)
          (usage_rows w (ptr_orgId p) (cb_windowStart found) (cb_windowEnd found))) policy =
          Breach (cb_breach found))"

lemma read_rollback_policy_Some:
  assumes "read_rollback_policy sv org a e w = (Inr (Some policy), w')"
  shows "resolveRollbackPolicy (Inr (tbl_get (w_policies w) org) :: exn + jsval option) a (Some e) = Some policy \<and>
    w' = tick w"
proof (cases "fetch sv (\<lambda>w. tbl_get (w_policies w) org) w")
  case (Pair r v)
  with assms show ?thesis
    by (cases r) (auto simp: read_rollback_policy_def tryE_def bindE_def catchE_def retE_def
        resolveRollbackPolicy_def [of "Inl _"] fetch_Inr)
qed

lemma decide_canary_Some:
  assumes "decide_canary sv p c now w = (Inr (Some found), w')" and "ptr_canary p = Some c"
  shows "breach_found sv now w p found"
proof -
  obtain res w1 where res: "read_rollback_policy sv (ptr_orgId p) (ptr_agentTargetId p)
      (ptr_environment p) w = (Inr res, w1)"
    using assms(1) unfolding decide_canary_def by (auto simp: bindE_Inr)
  note rest = assms(1) [unfolded decide_canary_def bindE_step [of "read_rollback_policy sv (ptr_orgId p)
      (ptr_agentTargetId p) (ptr_environment p)", OF res]]
  obtain policy where pol: "read_rollback_policy sv (ptr_orgId p) (ptr_agentTargetId p)
      (ptr_environment p) w = (Inr (Some policy), w1)" and en: "rb_enabled policy" and policy: "res = Some policy"
    using rest res by (cases res) (auto simp: retE_def split: if_splits)
  obtain ws we where win: "windowBounds sv now (evaluationWindowMinutes policy) = Inr (ws, we)"
    using rest en policy
    by (cases "windowBounds sv now (evaluationWindowMinutes policy)") (auto simp: bindE_def liftE_def)
  have ev: "Some found = (case evaluateRollback (arm_metrics (candidateReleaseId c)
      (usage_rows (tick w1) (ptr_orgId p) ws we)) policy of
        Breach b \<Rightarrow> Some \<lparr>cb_breach = b, cb_windowStart = ws, cb_windowEnd = we\<rparr> | _ \<Rightarrow> None)"
    using rest en policy win unfolding readCandidateArmMetrics_def by (auto simp: run_rules)
  from read_rollback_policy_Some [OF pol]
  have w1: "w1 = tick w" and pol': "resolveRollbackPolicy (Inr (tbl_get (w_policies w) (ptr_orgId p)) :: exn + jsval option)
      (ptr_agentTargetId p) (Some (ptr_environment p)) = Some policy"
    by simp_all
  have "usage_rows (tick w1) (ptr_orgId p) ws we = usage_rows w (ptr_orgId p) ws we"
    by (simp add: w1 usage_rows_def)
  with ev pol' en win assms(2) show ?thesis
    unfolding breach_found_def by (auto split: rollback_evaluation.splits)
qed

abbreviation abort_params :: "pointer \<Rightarrow> set_params" where
  "abort_params p \<equiv> auto_abort_params (ptr_orgId p) (ptr_agentTargetId p) (ptr_environment p)
     (ptr_releaseId p) (ptr_version p)"

lemma abort_params_simps [simp]:
  "sp_orgId (abort_params p) = ptr_orgId p" "sp_agentTargetId (abort_params p) = ptr_agentTargetId p"
  "sp_environment (abort_params p) = ptr_environment p" "sp_releaseId (abort_params p) = ptr_releaseId p"
  "sp_expectedVersion (abort_params p) = Some (ptr_version p)" "sp_canary (abort_params p) = None"
  "nextVersion (abort_params p) = ptr_version p + 1"
  by (simp_all add: auto_abort_params_def nextVersion_def)

text \<open>What one attempt leaves: the store as it was or the abort made; the finding or the alarm after a
  move the evaluator saw succeed.\<close>

definition alarmed :: "world \<Rightarrow> world \<Rightarrow> bool" where
  "alarmed w w' \<longleftrightarrow> w_metrics w' = w_metrics w @ [AutoRollbackFindingWriteFailure]"

definition abort_made :: "services \<Rightarrow> pointer \<Rightarrow> store \<Rightarrow> store \<Rightarrow> bool" where
  "abort_made sv p st st' \<longleftrightarrow> (\<exists>t. transact_put (abort_params p) (sv_iso sv t) st = (Inr (), st'))"

definition rollback_recorded :: "services \<Rightarrow> pointer \<Rightarrow> canary_breach \<Rightarrow> world \<Rightarrow> world \<Rightarrow> bool" where
  "rollback_recorded sv p found w w' \<longleftrightarrow>
     (\<exists>row c t ts. ptr_canary p = Some c \<and>
        (let i = rollback_finding p (rollback_evidence_of p c found (moved_pointer (abort_params p) t)) in
         tbl_get (w_ledger w') (rollback_findingIdFor sv i) = Some row \<and>
         (tbl_get (w_ledger w) (rollback_findingIdFor sv i) = None \<longrightarrow> row = rollback_item sv ts i)))"

lemma abort_or_lose_outcome:
  assumes "abort_or_lose sv p w = (r, w')"
  shows "off_store w' = off_store w \<and>
    (w_store w' = w_store w \<or> abort_made sv p (w_store w) (w_store w')) \<and>
    (clean_faults sv \<and> w_store w' \<noteq> w_store w \<longrightarrow> (\<exists>m. r = Inr (Some m))) \<and>
    (\<forall>m. r = Inr (Some m) \<longrightarrow> (\<exists>t. m = moved_pointer (abort_params p) t) \<and>
       abort_made sv p (w_store w) (w_store w'))"
proof -
  obtain x v where x: "setEnvironmentReleasePointer sv (abort_params p) w = (x, v)"
    by fastforce
  have v: "v = w'" and r: "(\<forall>m. x = Inr m \<longrightarrow> r = Inr (Some m)) \<and> (\<forall>m. r = Inr (Some m) \<longrightarrow> x = Inr m)"
    using assms x by (auto simp: abort_or_lose_def performAutoAbortCanary_def catchE_def bindE_def retE_def
        throwE_def split: sum.splits exn.splits)
  from setPointer_outcome [OF x] r show ?thesis
    unfolding v abort_made_def Let_def by (cases x) blast+
qed


lemma keeps_put_finding_metrics: "keeps (put_finding sv item) w_metrics"
proof -
  have "w_metrics (snd (put_ledger item w)) = w_metrics w" for w
    by (simp add: put_ledger_def split: option.split)
  then have "w_metrics (snd (put_finding sv item w)) = w_metrics w" for w
    using put_finding_state [of sv item w "fst (put_finding sv item w)" "snd (put_finding sv item w)"] by auto
  then show ?thesis
    by (simp add: keeps_def)
qed

lemma keeps_now_metrics: "keeps (now_ms sv) w_metrics"
  by (simp add: keeps_def now_ms_def)

lemma keeps_write_rollback_metrics: "keeps (writeAutoRollbackFinding sv i) w_metrics"
  unfolding writeAutoRollbackFinding_def
  by (intro keeps_intros keeps_put_finding_metrics keeps_now_metrics)

lemma emit_rollback_outcome:
  "emit_auto_rollback sv n w = (r, w') \<Longrightarrow>
     r = Inr () \<and> w_store w' = w_store w \<and> w_ledger w' = w_ledger w \<and> other_tables w' = other_tables w \<and>
     w_metrics w' = w_metrics w"
  unfolding emit_auto_rollback_def
  by (auto simp: catchE_def service_def retE_def other_tables_def split: option.splits prod.splits if_splits)

lemma off_store_metrics: "off_store w' = off_store w \<Longrightarrow> w_metrics w' = w_metrics w"
  by (drule arg_cong [of _ _ w_metrics]) (simp add: off_store_def data_def)

text \<open>The finding, or the alarm.\<close>

lemma record_or_alarm:
  assumes "catchE (writeAutoRollbackFinding sv i) (\<lambda>err. emit_metric AutoRollbackFindingWriteFailure) w = (r, w')"
  shows "r = Inr () \<and> w_store w' = w_store w \<and> other_tables w' = other_tables w \<and> ledger_extends w w' \<and>
    (honest sv \<longrightarrow> alarmed w w' \<or>
      (\<exists>row ts. tbl_get (w_ledger w') (rollback_findingIdFor sv i) = Some row \<and>
         (tbl_get (w_ledger w) (rollback_findingIdFor sv i) = None \<longrightarrow> row = rollback_item sv ts i)))"
proof -
  obtain x v where x: "writeAutoRollbackFinding sv i w = (x, v)"
    by fastforce
  note out = write_rollback_finding [OF x]
  have v: "w_store v = w_store w" "other_tables v = other_tables w" "w_metrics v = w_metrics w"
    using off_ledgerD [OF out(2)] keepsD [OF keeps_write_rollback_metrics x] by (simp_all add: other_tables_def)
  show ?thesis
  proof (cases x)
    case (Inl e)
    then have "r = Inr ()" "w' = v\<lparr>w_metrics := w_metrics v @ [AutoRollbackFindingWriteFailure]\<rparr>"
      using assms x by (simp_all add: catchE_def emit_metric_def)
    with v out(1) show ?thesis
      by (simp add: alarmed_def other_tables_def ledger_extends_def)
  next
    case (Inr u)
    then have "r = Inr ()" "w' = v"
      using assms x by (simp_all add: catchE_def)
    with v out(1,3) Inr show ?thesis
      by auto
  qed
qed

text \<open>Whatever the outcome of rolling back.\<close>

definition rollback_effect :: "services \<Rightarrow> pointer \<Rightarrow> canary_breach \<Rightarrow> world \<Rightarrow> world \<Rightarrow> bool" where
  "rollback_effect sv p found w w' \<longleftrightarrow>
     other_tables w' = other_tables w \<and> ledger_extends w w' \<and>
     (w_store w' = w_store w \<or> abort_made sv p (w_store w) (w_store w')) \<and>
     (honest sv \<and> clean_faults sv \<and> w_store w' \<noteq> w_store w \<longrightarrow>
        rollback_recorded sv p found w w' \<or> alarmed w w')"

lemma roll_back_outcome:
  assumes run: "roll_back sv p c found w = (r, w')" and c: "ptr_canary p = Some c"
  shows "rollback_effect sv p found w w'"
proof -
  obtain x u where x: "abort_or_lose sv p w = (x, u)"
    by fastforce
  note ab = abort_or_lose_outcome [OF x]
  have off: "other_tables u = other_tables w" "w_ledger u = w_ledger w" "w_metrics u = w_metrics w"
    using off_storeD(1,2) [of u w] off_store_metrics [of u w] ab by blast+
  have quiet: "rollback_effect sv p found w u" if "\<nexists>m. x = Inr (Some m)"
    using ab off that by (auto simp: rollback_effect_def ledger_extends_def)
  show ?thesis
  proof (cases "\<exists>m. x = Inr (Some m)")
    case False
    then have "w' = u"
      using run x by (cases x) (auto simp: roll_back_def bindE_def retE_def split: option.splits)
    with quiet False show ?thesis
      by simp
  next
    case True
    then obtain m where m: "x = Inr (Some m)"
      by blast
    let ?i = "rollback_finding p (rollback_evidence_of p c found m)"
    let ?finding = "catchE (writeAutoRollbackFinding sv ?i) (\<lambda>err. emit_metric AutoRollbackFindingWriteFailure)"
    obtain y v where y: "?finding u = (y, v)"
      by fastforce
    note rec = record_or_alarm [OF y]
    obtain z t where z: "emit_auto_rollback sv \<lparr>rn_orgId = ptr_orgId p, rn_agentTargetId = ptr_agentTargetId p,
        rn_environment = ptr_environment p, rn_evidence = rollback_evidence_of p c found m\<rparr> v = (z, t)"
      by fastforce
    note em = emit_rollback_outcome [OF z]
    have t: "w' = t"
      using run x m y z rec by (simp add: roll_back_def bindE_def Let_def)
    obtain ta where ta: "m = moved_pointer (abort_params p) ta"
      using ab m by blast
    have "rollback_recorded sv p found w w' \<or> alarmed w w'" if "honest sv"
    proof (cases "alarmed u v")
      case True
      then show ?thesis
        using off(3) em t by (simp add: alarmed_def)
    next
      case False
      with rec that obtain row ts where "tbl_get (w_ledger v) (rollback_findingIdFor sv ?i) = Some row"
        "tbl_get (w_ledger u) (rollback_findingIdFor sv ?i) = None \<longrightarrow> row = rollback_item sv ts ?i"
        by auto
      then have "rollback_recorded sv p found w w'"
        unfolding rollback_recorded_def Let_def using c off(2) em t ta
        by (intro exI [of _ row] exI [of _ c] exI [of _ ta] exI [of _ ts]) simp
      then show ?thesis
        by blast
    qed
    with ab m rec em off t show ?thesis
      by (auto simp: rollback_effect_def ledger_extends_def)
  qed
qed

lemma evaluateOneCanary_outcome:
  assumes "evaluateOneCanary sv p now w = (r, w')"
  shows "other_tables w' = other_tables w \<and> ledger_extends w w' \<and>
    (w_store w' = w_store w \<or>
      (\<exists>found. breach_found sv now w p found \<and> rollback_effect sv p found w w' \<and>
         abort_made sv p (w_store w) (w_store w')))"
proof (cases "ptr_canary p")
  case None
  with assms show ?thesis
    by (simp add: evaluateOneCanary_def retE_def)
next
  case (Some c)
  obtain x u where x: "decide_canary sv p c now w = (x, u)"
    by fastforce
  have du: "data u = data w"
    using keepsD [OF keeps_decide x] .
  note same = dataD [OF du]
  show ?thesis
  proof (cases "\<exists>found. x = Inr (Some found)")
    case False
    then have "w' = u"
      using assms x Some by (cases x) (auto simp: evaluateOneCanary_def bindE_def retE_def split: option.splits)
    with same show ?thesis
      by (simp add: ledger_extends_def)
  next
    case True
    then obtain found where found: "x = Inr (Some found)"
      by blast
    then have "roll_back sv p c found u = (r, w')"
      using assms x Some by (simp add: evaluateOneCanary_def bindE_def)
    from roll_back_outcome [OF this Some] have "rollback_effect sv p found u w'" .
    then have eff: "rollback_effect sv p found w w'"
      using same by (simp add: rollback_effect_def ledger_extends_def rollback_recorded_def alarmed_def)
    have "breach_found sv now w p found"
      using decide_canary_Some [OF _ Some] x found by blast
    with eff show ?thesis
      unfolding rollback_effect_def by blast
  qed
qed


section \<open>All canaries\<close>

text \<open>A pointer as it was read at some earlier time: the row has it still, or has moved on.\<close>

definition seen :: "store \<Rightarrow> pointer \<Rightarrow> bool" where
  "seen st p \<longleftrightarrow> (\<exists>q. read_pointer st (ptr_orgId p) (ptr_agentTargetId p) (ptr_environment p) = Some q \<and>
     ptr_version p \<le> ptr_version q \<and> (ptr_version q = ptr_version p \<longrightarrow> q = p))"

lemma seen_put:
  assumes "seen st p" and "transact_put q ts st = (Inr u, st')"
  shows "seen st' p"
  using assms read_after_put [OF assms(2)]
  by (auto simp: seen_def transact_put_Inr put_condition_def nextVersion_def split: option.splits)

lemma abort_made_seen:
  assumes "abort_made sv p st st'" and "seen st p"
  shows "read_pointer st (ptr_orgId p) (ptr_agentTargetId p) (ptr_environment p) = Some p"
  using assms by (auto simp: abort_made_def seen_def transact_put_Inr put_condition_def split: option.splits)

definition aborted_row :: "pointer \<Rightarrow> pointer \<Rightarrow> bool" where
  "aborted_row p p' \<longleftrightarrow>
     ptr_canary p \<noteq> None \<and> ptr_releaseId p' = ptr_releaseId p \<and> ptr_version p' = ptr_version p + 1 \<and>
     ptr_canary p' = None \<and> ptr_canaryActiveKey p' = None \<and>
     ptr_transitionType p' = Some T_AUTO_ABORT_CANARY \<and> ptr_promotedBy p' = RELEASE_ROLLBACK_SYSTEM_ACTOR"

definition rows_aborted :: "(pointer \<Rightarrow> bool) \<Rightarrow> store \<Rightarrow> store \<Rightarrow> bool" where
  "rows_aborted B st st' \<longleftrightarrow> (\<forall>org a e.
     read_pointer st' org a e = read_pointer st org a e \<or>
     (\<exists>p p'. read_pointer st org a e = Some p \<and> read_pointer st' org a e = Some p' \<and> B p \<and> aborted_row p p'))"

definition floors_kept :: "store \<Rightarrow> store \<Rightarrow> bool" where
  "floors_kept st st' \<longleftrightarrow> (\<forall>org a e until.
     deriveLastHumanStableReleaseId (query_history st' org a e until) =
     deriveLastHumanStableReleaseId (query_history st org a e until))"

definition dated :: "services \<Rightarrow> bool" where
  "dated sv \<longleftrightarrow> (\<forall>t. CHR ''#'' \<notin> set (sv_iso sv t))"

lemma rows_aborted_trans: "rows_aborted B st st' \<Longrightarrow> rows_aborted B st' st'' \<Longrightarrow> rows_aborted B st st''"
  unfolding rows_aborted_def aborted_row_def by (metis option.sel)

lemma floors_kept_trans: "floors_kept st st' \<Longrightarrow> floors_kept st' st'' \<Longrightarrow> floors_kept st st''"
  by (simp add: floors_kept_def)

lemma rows_aborted_stable: "rows_aborted B st st' \<Longrightarrow> stable_of st' = stable_of st"
  unfolding stable_of_def fun_eq_iff rows_aborted_def aborted_row_def by (metis option.map(2))

lemma abort_step:
  assumes inv: "store_inv st" and sn: "seen st p" and made: "abort_made sv p st st'" and sv: "dated sv"
    and c: "ptr_canary p \<noteq> None" and B: "B p"
  shows "store_inv st'" "rows_aborted B st st'" "floors_kept st st'" "\<And>q. seen st q \<Longrightarrow> seen st' q"
proof -
  let ?q = "abort_params p"
  obtain ts where put: "transact_put ?q ts st = (Inr (), st')" and ts: "CHR ''#'' \<notin> set ts"
    using made sv unfolding abort_made_def dated_def by blast
  note cur = abort_made_seen [OF made sn]
  have vm: "versioned_move st ?q"
    using cur by (simp add: versioned_move_def)
  show "store_inv st'"
    by (rule store_inv_put [OF inv vm ts put])
  note facts = auto_abort_keeps_floor_facts [OF inv cur put ts]
  show "floors_kept st st'"
    using facts(2) by (simp add: floors_kept_def)
  from facts(1) c obtain p' where p': "read_pointer st' (ptr_orgId p) (ptr_agentTargetId p) (ptr_environment p) = Some p'"
      "aborted_row p p'"
    by (auto simp: aborted_row_def)
  show "rows_aborted B st st'"
    unfolding rows_aborted_def using p' cur B read_after_put [OF put] by auto
  show "seen st q \<Longrightarrow> seen st' q" for q
    using put by (rule seen_put [rotated])
qed

text \<open>Every row the loop still has to visit was seen, and policies and usage stay as they are.\<close>

lemma breach_found_cong:
  "other_tables u = other_tables w \<Longrightarrow> breach_found sv now u p found = breach_found sv now w p found"
  by (simp add: breach_found_def other_tables_def usage_rows_def)

definition evaluator_step :: "services \<Rightarrow> rat \<Rightarrow> world \<Rightarrow> world \<Rightarrow> bool" where
  "evaluator_step sv now w w' \<longleftrightarrow>
     store_inv (w_store w') \<and> other_tables w' = other_tables w \<and> ledger_extends w w' \<and>
     rows_aborted (\<lambda>p. \<exists>found. breach_found sv now w p found) (w_store w) (w_store w') \<and>
     floors_kept (w_store w) (w_store w') \<and> (\<forall>q. seen (w_store w) q \<longrightarrow> seen (w_store w') q)"

lemma evaluator_step_same: "store_inv (w_store w) \<Longrightarrow> evaluator_step sv now w w"
  by (simp add: evaluator_step_def rows_aborted_def floors_kept_def)

lemma evaluator_step_trans: "evaluator_step sv now u v \<Longrightarrow> evaluator_step sv now v w \<Longrightarrow> evaluator_step sv now u w"
proof -
  assume uv: "evaluator_step sv now u v" and vw: "evaluator_step sv now v w"
  then have "(\<lambda>p. \<exists>found. breach_found sv now v p found) = (\<lambda>p. \<exists>found. breach_found sv now u p found)"
    using breach_found_cong unfolding evaluator_step_def by blast
  with uv vw show ?thesis
    unfolding evaluator_step_def by (auto intro: rows_aborted_trans floors_kept_trans ledger_extends_trans)
qed

lemma evaluateOneCanary_step:
  assumes x: "evaluateOneCanary sv p now w = (r, u)" and "store_inv (w_store w)" and "dated sv"
    and "seen (w_store w) p"
  shows "evaluator_step sv now w u"
proof (cases "w_store u = w_store w")
  case True
  with evaluateOneCanary_outcome [OF x] assms(2) show ?thesis
    by (simp add: evaluator_step_def rows_aborted_def floors_kept_def)
next
  case False
  with evaluateOneCanary_outcome [OF x] obtain found where found: "breach_found sv now w p found"
    and made: "abort_made sv p (w_store w) (w_store u)"
    by blast
  then have c: "ptr_canary p \<noteq> None"
    by (auto simp: breach_found_def)
  have B: "\<exists>found. breach_found sv now w p found"
    using found by blast
  from abort_step [where B = "\<lambda>p. \<exists>found. breach_found sv now w p found", OF assms(2,4) made assms(3) c B]
    evaluateOneCanary_outcome [OF x] show ?thesis
    by (simp add: evaluator_step_def)
qed

lemma evaluate_each_step:
  "evaluate_each sv now (p # ps) w = evaluate_each sv now ps (snd (evaluateOneCanary sv p now w))"
  by (simp add: bindE_def catchE_def retE_def split: prod.split sum.split)

lemma evaluate_each_total: "\<exists>w'. evaluate_each sv now ps w = (Inr (), w')"
  by (induction ps arbitrary: w) (simp_all add: retE_def evaluate_each_step del: evaluate_each.simps(2))

lemma evaluate_each_append:
  "evaluate_each sv now (ps @ qs) w = evaluate_each sv now qs (snd (evaluate_each sv now ps w))"
  by (induction ps arbitrary: w) (simp_all add: retE_def evaluate_each_step del: evaluate_each.simps(2))

lemma evaluate_each_outcome:
  assumes "store_inv (w_store w)" and "dated sv" and "list_all (seen (w_store w)) ps"
  shows "evaluator_step sv now w (snd (evaluate_each sv now ps w))"
  using assms
proof (induction ps arbitrary: w)
  case Nil
  then show ?case
    by (simp add: retE_def evaluator_step_same)
next
  case (Cons p ps)
  let ?u = "snd (evaluateOneCanary sv p now w)"
  have step: "evaluator_step sv now w ?u"
    using evaluateOneCanary_step [OF surjective_pairing] Cons.prems by simp
  then have "evaluator_step sv now ?u (snd (evaluate_each sv now ps ?u))"
    using Cons by (auto simp: evaluator_step_def list_all_iff)
  with step show ?case
    unfolding evaluate_each_step by (rule evaluator_step_trans)
qed

lemma active_canary_current:
  assumes "store_inv st" and "p \<in> set (query_active_canaries st)"
  shows "read_pointer st (ptr_orgId p) (ptr_agentTargetId p) (ptr_environment p) = Some p"
proof -
  from assms(2) obtain k where "(k, p) \<in> set (st_pointers st)"
    by (auto simp: query_active_canaries_def)
  then have get: "tbl_get (st_pointers st) k = Some p"
    using store_invD(1) [OF assms(1)] by (simp add: tbl_get_def tbl_wf_def)
  from store_invD(3) [OF assms(1) get] get show ?thesis
    by (simp add: read_pointer_def pointer_key_def)
qed

lemma active_canaries_seen:
  "store_inv st \<Longrightarrow> p \<in> set (query_active_canaries st) \<Longrightarrow> seen st p"
  using active_canary_current by (simp add: seen_def)

lemma evaluateRollbacks_cases:
  assumes "evaluateRollbacks sv given w = (r, w')"
  shows "\<exists>now u. w_store u = w_store w \<and> other_tables u = other_tables w \<and> w_ledger u = w_ledger w \<and>
    ((\<exists>e. r = Inl (Sdk e) \<and> w' = u) \<or> evaluate_each sv now (query_active_canaries (w_store w)) u = (r, w'))"
proof -
  obtain now v where v: "(case given of Some t \<Rightarrow> retE t | None \<Rightarrow> now_ms sv) w = (Inr now, v)" "data v = data w"
    by (cases given) (auto simp: retE_def now_ms_def)
  note same = dataD [OF v(2)]
  show ?thesis
  proof (cases "queryActiveCanaries sv v")
    case (Pair x u)
    show ?thesis
    proof (cases x)
      case (Inl e)
      with Pair fetch_Inl [of sv "\<lambda>w. query_active_canaries (w_store w)" v e u]
      have "u = tick v" "\<exists>q. e = Sdk q"
        by (simp_all add: read_defs)
      with assms v Inl Pair same show ?thesis
        by (intro exI [of _ now] exI [of _ u]) (auto simp: evaluateRollbacks_def bindE_def other_tables_def)
    next
      case (Inr cs)
      with Pair have "u = tick v" "cs = query_active_canaries (w_store w)"
        using same by (simp_all add: read_defs fetch_Inr)
      with assms v Inr Pair same show ?thesis
        by (intro exI [of _ now] exI [of _ u]) (auto simp: evaluateRollbacks_def bindE_def other_tables_def)
    qed
  qed
qed


section \<open>Guarantees of the evaluator\<close>

text \<open>C3. Whatever the outcome of a run of the evaluator, failures of the platform included: the stable
  release of every pointer and the floor derived from every history stay what they were, the
  invariant of pointers and history holds, the ledger only grows, the other tables are untouched,
  and the only pointers that changed are canaries whose readable, enabled policy was breached by
  the metrics of their window, each aborted by one system move.\<close>

theorem auto_rollback_safe:
  assumes "evaluateRollbacks sv given w = (r, w')" and "store_inv (w_store w)" and "dated sv"
  shows "stable_of (w_store w') = stable_of (w_store w) \<and> floors_kept (w_store w) (w_store w') \<and>
    store_inv (w_store w') \<and> ledger_extends w w' \<and> other_tables w' = other_tables w \<and>
    (\<exists>now. rows_aborted (\<lambda>p. \<exists>found. breach_found sv now w p found) (w_store w) (w_store w'))"
proof -
  from evaluateRollbacks_cases [OF assms(1)] obtain now u where
    u: "w_store u = w_store w" "other_tables u = other_tables w" "w_ledger u = w_ledger w" and
    run: "w' = u \<or> evaluate_each sv now (query_active_canaries (w_store w)) u = (r, w')"
    by blast
  have B: "(\<lambda>p. \<exists>found. breach_found sv now u p found) = (\<lambda>p. \<exists>found. breach_found sv now w p found)"
    using breach_found_cong [OF u(2)] by blast
  have "store_inv (w_store w') \<and> other_tables w' = other_tables u \<and> ledger_extends u w' \<and>
      rows_aborted (\<lambda>p. \<exists>found. breach_found sv now u p found) (w_store u) (w_store w') \<and>
      floors_kept (w_store u) (w_store w')"
    using run
  proof
    assume "w' = u"
    then show ?thesis
      using assms(2) u by (simp add: rows_aborted_def floors_kept_def)
  next
    assume each: "evaluate_each sv now (query_active_canaries (w_store w)) u = (r, w')"
    have "list_all (seen (w_store u)) (query_active_canaries (w_store w))"
      using active_canaries_seen [OF assms(2)] u(1) by (simp add: list_all_iff)
    from evaluate_each_outcome [OF _ assms(3) this, of now] show ?thesis
      using assms(2) u(1) each by (simp add: evaluator_step_def)
  qed
  then show ?thesis
    unfolding B using u rows_aborted_stable by (auto simp: ledger_extends_def)
qed

text \<open>The evaluator throws only when the canaries cannot be enumerated, and then it has moved nothing;
  a canary whose evaluation fails never keeps the others from being evaluated.\<close>

theorem evaluator_isolates_failures:
  "(\<forall>e w'. evaluateRollbacks sv given w = (Inl e, w') \<longrightarrow>
     (\<exists>x. e = Sdk x) \<and> w_store w' = w_store w \<and> w_ledger w' = w_ledger w) \<and>
   (\<exists>w'. evaluate_each sv now ps w = (Inr (), w')) \<and>
   evaluate_each sv now (ps @ qs) w = evaluate_each sv now qs (snd (evaluate_each sv now ps w))"
proof -
  have "(\<exists>x. e = Sdk x) \<and> w_store w' = w_store w \<and> w_ledger w' = w_ledger w"
    if "evaluateRollbacks sv given w = (Inl e, w')" for e w'
  proof -
    from evaluateRollbacks_cases [OF that] obtain now u where
      "w_store u = w_store w" "w_ledger u = w_ledger w"
      "(\<exists>x. Inl e = Inl (Sdk x) \<and> w' = u) \<or> evaluate_each sv now (query_active_canaries (w_store w)) u = (Inl e, w')"
      by blast
    with evaluate_each_total [of sv now "query_active_canaries (w_store w)" u] show ?thesis
      by auto
  qed
  then show ?thesis
    using evaluate_each_total evaluate_each_append by blast
qed

text \<open>C18. A rollback that was committed is recorded in the ledger with its evidence or, when that write
  fails, raises the metric the alarm is on; provided the platform reports a failed call only when
  the call had no effect.\<close>

theorem rollback_recorded_or_alarmed:
  assumes "evaluateOneCanary sv p now w = (r, w')" and "w_store w' \<noteq> w_store w"
    and "honest sv" and "clean_faults sv"
  shows "\<exists>found. breach_found sv now w p found \<and> abort_made sv p (w_store w) (w_store w') \<and>
    (rollback_recorded sv p found w w' \<or> alarmed w w')"
  using evaluateOneCanary_outcome [OF assms(1)] assms(2-4) unfolding rollback_effect_def by blast

text \<open>Overlapping evaluators that all read the same row of a pointer.\<close>

definition overlapping :: "pointer \<Rightarrow> (services \<times> rat) list \<Rightarrow> world \<Rightarrow> world" where
  "overlapping p runs w = foldl (\<lambda>w (sv, now). snd (evaluateOneCanary sv p now w)) w runs"

lemma overlapping_settled:
  assumes "read_pointer (w_store w) (ptr_orgId p) (ptr_agentTargetId p) (ptr_environment p) = Some q"
    and "ptr_version q \<noteq> ptr_version p"
  shows "w_store (overlapping p runs w) = w_store w"
  using assms
proof (induction runs arbitrary: w)
  case (Cons run runs)
  obtain sv now where run: "run = (sv, now)"
    by fastforce
  have "w_store (snd (evaluateOneCanary sv p now w)) = w_store w"
    using evaluateOneCanary_outcome [of sv p now w, OF surjective_pairing] Cons.prems
    by (auto simp: abort_made_def transact_put_Inr put_condition_def)
  with Cons show ?case
    by (simp add: overlapping_def run)
qed (simp add: overlapping_def)

text \<open>C9. However many evaluators act on one reading of a canary, under whatever failures, it is rolled back at
  most once: afterwards the row is the one that was read or that row aborted, one version on.\<close>

theorem rollback_at_most_once:
  assumes "read_pointer (w_store w) (ptr_orgId p) (ptr_agentTargetId p) (ptr_environment p) = Some p"
    and "list_all (\<lambda>(sv, now). dated sv) runs" and "store_inv (w_store w)"
  shows "\<exists>q. read_pointer (w_store (overlapping p runs w)) (ptr_orgId p) (ptr_agentTargetId p) (ptr_environment p) =
      Some q \<and> (q = p \<or> aborted_row p q) \<and> store_inv (w_store (overlapping p runs w))"
  using assms
proof (induction runs arbitrary: w)
  case (Cons run runs)
  obtain sv now where run: "run = (sv, now)"
    by fastforce
  let ?u = "snd (evaluateOneCanary sv p now w)"
  have step: "overlapping p (run # runs) w = overlapping p runs ?u"
    by (simp add: overlapping_def run)
  show ?case
  proof (cases "w_store ?u = w_store w")
    case True
    with Cons show ?thesis
      by (simp add: step)
  next
    case False
    with evaluateOneCanary_outcome [of sv p now w, OF surjective_pairing] obtain found where
      "breach_found sv now w p found" and made: "abort_made sv p (w_store w) (w_store ?u)"
      by blast
    then have c: "ptr_canary p \<noteq> None"
      by (auto simp: breach_found_def)
    have sn: "seen (w_store w) p"
      using Cons.prems(1) by (simp add: seen_def)
    have sv: "dated sv"
      using Cons.prems(2) by (simp add: run)
    note out = abort_step [where B = "\<lambda>_. True", OF Cons.prems(3) sn made sv c TrueI]
    have "read_pointer (w_store ?u) (ptr_orgId p) (ptr_agentTargetId p) (ptr_environment p) \<noteq> Some p"
    proof -
      obtain ts where "transact_put (abort_params p) ts (w_store w) = (Inr (), w_store ?u)"
        using made unfolding abort_made_def by blast
      moreover have "pointer_item (abort_params p) ts \<noteq> p"
      proof
        assume "pointer_item (abort_params p) ts = p"
        from arg_cong [OF this, of ptr_version] show False
          by simp
      qed
      ultimately show ?thesis
        by (simp add: read_after_put)
    qed
    with out(2) Cons.prems(1) obtain q where
      q: "read_pointer (w_store ?u) (ptr_orgId p) (ptr_agentTargetId p) (ptr_environment p) = Some q" "aborted_row p q"
      unfolding rows_aborted_def by (metis option.sel)
    then have "w_store (overlapping p runs ?u) = w_store ?u"
      by (intro overlapping_settled) (auto simp: aborted_row_def)
    with q out(1) show ?thesis
      by (simp add: step)
  qed
qed (simp add: overlapping_def)

text \<open>Without an active canary a run writes no finding: nothing backfills the finding of a canary that was
  aborted earlier.\<close>

lemma no_canary_no_finding:
  assumes "query_active_canaries (w_store w) = []"
  shows "w_ledger (snd (evaluateRollbacks sv given w)) = w_ledger w"
proof -
  obtain r w' where run: "evaluateRollbacks sv given w = (r, w')"
    by fastforce
  from evaluateRollbacks_cases [OF run] assms show ?thesis
    by (auto simp: run retE_def)
qed


section \<open>Breaching canaries are aborted\<close>

lemma decide_canary_no_fault:
  assumes "sv_fault sv (w_calls w) = None" "sv_fault sv (Suc (w_calls w)) = None"
    and "breach_found sv now w p found" and "ptr_canary p = Some c"
  shows "decide_canary sv p c now w = (Inr (Some found), tick (tick w))"
proof -
  from assms(3,4) obtain policy where
    pol: "resolveRollbackPolicy (Inr (tbl_get (w_policies w) (ptr_orgId p)) :: exn + jsval option)
          (ptr_agentTargetId p) (Some (ptr_environment p)) = Some policy" and
    en: "rb_enabled policy" and
    win: "windowBounds sv now (evaluationWindowMinutes policy) = Inr (cb_windowStart found, cb_windowEnd found)" and
    br: "evaluateRollback (arm_metrics (candidateReleaseId c)
          (usage_rows w (ptr_orgId p) (cb_windowStart found) (cb_windowEnd found))) policy = Breach (cb_breach found)"
    unfolding breach_found_def by auto
  have read: "read_rollback_policy sv (ptr_orgId p) (ptr_agentTargetId p) (ptr_environment p) w = (Inr (Some policy), tick w)"
    using assms(1,2) pol by (simp add: read_rollback_policy_def tryE_def fetch_def service_def cmd_defs)
  have metrics: "readCandidateArmMetrics sv (ptr_orgId p) (candidateReleaseId c) (cb_windowStart found)
      (cb_windowEnd found) (tick w) = (Inr (arm_metrics (candidateReleaseId c)
        (usage_rows w (ptr_orgId p) (cb_windowStart found) (cb_windowEnd found))), tick (tick w))"
    using assms(1,2) by (simp add: readCandidateArmMetrics_def fetch_def service_def cmd_defs usage_rows_def)
  show ?thesis
    unfolding decide_canary_def bindE_step [of "read_rollback_policy sv (ptr_orgId p) (ptr_agentTargetId p)
        (ptr_environment p)", OF read]
    using en by (simp add: win liftE_def bindE_def metrics retE_def br)
qed

lemma abort_no_fault:
  assumes "\<forall>n. sv_fault sv n = None"
    and "read_pointer (w_store w) (ptr_orgId p) (ptr_agentTargetId p) (ptr_environment p) = Some p"
  shows "\<exists>m u. abort_or_lose sv p w = (Inr (Some m), u)"
proof -
  obtain m u where "setEnvironmentReleasePointer sv (abort_params p) w = (Inr m, u)"
    using set_no_fault [of sv "abort_params p" w] assms by (auto simp: put_condition_def)
  then show ?thesis
    by (simp add: abort_or_lose_def performAutoAbortCanary_def cmd_defs)
qed

lemma roll_back_store:
  assumes "abort_or_lose sv p w = (Inr (Some m), u)"
  shows "w_store (snd (roll_back sv p c found w)) = w_store u"
proof -
  let ?e = "rollback_evidence_of p c found m"
  let ?finding = "catchE (writeAutoRollbackFinding sv (rollback_finding p ?e)) (\<lambda>err. emit_metric AutoRollbackFindingWriteFailure)"
  let ?emit = "emit_auto_rollback sv \<lparr>rn_orgId = ptr_orgId p, rn_agentTargetId = ptr_agentTargetId p,
        rn_environment = ptr_environment p, rn_evidence = ?e\<rparr>"
  obtain y v where y: "?finding u = (y, v)"
    by fastforce
  obtain z t where z: "?emit v = (z, t)"
    by fastforce
  show ?thesis
    using assms record_or_alarm [OF y] emit_rollback_outcome [OF z] y z
    by (simp add: roll_back_def bindE_def Let_def)
qed

text \<open>A pointer whose canary is gone, or which still is the row read.\<close>

lemma one_canary_aborted:
  assumes "\<forall>n. sv_fault sv n = None" and "breach_found sv now w p found"
    and "read_pointer (w_store w) (ptr_orgId p) (ptr_agentTargetId p) (ptr_environment p) = Some p"
  shows "\<exists>q. read_pointer (w_store (snd (evaluateOneCanary sv p now w))) (ptr_orgId p) (ptr_agentTargetId p)
    (ptr_environment p) = Some q \<and> ptr_canary q = None"
proof -
  from assms(2) obtain c where c: "ptr_canary p = Some c"
    by (auto simp: breach_found_def)
  let ?u = "tick (tick w)"
  have u: "decide_canary sv p c now w = (Inr (Some found), ?u)"
    using decide_canary_no_fault [OF _ _ assms(2) c] assms(1) by simp
  have st: "w_store ?u = w_store w"
    by simp
  obtain m v where m: "abort_or_lose sv p ?u = (Inr (Some m), v)"
    using abort_no_fault [OF assms(1), of ?u p] assms(3) st by auto
  then obtain ts where put: "transact_put (abort_params p) ts (w_store w) = (Inr (), w_store v)"
    using abort_or_lose_outcome [OF m] st unfolding abort_made_def by auto
  have "w_store (snd (evaluateOneCanary sv p now w)) = w_store v"
    using u c roll_back_store [OF m] by (simp add: evaluateOneCanary_def bindE_def)
  then show ?thesis
    using read_after_put [OF put] by simp
qed

lemma canary_gone_stays:
  assumes "rows_aborted B st st'" and "read_pointer st org a e = Some q" and "ptr_canary q = None"
  shows "\<exists>q'. read_pointer st' org a e = Some q' \<and> ptr_canary q' = None"
  using assms unfolding rows_aborted_def aborted_row_def by (metis option.sel)

lemma rows_aborted_current:
  assumes "rows_aborted B st st'" and "read_pointer st org a e = Some p"
  shows "read_pointer st' org a e = Some p \<or> (\<exists>q. read_pointer st' org a e = Some q \<and> ptr_canary q = None)"
  using assms unfolding rows_aborted_def aborted_row_def by (metis option.sel)

definition settled :: "store \<Rightarrow> pointer \<Rightarrow> bool" where
  "settled st p \<longleftrightarrow> (\<exists>q. read_pointer st (ptr_orgId p) (ptr_agentTargetId p) (ptr_environment p) = Some q \<and>
     ptr_canary q = None)"

lemma settled_step: "evaluator_step sv now w u \<Longrightarrow> settled (w_store w) p \<Longrightarrow> settled (w_store u) p"
  unfolding settled_def evaluator_step_def using canary_gone_stays by blast

lemma evaluate_each_aborts:
  assumes "\<forall>n. sv_fault sv n = None" and "dated sv" and "store_inv (w_store w)"
    and "list_all (seen (w_store w)) ps" and "p \<in> set ps" and "breach_found sv now w p found"
    and "read_pointer (w_store w) (ptr_orgId p) (ptr_agentTargetId p) (ptr_environment p) = Some p \<or>
      settled (w_store w) p"
  shows "settled (w_store (snd (evaluate_each sv now ps w))) p"
  using assms(3-7)
proof (induction ps arbitrary: w)
  case (Cons p0 ps)
  let ?u = "snd (evaluateOneCanary sv p0 now w)"
  have step: "evaluator_step sv now w ?u"
    using evaluateOneCanary_step [OF surjective_pairing] Cons.prems assms(2) by simp
  then have prems: "store_inv (w_store ?u)" "list_all (seen (w_store ?u)) ps"
    using Cons.prems(2) by (auto simp: evaluator_step_def list_all_iff)
  have found: "breach_found sv now ?u p found"
    using Cons.prems(4) breach_found_cong [of ?u w] step by (simp add: evaluator_step_def)
  show ?case
  proof (cases "p = p0")
    case True
    have "settled (w_store ?u) p"
      using Cons.prems(5)
    proof
      assume "read_pointer (w_store w) (ptr_orgId p) (ptr_agentTargetId p) (ptr_environment p) = Some p"
      from one_canary_aborted [OF assms(1) Cons.prems(4) this] show ?thesis
        by (simp add: settled_def True)
    qed (rule settled_step [OF step])
    then show ?thesis
      using settled_step [OF evaluate_each_outcome [OF prems(1) assms(2) prems(2)]]
      unfolding evaluate_each_step by blast
  next
    case False
    have "read_pointer (w_store ?u) (ptr_orgId p) (ptr_agentTargetId p) (ptr_environment p) = Some p \<or>
        settled (w_store ?u) p"
      using Cons.prems(5) settled_step [OF step] rows_aborted_current step
      unfolding settled_def evaluator_step_def by blast
    with Cons.IH [OF prems(1,2) _ found] Cons.prems(3) False show ?thesis
      unfolding evaluate_each_step by simp
  qed
qed simp

text \<open>C6. When no call fails, one run of the evaluator aborts every canary that breaches its policy: its
  pointer is still there, without a canary.\<close>

theorem breaching_canaries_aborted:
  assumes "\<forall>n. sv_fault sv n = None" and "dated sv" and "store_inv (w_store w)"
    and "p \<in> set (query_active_canaries (w_store w))" and "breach_found sv now w p found"
  shows "\<exists>w' q. evaluateRollbacks sv (Some now) w = (Inr (), w') \<and>
    read_pointer (w_store w') (ptr_orgId p) (ptr_agentTargetId p) (ptr_environment p) = Some q \<and>
    ptr_canary q = None"
proof -
  let ?cs = "query_active_canaries (w_store w)"
  have run: "evaluateRollbacks sv (Some now) w = evaluate_each sv now ?cs (tick w)"
    using assms(1) by (simp add: evaluateRollbacks_def read_defs fetch_def service_def cmd_defs)
  obtain w' where w': "evaluate_each sv now ?cs (tick w) = (Inr (), w')"
    using evaluate_each_total by blast
  have "p \<in> set ?cs \<Longrightarrow> read_pointer (w_store w) (ptr_orgId p) (ptr_agentTargetId p) (ptr_environment p) = Some p"
    using active_canary_current [OF assms(3)] .
  moreover have "breach_found sv now (tick w) p found"
    using assms(5) breach_found_cong [of "tick w" w] by (simp add: other_tables_def)
  ultimately have "settled (w_store w') p"
    using evaluate_each_aborts [OF assms(1,2), of "tick w" ?cs p now found] assms(3,4)
      active_canaries_seen [OF assms(3)] w'
    by (simp add: list_all_iff)
  then show ?thesis
    using run w' by (auto simp: settled_def)
qed


section \<open>A breaching canary\<close>

text \<open>One pointer with a canary, one row of usage above the ceiling of an enabled policy, a window of no
  length around the fifth millisecond.\<close>

definition rb_move :: set_params where
  "rb_move = (first_move ''r0'')\<lparr>sp_canary := Some sample_canary\<rparr>"

definition rb_pointer :: pointer where
  "rb_pointer = pointer_item rb_move ''0''"

definition rb_store :: store where
  "rb_store = snd (transact_put rb_move ''0'' \<lparr>st_pointers = [], st_history = []\<rparr>)"

definition rb_policy_row :: jsobj where
  "rb_policy_row =
     [(''orgId'', JStr ''org''),
      (''rollbackPolicy'', JObj [(''enabled'', JBool True), (''costPerInvocationMaxMicros'', JNum (Fin 900)),
        (''minSampleCount'', JNum (Fin 1)), (''evaluationWindowMinutes'', JNum (Fin 0))])]"

definition rb_usage :: usage_row where
  "rb_usage = \<lparr>ur_costMicros = Some 1000, ur_priced = True, ur_latencyMs = None, ur_releaseId = Some ''r1'',
     ur_releaseArm = Some ''candidate'', ur_evalContext = False, ur_costContext = None\<rparr>"

definition rb_services :: services where
  "rb_services = sample_services ''strict''"

definition rb_world :: world where
  "rb_world = sample_world\<lparr>w_store := rb_store, w_policies := [(''org'', JObj rb_policy_row)],
     w_usage := [((''ORG#org'', sv_iso rb_services 5), rb_usage)]\<rparr>"

definition rb_found :: canary_breach where
  "rb_found =
     \<lparr>cb_breach = \<lparr>br_metric = M_costPerInvocation, br_observedValue = 1000, br_threshold = 900,
        br_sampleCount = 1, br_action = ABORT_CANARY\<rparr>,
      cb_windowStart = sv_iso rb_services 5, cb_windowEnd = sv_iso rb_services 5\<rparr>"

lemma rb_put: "transact_put rb_move ''0'' \<lparr>st_pointers = [], st_history = []\<rparr> = (Inr (), rb_store)"
  by (simp add: rb_store_def transact_put_def rb_move_def first_move_def put_condition_def Let_def)

lemma rb_inv: "store_inv rb_store"
  by (rule store_inv_put [OF store_inv_empty _ _ rb_put])
    (simp_all add: versioned_move_def rb_move_def first_move_def)

lemma rb_read: "read_pointer rb_store ''org'' ''agent'' ENV_DEV = Some rb_pointer"
  using read_after_put [OF rb_put, of "''org''" "''agent''" ENV_DEV]
  by (simp add: rb_pointer_def rb_move_def first_move_def)

lemma rb_pointer_simps [simp]:
  "ptr_orgId rb_pointer = ''org''" "ptr_agentTargetId rb_pointer = ''agent''" "ptr_environment rb_pointer = ENV_DEV"
  "ptr_canary rb_pointer = Some sample_canary" "ptr_version rb_pointer = 1" "ptr_releaseId rb_pointer = ''r0''"
  by (simp_all add: rb_pointer_def rb_move_def first_move_def nextVersion_def)

lemma rb_active: "query_active_canaries rb_store = [rb_pointer]"
proof -
  have "ptr_canaryActiveKey rb_pointer \<noteq> None"
    by (simp add: rb_pointer_def rb_move_def)
  moreover have "map snd (st_pointers rb_store) = [rb_pointer]"
    by (simp add: rb_store_def transact_put_def rb_move_def first_move_def put_condition_def Let_def
        rb_pointer_def tbl_put_def)
  ultimately show ?thesis
    by (simp add: query_active_canaries_def)
qed

lemma rb_dated: "dated rb_services"
  by (simp add: dated_def rb_services_def sample_services_def show_nat_no_hash)

lemma rb_faultless: "\<forall>n. sv_fault rb_services n = None" "honest rb_services" "clean_faults rb_services"
  by (simp_all add: rb_services_def sample_services_def honest_def clean_faults_def)

lemma rb_policy:
  "\<exists>p. resolveRollbackPolicy (Inr (Some (JObj rb_policy_row)) :: exn + jsval option) ''agent'' (Some ENV_DEV) = Some p \<and>
    rb_enabled p \<and> costPerInvocationMaxMicros p = Some 900 \<and> rb_minSampleCount p = 1 \<and>
    evaluationWindowMinutes p = 0 \<and> rb_action p = ABORT_CANARY"
proof -
  let ?p = "mergeRollbackFields (rollback_layers rb_policy_row ''agent'' (Some ENV_DEV))"
  have "areRollbackContainersReadable rb_policy_row" "orgId_readable rb_policy_row"
    by (simp_all add: areRollbackContainersReadable_def orgId_readable_def rb_policy_row_def js_prop_def
        container_readable_def overrides_readable_def hasWrongTypeRollbackField_def has_wrong_type_def ROLLBACK_FIELDS_def)
  then have res: "resolveRollbackPolicy (Inr (Some (JObj rb_policy_row)) :: exn + jsval option) ''agent'' (Some ENV_DEV) = Some ?p"
    by (simp add: resolveRollbackPolicy_def)
  have layer: "map (candidate_of f) (rollback_layers rb_policy_row ''agent'' (Some ENV_DEV)) =
      [js_prop [(''enabled'', JBool True), (''costPerInvocationMaxMicros'', JNum (Fin 900)),
        (''minSampleCount'', JNum (Fin 1)), (''evaluationWindowMinutes'', JNum (Fin 0))] f, JUndef, JUndef]" for f
    by (simp add: rollback_layers_def rb_policy_row_def js_prop_def candidate_of_def as_source_def override_at_def)
  have get: "rollback_get ?p RF_enabled = JBool True" "rollback_get ?p RF_costPerInvocationMaxMicros = JNum (Fin 900)"
    "rollback_get ?p RF_minSampleCount = JNum (Fin 1)" "rollback_get ?p RF_evaluationWindowMinutes = JNum (Fin 0)"
    "rollback_get ?p RF_action = show_action ABORT_CANARY"
    unfolding mergeRollbackFields_get layer
    by (simp_all add: js_prop_def last_valid_def isRollbackAction_def isSaneNullableNonNegative_def
        DEFAULT_ROLLBACK_POLICY_def)
  have "costPerInvocationMaxMicros ?p = Some 900"
    using get(2) by (cases "costPerInvocationMaxMicros ?p") simp_all
  moreover have "rb_action ?p = ABORT_CANARY"
    using get(5) by (cases "rb_action ?p") simp_all
  ultimately show ?thesis
    using res get by simp
qed

lemma rb_usage_rows: "usage_rows rb_world ''org'' (sv_iso rb_services 5) (sv_iso rb_services 5) = [rb_usage]"
  by (simp add: usage_rows_def rb_world_def tbl_query_def)

lemma rb_metrics: "arm_metrics ''r1'' [rb_usage] =
    \<lparr>cam_costPerInvocationMicros = Some 1000, cam_modelCallLatencyP95Ms = None, cam_errorRate = None,
      cam_policyViolationFindingRate = None, cam_driftScore = None, cam_sampleCount = 1\<rparr>"
  by (simp add: arm_metrics_def arm_result_def no_sums_def arm_step_def candidate_row_def rb_usage_def Let_def arm_percentile_def)

lemma rb_breach: "breach_found rb_services 5 rb_world rb_pointer rb_found"
proof -
  obtain p where p: "resolveRollbackPolicy (Inr (Some (JObj rb_policy_row)) :: exn + jsval option) ''agent'' (Some ENV_DEV) = Some p"
    "rb_enabled p" "costPerInvocationMaxMicros p = Some 900" "rb_minSampleCount p = 1"
    "evaluationWindowMinutes p = 0" "rb_action p = ABORT_CANARY"
    using rb_policy by blast
  have "windowBounds rb_services 5 (evaluationWindowMinutes p) = Inr (sv_iso rb_services 5, sv_iso rb_services 5)"
    using p(5) by (simp add: windowBounds_def date_trunc_def MAX_DATE_MS_def)
  moreover have "evaluateRollback (arm_metrics ''r1'' [rb_usage]) p = Breach (cb_breach rb_found)"
    unfolding rb_metrics using p by (simp add: evaluateRollback_def METRIC_ORDER_def rb_found_def)
  moreover have "tbl_get (w_policies rb_world) ''org'' = Some (JObj rb_policy_row)"
    by (simp add: rb_world_def tbl_get_def)
  moreover have "candidateReleaseId sample_canary = ''r1''"
    by (simp add: sample_canary_def)
  ultimately show ?thesis
    unfolding breach_found_def using p(1,2) rb_usage_rows by (simp add: rb_found_def)
qed

lemma rb_world_store: "w_store rb_world = rb_store"
  by (simp add: rb_world_def)

theorem breaching_canaries_aborted_witness:
  "\<exists>w' q. evaluateRollbacks rb_services (Some 5) rb_world = (Inr (), w') \<and>
    read_pointer (w_store w') ''org'' ''agent'' ENV_DEV = Some q \<and> ptr_canary q = None"
  using breaching_canaries_aborted [OF rb_faultless(1) rb_dated _ _ rb_breach] rb_inv rb_active
  by (simp add: rb_world_store)

theorem auto_rollback_safe_witness:
  "stable_of (w_store (snd (evaluateRollbacks rb_services (Some 5) rb_world))) = stable_of rb_store \<and>
   stable_of rb_store ''org'' ''agent'' ENV_DEV = Some ''r0''"
  using auto_rollback_safe [OF surjective_pairing _ rb_dated, of rb_world] rb_inv rb_read
  by (simp add: rb_world_store stable_of_def)

theorem evaluator_isolates_failures_witness:
  "\<exists>e w'. evaluateRollbacks (rb_services\<lparr>sv_fault := (\<lambda>n. Some (False, OtherException ''down''))\<rparr>) (Some 5) rb_world =
    (Inl e, w') \<and> (\<exists>x. e = Sdk x) \<and> w_store w' = rb_store"
proof -
  let ?sv = "rb_services\<lparr>sv_fault := (\<lambda>n. Some (False, OtherException ''down''))\<rparr>"
  obtain e w' where run: "evaluateRollbacks ?sv (Some 5) rb_world = (Inl e, w')"
    by (simp add: evaluateRollbacks_def read_defs fetch_def service_def cmd_defs)
  from evaluator_isolates_failures [THEN conjunct1, rule_format, OF run] run show ?thesis
    by (auto simp: rb_world_store)
qed

lemma rb_one_moves: "w_store (snd (evaluateOneCanary rb_services rb_pointer 5 rb_world)) \<noteq> w_store rb_world"
proof -
  have "\<exists>q. read_pointer (w_store (snd (evaluateOneCanary rb_services rb_pointer 5 rb_world))) ''org'' ''agent''
      ENV_DEV = Some q \<and> ptr_canary q = None"
    using one_canary_aborted [OF rb_faultless(1) rb_breach] rb_read by (simp add: rb_world_store)
  then show ?thesis
    using rb_read by (auto simp: rb_world_store)
qed

theorem rollback_recorded_or_alarmed_witness:
  "\<exists>found. breach_found rb_services 5 rb_world rb_pointer found \<and>
    (rollback_recorded rb_services rb_pointer found rb_world (snd (evaluateOneCanary rb_services rb_pointer 5 rb_world)) \<or>
     alarmed rb_world (snd (evaluateOneCanary rb_services rb_pointer 5 rb_world)))"
  using rollback_recorded_or_alarmed [OF surjective_pairing rb_one_moves rb_faultless(2,3)] by blast

theorem rollback_at_most_once_witness:
  "\<exists>q. read_pointer (w_store (overlapping rb_pointer [(rb_services, 5), (rb_services, 5)] rb_world)) ''org'' ''agent'' ENV_DEV =
    Some q \<and> aborted_row rb_pointer q"
proof -
  let ?u = "snd (evaluateOneCanary rb_services rb_pointer 5 rb_world)"
  have start: "read_pointer (w_store rb_world) (ptr_orgId rb_pointer) (ptr_agentTargetId rb_pointer)
      (ptr_environment rb_pointer) = Some rb_pointer"
    by (simp add: rb_world_store rb_read)
  have inv: "store_inv (w_store rb_world)"
    by (simp add: rb_world_store rb_inv)
  have runs: "list_all (\<lambda>(sv, now). dated sv) [(rb_services, 5), (rb_services, 5)]"
    by (simp add: rb_dated)
  obtain q where q: "read_pointer (w_store ?u) ''org'' ''agent'' ENV_DEV = Some q" "ptr_canary q = None"
    using one_canary_aborted [OF rb_faultless(1) rb_breach] rb_read by (auto simp: rb_world_store)
  have "settled (w_store ?u) rb_pointer"
    using q by (simp add: settled_def)
  note gone = this
  have "seen (w_store rb_world) rb_pointer"
    using start by (simp add: seen_def)
  from evaluateOneCanary_step [OF surjective_pairing inv rb_dated this, of 5] this
  have "store_inv (w_store ?u)" "seen (w_store ?u) rb_pointer"
    by (simp_all add: evaluator_step_def)
  from settled_step [OF evaluateOneCanary_step [OF surjective_pairing this(1) rb_dated this(2)] gone]
  have "settled (w_store (overlapping rb_pointer [(rb_services, 5), (rb_services, 5)] rb_world)) rb_pointer"
    by (simp add: overlapping_def)
  with rollback_at_most_once [OF start runs inv] show ?thesis
    by (auto simp: settled_def)
qed


text \<open>A move that was applied but whose answer was lost is neither recorded nor alarmed: the error is not
  the one of a lost race, so the rest of the step is skipped.\<close>

definition lost_answer :: services where
  "lost_answer = rb_services\<lparr>sv_fault := (\<lambda>n. if n = 3 then Some (True, OtherException ''timeout'') else None)\<rparr>"

lemma lost_answer_unrecorded:
  "w_store (snd (evaluateOneCanary lost_answer rb_pointer 5 rb_world)) \<noteq> w_store rb_world \<and>
   w_ledger (snd (evaluateOneCanary lost_answer rb_pointer 5 rb_world)) = w_ledger rb_world \<and>
   w_metrics (snd (evaluateOneCanary lost_answer rb_pointer 5 rb_world)) = w_metrics rb_world"
proof -
  let ?u = "tick (tick rb_world)"
  have fault: "sv_fault lost_answer n = (if n = 3 then Some (True, OtherException ''timeout'') else None)" for n
    by (simp add: lost_answer_def)
  have same: "windowBounds lost_answer = windowBounds rb_services"
    by (intro ext) (simp add: windowBounds_def lost_answer_def Let_def)
  have calls: "w_calls rb_world = 0"
    by (simp add: rb_world_def sample_world_def)
  have "breach_found lost_answer 5 rb_world rb_pointer rb_found"
    using rb_breach by (simp add: breach_found_def same)
  then have dec: "decide_canary lost_answer rb_pointer sample_canary 5 rb_world = (Inr (Some rb_found), ?u)"
    by (intro decide_canary_no_fault) (simp_all add: fault calls)
  let ?ts = "sv_iso lost_answer (sv_now_ms lost_answer (w_calls ?u))"
  obtain st where put: "transact_put (abort_params rb_pointer) ?ts rb_store = (Inr (), st)"
    using rb_read by (simp add: transact_put_Inr put_condition_def auto_abort_params_def)
  have ver: "ptr_version (pointer_item (abort_params rb_pointer) ?ts) \<noteq> ptr_version rb_pointer"
    by (simp add: auto_abort_params_def nextVersion_def)
  have "read_pointer st ''org'' ''agent'' ENV_DEV = Some (pointer_item (abort_params rb_pointer) ?ts)"
    using read_after_put [OF put, of "''org''" "''agent''" ENV_DEV] by (simp add: auto_abort_params_def)
  with rb_read ver have "st \<noteq> rb_store"
    by (metis option.inject)
  moreover have "abort_or_lose lost_answer rb_pointer ?u =
      (Inl (Sdk (OtherException ''timeout'')), (tick (tick ?u))\<lparr>w_store := st\<rparr>)"
    using put calls
    by (simp add: abort_or_lose_def performAutoAbortCanary_def setEnvironmentReleasePointer_def now_iso_def now_ms_def
        cmd_defs service_def fault transact_def rb_world_store isConditionalCheckFailed_def)
  then have "evaluateOneCanary lost_answer rb_pointer 5 rb_world =
      (Inl (Sdk (OtherException ''timeout'')), (tick (tick ?u))\<lparr>w_store := st\<rparr>)"
    by (simp add: evaluateOneCanary_def roll_back_def bindE_step dec bindE_stop)
  ultimately show ?thesis
    by (simp add: rb_world_store)
qed

end
