(* ===== verification/PolicyResolver.thy ===== *)
theory PolicyResolver
  imports Rollback
begin

text \<open>
  The administrators' resolver of promotion policies
  (backend/src/lambda/promotion-policy-resolver.ts): who may write, the check of the authored
  ladder, and the write of the whole row. The three fields of the input are JSON values, as the
  schema types them, absent ones undefined or null.
\<close>

section \<open>Code\<close>

definition requireAdmin :: "auth_context \<Rightarrow> string \<Rightarrow> exn + unit" where
  "requireAdmin authContext action =
     (if ''admin'' \<in> set (ac_roles authContext) then Inr () else Inl (UnauthorizedError action))"

definition requireCallerOrgMatches :: "'a gql_event \<Rightarrow> string \<Rightarrow> string \<Rightarrow> exn + unit" where
  "requireCallerOrgMatches event requestedOrgId action = (case extractOrgFromEvent event of
       None \<Rightarrow> Inl (AccessDeniedError action)
     | Some callerOrgId \<Rightarrow>
         if callerOrgId \<noteq> JStr requestedOrgId then Inl (AccessDeniedError action) else Inr ())"

record policy_input =
  pin_policy :: jsval
  pin_perAgentPolicyOverrides :: jsval
  pin_perEnvironmentPolicyOverrides :: jsval

record policy_config =
  pc_orgId :: string
  pc_policy :: jsval
  pc_perAgentPolicyOverrides :: jsval
  pc_perEnvironmentPolicyOverrides :: jsval
  pc_updatedAt :: string
  pc_updatedBy :: string

text \<open>\<open>v ?? {}\<close>\<close>

definition or_empty :: "jsval \<Rightarrow> jsval" where
  "or_empty v = (if v = JUndef \<or> v = JNull then JObj [] else v)"

definition policy_item :: "policy_config \<Rightarrow> jsval" where
  "policy_item config = JObj
     [(''orgId'', JStr (pc_orgId config)), (''policy'', pc_policy config),
      (''perAgentPolicyOverrides'', pc_perAgentPolicyOverrides config),
      (''perEnvironmentPolicyOverrides'', pc_perEnvironmentPolicyOverrides config),
      (''updatedAt'', JStr (pc_updatedAt config)), (''updatedBy'', JStr (pc_updatedBy config))]"

definition WRITE_TIME_LADDER :: "environment list" where
  "WRITE_TIME_LADDER = [ENV_DEV, ENV_STAGING, ENV_PROD]"

definition base_policy :: "policy_config \<Rightarrow> environment \<Rightarrow> promotion_policy" where
  "base_policy config env =
     resolveBaseEnvironmentPolicy (as_source (pc_policy config))
       (as_source (js_get (pc_perEnvironmentPolicyOverrides config) (env_str env)))"

text \<open>The loop over the rungs above the first, each against the one below.\<close>

fun check_rungs :: "(environment \<Rightarrow> promotion_policy) \<Rightarrow> environment list \<Rightarrow> exn + unit" where
  "check_rungs base (lower # higher # rest) =
     (if \<not> monotonic (base higher) (base lower)
      then Inl (MonotonicityError higher lower (comparePolicyStrictness (base higher) (base lower)))
      else check_rungs base (higher # rest))"
| "check_rungs base _ = Inr ()"

definition assertMonotonicLadder :: "policy_config \<Rightarrow> exn + unit" where
  "assertMonotonicLadder config = check_rungs (base_policy config) WRITE_TIME_LADDER"

definition put_policy :: "policy_config \<Rightarrow> world \<Rightarrow> (raw_error + unit) \<times> world" where
  "put_policy config w =
     (Inr (), w\<lparr>w_policies := tbl_put (pc_orgId config) (policy_item config) (w_policies w)\<rparr>)"

definition authored_config :: "string \<Rightarrow> policy_input \<Rightarrow> string \<Rightarrow> string \<Rightarrow> policy_config" where
  "authored_config orgId input updatedAt updatedBy =
     \<lparr>pc_orgId = orgId, pc_policy = or_empty (pin_policy input),
      pc_perAgentPolicyOverrides = or_empty (pin_perAgentPolicyOverrides input),
      pc_perEnvironmentPolicyOverrides = or_empty (pin_perEnvironmentPolicyOverrides input),
      pc_updatedAt = updatedAt, pc_updatedBy = updatedBy\<rparr>"

definition setPromotionPolicy ::
  "services \<Rightarrow> string \<Rightarrow> policy_input \<Rightarrow> auth_context \<Rightarrow> policy_config io" where
  "setPromotionPolicy sv orgId input authContext =
     bindE (liftE (requireAdmin authContext ''modify promotion policy configuration'')) (\<lambda>_.
     bindE (now_iso sv) (\<lambda>updatedAt.
     let config = authored_config orgId input updatedAt (ac_userId authContext)
     in bindE (liftE (assertMonotonicLadder config)) (\<lambda>_.
        bindE (service sv (put_policy config)) (\<lambda>_.
        retE config))))"

definition getPromotionPolicy :: "services \<Rightarrow> string \<Rightarrow> auth_context \<Rightarrow> jsval option io" where
  "getPromotionPolicy sv orgId authContext =
     bindE (liftE (requireAdmin authContext ''read promotion policy configuration'')) (\<lambda>_.
     fetch sv (\<lambda>w. tbl_get (w_policies w) orgId))"

datatype policy_request =
    Set_policy string policy_input
  | Get_policy string
  | Unknown_policy_field string

datatype policy_answer =
    Stored_config policy_config
  | Read_config "jsval option"

definition promotion_policy_handler :: "services \<Rightarrow> policy_request gql_event \<Rightarrow> policy_answer io" where
  "promotion_policy_handler sv event =
     (let authContext = authContextFromEvent event
      in case ge_arguments event of
           Set_policy orgId input \<Rightarrow>
             bindE (liftE (requireCallerOrgMatches event orgId ''modify promotion policy configuration'')) (\<lambda>_.
             bindE (setPromotionPolicy sv orgId input authContext) (\<lambda>c. retE (Stored_config c)))
         | Get_policy orgId \<Rightarrow>
             bindE (liftE (requireCallerOrgMatches event orgId ''read promotion policy configuration'')) (\<lambda>_.
             bindE (getPromotionPolicy sv orgId authContext) (\<lambda>c. retE (Read_config c)))
         | Unknown_policy_field f \<Rightarrow> throwE (UnsupportedField f))"

section \<open>The ladder\<close>

lemma check_rungs_ladder:
  "check_rungs base WRITE_TIME_LADDER = Inr () \<longleftrightarrow>
     (\<forall>e p. predecessorEnvironment e = Some p \<longrightarrow> monotonic (base e) (base p))"
proof -
  have ex: "(\<forall>q. P q) = (P ENV_DEV \<and> P ENV_STAGING \<and> P ENV_PROD)" for P :: "environment \<Rightarrow> bool"
    by (metis environment.exhaust)
  show ?thesis
    unfolding ex by (simp add: WRITE_TIME_LADDER_def predecessorEnvironment_def ENVIRONMENT_ORDER_def Let_def)
qed

lemma merge_drop_absent: "mergePolicyFields [a, None, b] = mergePolicyFields [a, b]"
  by (simp add: mergePolicyFields_def merge_layers_def merge_source_def)

lemma item_props [simp]:
  "js_prop [(''orgId'', a), (''policy'', b), (''perAgentPolicyOverrides'', c), (''perEnvironmentPolicyOverrides'', d),
     (''updatedAt'', e), (''updatedBy'', f)] k =
   (if k = ''orgId'' then a else if k = ''policy'' then b else if k = ''perAgentPolicyOverrides'' then c
    else if k = ''perEnvironmentPolicyOverrides'' then d else if k = ''updatedAt'' then e
    else if k = ''updatedBy'' then f else JUndef)"
  by (simp add: js_prop_def)

lemma override_at_get: "override_at v k = as_source (js_get v k)"
  by (cases v) (simp_all add: override_at_def as_source_def split: jsval.splits)

text \<open>For an agent without an override, the gate resolves the base policies that were checked.\<close>

lemma resolve_stored:
  assumes "resolvePromotionPolicy (Inr (Some (policy_item c)) :: exn + jsval option) a (Some e) = Some p"
    and "override_at (pc_perAgentPolicyOverrides c) a = None"
  shows "p = base_policy c e"
  using assms
  by (simp add: resolvePromotionPolicy_def policy_item_def promotion_layers_def merge_drop_absent base_policy_def
      resolveBaseEnvironmentPolicy_def override_at_get split: if_splits)

section \<open>What a write does\<close>

lemma requireAdmin_Inr: "requireAdmin ctx a = Inr u \<longleftrightarrow> ''admin'' \<in> set (ac_roles ctx)"
  by (simp add: requireAdmin_def)

text \<open>Everything but the policies and the call counter.\<close>

definition off_policies :: "world \<Rightarrow> world" where
  "off_policies w = (data w)\<lparr>w_policies := []\<rparr>"

definition policy_written :: "world \<Rightarrow> world \<Rightarrow> string \<Rightarrow> policy_config \<Rightarrow> bool" where
  "policy_written w w' orgId config \<longleftrightarrow>
     pc_orgId config = orgId \<and> assertMonotonicLadder config = Inr () \<and>
     w_policies w' = tbl_put orgId (policy_item config) (w_policies w)"

lemma setPromotionPolicy_outcome:
  assumes "setPromotionPolicy sv org input ctx w = (r, w')"
  shows "off_policies w' = off_policies w \<and>
    (w_policies w' = w_policies w \<or>
      (''admin'' \<in> set (ac_roles ctx) \<and>
       (\<exists>ts. policy_written w w' org (authored_config org input ts (ac_userId ctx))))) \<and>
    (\<forall>c. r = Inr c \<longrightarrow> ''admin'' \<in> set (ac_roles ctx) \<and>
       (\<exists>ts. c = authored_config org input ts (ac_userId ctx) \<and> policy_written w w' org c))"
proof (cases "requireAdmin ctx ''modify promotion policy configuration''")
  case (Inl e)
  with assms show ?thesis
    by (auto simp: setPromotionPolicy_def bindE_def liftE_def)
next
  case (Inr u)
  then have admin: "''admin'' \<in> set (ac_roles ctx)"
    by (simp add: requireAdmin_Inr)
  define c where "c = authored_config org input (sv_iso sv (sv_now_ms sv (w_calls w))) (ac_userId ctx)"
  have run: "bindE (liftE (assertMonotonicLadder c)) (\<lambda>_. bindE (service sv (put_policy c)) (\<lambda>_. retE c)) (tick w) = (r, w')"
    using assms Inr by (simp add: setPromotionPolicy_def bindE_def liftE_def now_iso_def now_ms_def retE_def c_def Let_def)
  show ?thesis
  proof (cases "assertMonotonicLadder c")
    case (Inl e)
    with run show ?thesis
      by (auto simp: bindE_def liftE_def off_policies_def)
  next
    case (Inr v)
    then have ok: "assertMonotonicLadder c = Inr ()"
      by simp
    have org: "pc_orgId c = org"
      by (simp add: c_def authored_config_def)
    have "service sv (put_policy c) (tick w) = (case sv_fault sv (w_calls (tick w)) of
        None \<Rightarrow> (Inr (), snd (put_policy c (tick (tick w))))
      | Some (applied, e) \<Rightarrow> (Inl (Sdk e), if applied then snd (put_policy c (tick (tick w))) else tick (tick w)))"
      by (simp add: service_def put_policy_def split: option.split)
    moreover have "off_policies (snd (put_policy c (tick (tick w)))) = off_policies w"
      "off_policies (tick (tick w)) = off_policies w"
      by (simp_all add: put_policy_def off_policies_def data_def tick_def)
    moreover have "policy_written w (snd (put_policy c (tick (tick w)))) org c"
      using ok org by (simp add: policy_written_def put_policy_def)
    ultimately show ?thesis
      using run ok admin unfolding c_def
      by (auto simp: bindE_def liftE_def retE_def split: option.splits prod.splits if_splits)
  qed
qed

lemma off_policiesD:
  "off_policies w' = off_policies w \<Longrightarrow> w_store w' = w_store w \<and> w_ledger w' = w_ledger w \<and> w_usage w' = w_usage w"
  by (drule arg_cong [of _ _ "\<lambda>v. (w_store v, w_ledger v, w_usage v)"]) (simp add: off_policies_def data_def)

lemma data_policies: "data w' = data w \<Longrightarrow> w_policies w' = w_policies w"
  by (drule arg_cong [of _ _ w_policies]) (simp add: data_def)

lemma keeps_getPromotionPolicy: "keeps (getPromotionPolicy sv org ctx) data"
  unfolding getPromotionPolicy_def by (intro keeps_intros)

lemma foldl_same: "(\<And>x. f a x = a) \<Longrightarrow> foldl f a xs = a"
  by (induction xs) simp_all


section \<open>The write and its readers\<close>

text \<open>C20. A ladder that was accepted never makes the gate refuse for monotonicity: for an agent without an
  override, whatever the platform does, the check of the gate against the policy one step down
  finds no violation; it can only find that policy unreadable.\<close>

theorem stored_ladder_passes_gate:
  assumes "setPromotionPolicy sv org input ctx w = (Inr config, w')"
    and "override_at (pc_perAgentPolicyOverrides config) agent = None"
    and "w_policies v = w_policies w'"
    and "read_policy sv2 org agent env v = (Inr (Some policy), v1)"
    and "monotonicity_failure sv2 org agent env policy v1 = (Inr failure, v2)"
  shows "failure = None \<or> failure = Some MONOTONICITY_PREDECESSOR_UNREADABLE"
proof (cases "predecessorEnvironment env")
  case None
  with assms(5) show ?thesis
    by (simp add: monotonicity_failure_def retE_def)
next
  case (Some lower_env)
  have ok: "assertMonotonicLadder config = Inr ()"
    and row: "tbl_get (w_policies w') org = Some (policy_item config)"
    using setPromotionPolicy_outcome [OF assms(1)] by (auto simp: policy_written_def)
  have v1: "w_policies v1 = w_policies v"
    using keepsD [OF keeps_read_policy assms(4)] durableD(3) by blast
  have policy: "policy = base_policy config env"
    using read_policy_Inr [OF assms(4)] row assms(2,3) resolve_stored by (auto simp: policy_of_def)
  obtain res u where res: "read_policy sv2 org agent lower_env v1 = (Inr res, u)"
    using read_policy_total by blast
  then have failure: "failure = (case res of
        None \<Rightarrow> Some MONOTONICITY_PREDECESSOR_UNREADABLE
      | Some lower \<Rightarrow> if monotonic policy lower then None
          else Some (MONOTONICITY_VIOLATION (comparePolicyStrictness policy lower)))"
    using assms(5) Some by (simp add: monotonicity_failure_def bindE_step retE_def)
  show ?thesis
  proof (cases res)
    case (Some lower)
    then have "lower = base_policy config lower_env"
      using read_policy_Inr [of sv2 org agent lower_env v1 lower u] res row assms(2,3) v1 resolve_stored by (auto simp: policy_of_def)
    with ok policy \<open>predecessorEnvironment env = Some lower_env\<close> have "monotonic policy lower"
      by (simp add: assertMonotonicLadder_def check_rungs_ladder)
    with failure Some show ?thesis
      by simp
  qed (use failure in simp)
qed

text \<open>C19. A write of the promotion policy replaces the whole row: it erases the rollback policy that was
  there. Afterwards every rollback policy of the organisation resolves to the disabled default,
  and no breach of any of its canaries is acted on.\<close>

theorem policy_update_disables_rollback:
  assumes "setPromotionPolicy sv org input ctx w = (Inr config, w')" and "org \<noteq> []"
  shows "resolveRollbackPolicy (Inr (tbl_get (w_policies w') org) :: exn + jsval option) agent env =
      Some DEFAULT_ROLLBACK_POLICY \<and>
    (ptr_orgId p = org \<longrightarrow> \<not> breach_found sv2 now w' p found)"
proof -
  have row: "tbl_get (w_policies w') org = Some (policy_item config)" and org: "pc_orgId config = org"
    using setPromotionPolicy_outcome [OF assms(1)] by (auto simp: policy_written_def)
  have "mergeRollbackFields [None, None, None] = DEFAULT_ROLLBACK_POLICY"
    by (simp add: mergeRollbackFields_def merge_layers_def merge_source_def foldl_same)
  then have res: "resolveRollbackPolicy (Inr (tbl_get (w_policies w') org) :: exn + jsval option) a e =
      Some DEFAULT_ROLLBACK_POLICY" for a e
    using assms(2) org
    by (simp add: row resolveRollbackPolicy_def policy_item_def orgId_readable_def areRollbackContainersReadable_def
        container_readable_def overrides_readable_def rollback_layers_def as_source_def override_at_def split: option.split)
  then show ?thesis
    by (auto simp: breach_found_def DEFAULT_ROLLBACK_POLICY_def)
qed


section \<open>An administrator's write\<close>

definition sample_admin :: auth_context where
  "sample_admin = \<lparr>ac_userId = ''root'', ac_username = JUndef, ac_groups = JArr [], ac_roles = [''admin'']\<rparr>"

text \<open>A stricter success rate for production only.\<close>

definition sample_policy_input :: policy_input where
  "sample_policy_input =
     \<lparr>pin_policy = JNull, pin_perAgentPolicyOverrides = JUndef,
      pin_perEnvironmentPolicyOverrides = JObj [(''PROD'', JObj [(''taskSuccessMin'', JNum (Fin (99 / 100)))])]\<rparr>"

lemma merge_empty: "mergePolicyFields [Some [], None] = DEFAULT_PROMOTION_POLICY"
  by (simp add: mergePolicyFields_def merge_layers_def merge_source_def js_prop_def foldl_same)

lemma merge_strict:
  "mergePolicyFields [Some [], Some [(''taskSuccessMin'', JNum (Fin (99 / 100)))]] =
     DEFAULT_PROMOTION_POLICY\<lparr>taskSuccessMin := 99 / 100\<rparr>"
proof -
  have "isSaneRate (JNum (Fin (99 / 100)))"
    unfolding isSaneRate_iff by (intro exI [of _ "99 / 100"]) simp
  then show ?thesis
    by (simp add: mergePolicyFields_def merge_layers_def merge_source_def js_prop_def POLICY_FIELDS_def)
qed

lemma sample_ladder: "assertMonotonicLadder (authored_config org sample_policy_input ts u) = Inr ()"
proof -
  let ?c = "authored_config org sample_policy_input ts u"
  have "base_policy ?c ENV_DEV = DEFAULT_PROMOTION_POLICY" "base_policy ?c ENV_STAGING = DEFAULT_PROMOTION_POLICY"
    "base_policy ?c ENV_PROD = DEFAULT_PROMOTION_POLICY\<lparr>taskSuccessMin := 99 / 100\<rparr>"
    by (simp_all add: base_policy_def resolveBaseEnvironmentPolicy_def authored_config_def sample_policy_input_def
        or_empty_def as_source_def js_prop_def merge_empty merge_strict)
  then show ?thesis
    by (simp add: assertMonotonicLadder_def WRITE_TIME_LADDER_def monotonic_iff at_least_as_strict_def
        DEFAULT_PROMOTION_POLICY_def)
qed

lemma sample_set:
  "\<exists>c w'. setPromotionPolicy rb_services ''org'' sample_policy_input sample_admin rb_world = (Inr c, w') \<and>
     pc_perAgentPolicyOverrides c = JObj []"
proof -
  have "requireAdmin sample_admin a = Inr ()" for a
    by (simp add: requireAdmin_def sample_admin_def)
  then show ?thesis
    using rb_faultless(1)
    by (simp add: setPromotionPolicy_def now_iso_def now_ms_def cmd_defs sample_ladder service_def put_policy_def Let_def)
      (simp add: authored_config_def sample_policy_input_def or_empty_def)
qed

theorem policy_update_disables_rollback_witness:
  "breach_found rb_services 5 rb_world rb_pointer rb_found \<and>
   \<not> breach_found rb_services 5 (snd (setPromotionPolicy rb_services ''org'' sample_policy_input sample_admin rb_world))
       rb_pointer rb_found"
proof -
  obtain c w' where set: "setPromotionPolicy rb_services ''org'' sample_policy_input sample_admin rb_world = (Inr c, w')"
    using sample_set by blast
  from policy_update_disables_rollback [OF set, of "''agent''" "Some ENV_DEV" rb_pointer rb_services 5 rb_found] rb_breach
  show ?thesis
    by (simp add: set)
qed

theorem stored_ladder_passes_gate_witness:
  "\<exists>w' policy failure. (\<exists>c. setPromotionPolicy rb_services ''org'' sample_policy_input sample_admin rb_world = (Inr c, w')) \<and>
     fst (read_policy rb_services ''org'' ''agent'' ENV_PROD w') = Inr (Some policy) \<and> taskSuccessMin policy = 99 / 100 \<and>
     fst (monotonicity_failure rb_services ''org'' ''agent'' ENV_PROD policy
       (snd (read_policy rb_services ''org'' ''agent'' ENV_PROD w'))) = Inr failure \<and>
     (failure = None \<or> failure = Some MONOTONICITY_PREDECESSOR_UNREADABLE)"
proof -
  obtain c w' where set: "setPromotionPolicy rb_services ''org'' sample_policy_input sample_admin rb_world = (Inr c, w')"
    and agents: "pc_perAgentPolicyOverrides c = JObj []"
    using sample_set by blast
  have free: "override_at (pc_perAgentPolicyOverrides c) ''agent'' = None"
    by (simp add: agents override_at_def js_prop_def)
  from setPromotionPolicy_outcome [OF set] obtain ts where
    c: "c = authored_config ''org'' sample_policy_input ts ''root''" and
    row: "tbl_get (w_policies w') ''org'' = Some (policy_item c)"
    by (auto simp: policy_written_def sample_admin_def)
  have "isReadableRow (policy_item c)"
    by (simp add: c authored_config_def sample_policy_input_def or_empty_def policy_item_def isReadableRow_def
        orgId_readable_def container_readable_def overrides_readable_def hasWrongTypeField_def has_wrong_type_def
        POLICY_FIELDS_def js_prop_def)
  then have pol: "resolvePromotionPolicy (Inr (Some (policy_item c)) :: exn + jsval option) ''agent''
      (Some ENV_PROD) = Some (base_policy c ENV_PROD)"
    using resolve_stored [OF _ free, of ENV_PROD] by (simp add: resolvePromotionPolicy_def)
  have strict: "base_policy c ENV_PROD = DEFAULT_PROMOTION_POLICY\<lparr>taskSuccessMin := 99 / 100\<rparr>"
    by (simp add: c base_policy_def resolveBaseEnvironmentPolicy_def authored_config_def sample_policy_input_def
        or_empty_def as_source_def js_prop_def merge_strict)
  let ?policy = "base_policy c ENV_PROD"
  have read: "read_policy rb_services ''org'' ''agent'' ENV_PROD w' = (Inr (Some ?policy), tick w')"
    using rb_faultless(1) row pol by (simp add: read_policy_def tryE_def fetch_def service_def cmd_defs)
  obtain f u where mon: "monotonicity_failure rb_services ''org'' ''agent'' ENV_PROD ?policy (tick w') = (Inr f, u)"
    using monotonicity_total by blast
  from stored_ladder_passes_gate [OF set free refl read mon] set read mon strict show ?thesis
    by (intro exI [of _ w'] exI [of _ ?policy] exI [of _ f]) auto
qed

definition policy_event :: "policy_request gql_event" where
  "policy_event =
     \<lparr>ge_identity = JObj [(''sub'', JStr ''root''), (''custom:organization'', JStr ''org''),
        (''cognito:groups'', JArr [JStr ''admin''])],
      ge_fieldName = ''setPromotionPolicy'', ge_arguments = Set_policy ''org'' sample_policy_input\<rparr>"


text \<open>A value of the wrong type is accepted, and makes the whole row unreadable: every promotion of the
  organisation then fails closed.\<close>

definition wrong_typed_input :: policy_input where
  "wrong_typed_input =
     \<lparr>pin_policy = JObj [(''taskSuccessMin'', JStr ''0.99'')], pin_perAgentPolicyOverrides = JUndef,
      pin_perEnvironmentPolicyOverrides = JUndef\<rparr>"

lemma wrong_type_accepted:
  "assertMonotonicLadder (authored_config org wrong_typed_input ts u) = Inr () \<and>
   resolvePromotionPolicy (Inr (Some (policy_item (authored_config org wrong_typed_input ts u))) :: exn + jsval option)
     agent env = None"
proof -
  let ?c = "authored_config org wrong_typed_input ts u"
  have "\<not> isSaneRate (JStr ''0.99'')"
    by (simp add: isSaneRate_iff)
  then have "mergePolicyFields [Some [(''taskSuccessMin'', JStr ''0.99'')], None] = DEFAULT_PROMOTION_POLICY"
    by (simp add: mergePolicyFields_def merge_layers_def merge_source_def js_prop_def POLICY_FIELDS_def)
  then have "base_policy ?c e = DEFAULT_PROMOTION_POLICY" for e
    by (simp add: base_policy_def resolveBaseEnvironmentPolicy_def authored_config_def wrong_typed_input_def
        or_empty_def as_source_def js_prop_def)
  then have "assertMonotonicLadder ?c = Inr ()"
    by (simp add: assertMonotonicLadder_def check_rungs_ladder monotonic_iff)
  moreover have "\<not> isReadableRow (policy_item ?c)"
    by (simp add: authored_config_def wrong_typed_input_def or_empty_def policy_item_def isReadableRow_def
        container_readable_def hasWrongTypeField_def has_wrong_type_def POLICY_FIELDS_def js_prop_def)
  ultimately show ?thesis
    by (simp add: resolvePromotionPolicy_def)
qed

end
