(* ===== verification/Threads.thy ===== *)
theory Threads
  imports Commands "HOL-Library.Multiset"
begin

text \<open>
  Handlers that run at the same time. A thread is a result, or one call of the platform and the
  thread that continues with the answer: the call changes the shared state in one step, and other
  threads may run between two calls. A call also takes what the platform decides (whether it
  fails, the time, fresh identifiers). A pool interleaves the calls of its threads; a thread that
  is never scheduled again has crashed. The proof rule gives every thread a token, which stands
  for the effects it still owes, and an invariant of the state and all tokens.
\<close>

section \<open>Threads\<close>

datatype ('s, 'f, 'a) prog =
    Ret 'a
  | Act "'f \<Rightarrow> 's \<Rightarrow> 's" "'f \<Rightarrow> 's \<Rightarrow> ('s, 'f, 'a) prog"

primrec bindP :: "('s, 'f, 'a) prog \<Rightarrow> ('a \<Rightarrow> ('s, 'f, 'b) prog) \<Rightarrow> ('s, 'f, 'b) prog" where
  "bindP (Ret a) g = g a"
| "bindP (Act u k) g = Act u (\<lambda>f s. bindP (k f s) g)"

text \<open>Threads that may throw.\<close>

type_synonym ('s, 'f, 'e, 'a) thread = "('s, 'f, 'e + 'a) prog"

definition retT :: "'a \<Rightarrow> ('s, 'f, 'e, 'a) thread" where
  "retT a = Ret (Inr a)"

definition throwT :: "'e \<Rightarrow> ('s, 'f, 'e, 'a) thread" where
  "throwT e = Ret (Inl e)"

definition bindT :: "('s, 'f, 'e, 'a) thread \<Rightarrow> ('a \<Rightarrow> ('s, 'f, 'e, 'b) thread) \<Rightarrow> ('s, 'f, 'e, 'b) thread" where
  "bindT p g = bindP p (\<lambda>r. case r of Inl e \<Rightarrow> Ret (Inl e) | Inr a \<Rightarrow> g a)"

definition catchT :: "('s, 'f, 'e, 'a) thread \<Rightarrow> ('e \<Rightarrow> ('s, 'f, 'e, 'a) thread) \<Rightarrow> ('s, 'f, 'e, 'a) thread" where
  "catchT p h = bindP p (\<lambda>r. case r of Inl e \<Rightarrow> h e | Inr a \<Rightarrow> Ret (Inr a))"

text \<open>\<open>throw\<close> unless the condition holds.\<close>

definition guardT :: "bool \<Rightarrow> 'e \<Rightarrow> ('s, 'f, 'e, unit) thread" where
  "guardT b e = (if b then retT () else throwT e)"

definition liftT :: "'e + 'a \<Rightarrow> ('s, 'f, 'e, 'a) thread" where
  "liftT r = Ret r"

fun forT :: "'a list \<Rightarrow> ('a \<Rightarrow> ('s, 'f, 'e, unit) thread) \<Rightarrow> ('s, 'f, 'e, unit) thread" where
  "forT [] g = retT ()"
| "forT (x # xs) g = bindT (g x) (\<lambda>_. forT xs g)"

text \<open>\<open>Promise.all\<close>: every member runs; the first failure is the outcome.\<close>

fun allT :: "'a list \<Rightarrow> ('a \<Rightarrow> ('s, 'f, 'e, unit) thread) \<Rightarrow> ('s, 'f, 'e, unit) thread" where
  "allT [] g = retT ()"
| "allT (x # xs) g = bindP (g x) (\<lambda>r. bindP (allT xs g) (\<lambda>rest. Ret (case r of Inl e \<Rightarrow> Inl e | Inr _ \<Rightarrow> rest)))"

section \<open>Interleaving\<close>

type_synonym ('s, 'f, 'a) pool = "('s, 'f, 'a) prog list \<times> 's"

inductive interleave ::
  "('f \<Rightarrow> bool) \<Rightarrow> ('s \<Rightarrow> ('s, 'f, 'a) prog \<Rightarrow> bool) \<Rightarrow> ('s \<Rightarrow> 's \<Rightarrow> bool) \<Rightarrow> ('s, 'f, 'a) pool \<Rightarrow> ('s, 'f, 'a) pool \<Rightarrow> bool"
  for allowed launch env where
  call: "i < length ps \<Longrightarrow> ps ! i = Act u k \<Longrightarrow> allowed f \<Longrightarrow>
    interleave allowed launch env (ps, s) (ps[i := k f s], u f s)"
| start: "launch s p \<Longrightarrow> interleave allowed launch env (ps, s) (ps @ [p], s)"
| other: "env s t \<Longrightarrow> interleave allowed launch env (ps, s) (ps, t)"

abbreviation runs_to where
  "runs_to allowed launch env \<equiv> (interleave allowed launch env)\<^sup>*\<^sup>*"

text \<open>A thread that runs alone, on the decisions of the platform in order.\<close>

primrec alone :: "('s, 'f, 'a) prog \<Rightarrow> (nat \<Rightarrow> 'f) \<Rightarrow> 's \<Rightarrow> 'a \<times> 's" where
  "alone (Ret a) = (\<lambda>fs s. (a, s))"
| "alone (Act u k) = (\<lambda>fs s. alone (k (fs 0) s) (\<lambda>n. fs (Suc n)) (u (fs 0) s))"

section \<open>Laws\<close>

lemma bindP_assoc: "bindP (bindP p g) h = bindP p (\<lambda>a. bindP (g a) h)"
  by (induction p) (auto simp: fun_eq_iff)

lemma bindT_assoc: "bindT (bindT p g) h = bindT p (\<lambda>a. bindT (g a) h)"
  unfolding bindT_def bindP_assoc by (rule arg_cong [where f = "bindP p"]) (auto simp: fun_eq_iff split: sum.split)

lemma bindT_ret [simp]: "bindT (retT a) h = h a" and bindT_throw [simp]: "bindT (throwT e) h = throwT e"
  by (simp_all add: bindT_def retT_def throwT_def)

lemma catchT_ret [simp]: "catchT (retT a) h = retT a" and catchT_throw [simp]: "catchT (throwT e) h = h e"
  by (simp_all add: catchT_def retT_def throwT_def)

text \<open>A thread scheduled without interruption.\<close>

lemma alone_runs:
  assumes "alone p fs s = (a, t)" and "\<And>n. allowed (fs n)"
  shows "runs_to allowed launch env (ps @ [p], s) (ps @ [Ret a], t)"
  using assms
proof (induction p arbitrary: fs s)
  case (Act u k)
  have "interleave allowed launch env (ps @ [Act u k], s) ((ps @ [Act u k])[length ps := k (fs 0) s], u (fs 0) s)"
    by (rule interleave.call) (simp_all add: Act.prems)
  moreover have "runs_to allowed launch env (ps @ [k (fs 0) s], u (fs 0) s) (ps @ [Ret a], t)"
    by (rule Act.IH [of "k (fs 0)" _ "\<lambda>n. fs (Suc n)"]) (use Act.prems in auto)
  ultimately show ?case
    by (simp add: converse_rtranclp_into_rtranclp)
qed simp

lemma launch_alone:
  assumes "launch s p" and "alone p fs s = (a, t)" and "\<And>n. allowed (fs n)"
  shows "runs_to allowed launch env (ps, s) (ps @ [Ret a], t)"
  using interleave.start [where allowed = allowed and env = env and ps = ps, of launch s p]
    alone_runs [of p fs s a t allowed launch env ps] assms
  by (simp add: converse_rtranclp_into_rtranclp)

section \<open>Tokens\<close>

text \<open>
  \<open>safe A I R Q p g s\<close>, for a platform whose decisions satisfy \<open>A\<close>: the thread \<open>p\<close>, holding the token \<open>g\<close> in a state reached from \<open>s\<close> by
  growth, keeps the invariant with every call, exchanging its token, and ends in \<open>Q\<close>.
\<close>

primrec safe ::
  "('f \<Rightarrow> bool) \<Rightarrow> ('g multiset \<Rightarrow> 's \<Rightarrow> bool) \<Rightarrow> ('s \<Rightarrow> 's \<Rightarrow> bool) \<Rightarrow> ('g \<Rightarrow> 'a \<Rightarrow> 's \<Rightarrow> bool) \<Rightarrow>
   ('s, 'f, 'a) prog \<Rightarrow> 'g \<Rightarrow> 's \<Rightarrow> bool" where
  "safe A I R Q (Ret a) = (\<lambda>g s. \<forall>t. R s t \<longrightarrow> Q g a t)"
| "safe A I R Q (Act u k) = (\<lambda>g s. \<forall>t f M. A f \<longrightarrow> R s t \<longrightarrow> I (add_mset g M) t \<longrightarrow>
     (\<exists>g'. I (add_mset g' M) (u f t) \<and> R t (u f t) \<and> safe A I R Q (k f t) g' (u f t)))"


locale concurrent =
  fixes A :: "'f \<Rightarrow> bool" and I :: "'g multiset \<Rightarrow> 's \<Rightarrow> bool" and R :: "'s \<Rightarrow> 's \<Rightarrow> bool"
  assumes R_refl: "R s s" and R_trans: "R s t \<Longrightarrow> R t u \<Longrightarrow> R s u"
begin

lemma grows: "safe A I R Q p g s \<Longrightarrow> R s t \<Longrightarrow> safe A I R Q p g t"
proof (cases p)
  case (Act u k)
  assume "safe A I R Q p g s" and "R s t"
  with Act show ?thesis
    by simp (meson R_trans)
qed (auto intro: R_trans)

lemma mono:
  "safe A I R Q p g s \<Longrightarrow> (\<And>g a t. R s t \<Longrightarrow> Q g a t \<Longrightarrow> Q' g a t) \<Longrightarrow> safe A I R Q' p g s"
proof (induction p arbitrary: g s)
  case (Act u k)
  have "safe A I R Q' (k f t) g' (u f t)" if "safe A I R Q (k f t) g' (u f t)" "R s t" "R t (u f t)" for f t g'
    using Act.IH [of "k f" "k f t"] that Act.prems(2) by (meson R_trans rangeI)
  with Act.prems(1) show ?case
    by (simp) (metis)
qed auto

lemma bindP: "safe A I R (\<lambda>g a s. safe A I R Q (h a) g s) p g s \<Longrightarrow> safe A I R Q (bindP p h) g s"
proof (induction p arbitrary: g s)
  case (Act u k)
  then show ?case
    by (simp) (metis rangeI)
qed (auto simp: R_refl)

lemma bindT:
  "safe A I R (\<lambda>g r s. safe A I R Q (case r of Inl e \<Rightarrow> Ret (Inl e) | Inr a \<Rightarrow> h a) g s) p g s \<Longrightarrow>
    safe A I R Q (bindT p h) g s"
  unfolding bindT_def by (rule bindP)

lemma catchT:
  "safe A I R (\<lambda>g r s. safe A I R Q (case r of Inl e \<Rightarrow> h e | Inr a \<Rightarrow> Ret (Inr a)) g s) p g s \<Longrightarrow>
    safe A I R Q (catchT p h) g s"
  unfolding catchT_def by (rule bindP)

text \<open>A pool whose threads hold tokens that the invariant accounts for.\<close>

definition annotated where
  "annotated Q ps gs s \<longleftrightarrow>
     length gs = length ps \<and> I (mset gs) s \<and> (\<forall>i < length ps. safe A I R Q (ps ! i) (gs ! i) s)"

lemma annotated_step:
  assumes "\<And>s p M. launch s p \<Longrightarrow> I M s \<Longrightarrow> \<exists>g. I (add_mset g M) s \<and> safe A I R Q p g s"
    and "\<And>s t M. env s t \<Longrightarrow> I M s \<Longrightarrow> I M t \<and> R s t"
    and "annotated Q ps gs s" and "interleave A launch env (ps, s) (qs, t)"
  shows "\<exists>hs. annotated Q qs hs t \<and> R s t \<and> length ps \<le> length qs \<and>
    (\<forall>i < length ps. \<forall>a. ps ! i = Ret a \<longrightarrow> qs ! i = Ret a \<and> hs ! i = gs ! i)"
  using assms(4)
proof cases
  case (call i u k f)
  have i: "i < length gs" and safe_i: "safe A I R Q (Act u k) (gs ! i) s" and inv: "I (mset gs) s"
    using assms(3) call by (auto simp: annotated_def)
  define M where "M = mset gs - {#gs ! i#}"
  have M: "mset gs = add_mset (gs ! i) M"
    using i by (simp add: M_def)
  obtain g' where g': "I (add_mset g' M) t" "R s t" "safe A I R Q (k f s) g' t"
    using safe_i inv M call R_refl by auto metis
  have "mset (gs[i := g']) = add_mset g' M"
    using i by (simp add: mset_update M_def)
  then have "annotated Q qs (gs[i := g']) t"
    using assms(3) g' call i by (auto simp: annotated_def nth_list_update intro: grows)
  with g' call show ?thesis
    by (intro exI [of _ "gs[i := g']"]) (auto simp: nth_list_update)
next
  case (start p)
  then obtain g where "I (add_mset g (mset gs)) s" "safe A I R Q p g s"
    using assms(1) [of s p "mset gs"] assms(3) by (auto simp: annotated_def)
  then show ?thesis
    using assms(3) start by (intro exI [of _ "gs @ [g]"]) (auto simp: annotated_def nth_append R_refl less_Suc_eq)
next
  case other
  with assms(2) [of s t "mset gs"] assms(3) show ?thesis
    by (intro exI [of _ gs]) (auto simp: annotated_def intro: grows)
qed

lemma annotated_runs:
  assumes "\<And>s p M. launch s p \<Longrightarrow> I M s \<Longrightarrow> \<exists>g. I (add_mset g M) s \<and> safe A I R Q p g s"
    and "\<And>s t M. env s t \<Longrightarrow> I M s \<Longrightarrow> I M t \<and> R s t"
    and "runs_to A launch env (ps, s) (qs, t)" and "annotated Q ps gs s"
  shows "\<exists>hs. annotated Q qs hs t \<and> R s t \<and> length ps \<le> length qs \<and>
    (\<forall>i < length ps. \<forall>a. ps ! i = Ret a \<longrightarrow> qs ! i = Ret a \<and> hs ! i = gs ! i)"
  using assms(3)
proof (induction rule: rtranclp_induct2)
  case refl
  with assms(4) show ?case
    using R_refl by blast
next
  case (step qs t rs u)
  then obtain hs where hs: "annotated Q qs hs t" "R s t" "length ps \<le> length qs"
    "\<forall>i < length ps. \<forall>a. ps ! i = Ret a \<longrightarrow> qs ! i = Ret a \<and> hs ! i = gs ! i"
    by blast
  from annotated_step [OF assms(1,2) hs(1) step.hyps(2)] obtain js where
    js: "annotated Q rs js u" "R t u" "length qs \<le> length rs"
      "\<forall>i < length qs. \<forall>a. qs ! i = Ret a \<longrightarrow> rs ! i = Ret a \<and> js ! i = hs ! i"
    by blast
  have "\<forall>i < length ps. \<forall>a. ps ! i = Ret a \<longrightarrow> rs ! i = Ret a \<and> js ! i = gs ! i"
    using hs(3,4) js(4) by (metis order_less_le_trans)
  with js hs R_trans show ?case
    by (meson order_trans)
qed

end

end
