(* ===== verification/Platform.thy ===== *)
theory Platform
  imports World Threads
begin

text \<open>
  The calls of a handler that runs beside others: reads and writes of the tables, each one step,
  the clock, fresh identifiers (utils/run-id.ts) and services outside the tables. The state of the
  tables is a parameter; the components that use threads instantiate it.
\<close>

text \<open>
  What the platform decides about one call: a fault with the error the client sees and whether
  the request took effect, the time in milliseconds, a fresh identifier, the text a service outside
  the tables answers, if it does.
\<close>

record reply =
  rp_fault :: "(bool \<times> raw_error) option"
  rp_ms :: rat
  rp_uuid :: string
  rp_text :: "string option"

type_synonym ('s, 'a) service = "('s, reply, exn, 'a) thread"

definition callT :: "('s \<Rightarrow> (raw_error + 'a) \<times> 's) \<Rightarrow> ('s, 'a) service" where
  "callT m = Act
     (\<lambda>f s. case rp_fault f of
         None \<Rightarrow> snd (m s)
       | Some (applied, e) \<Rightarrow> if applied then snd (m s) else s)
     (\<lambda>f s. case rp_fault f of
         None \<Rightarrow> (case fst (m s) of Inl e \<Rightarrow> throwT (Sdk e) | Inr a \<Rightarrow> retT a)
       | Some (applied, e) \<Rightarrow> throwT (Sdk e))"

definition readT :: "('s \<Rightarrow> 'a) \<Rightarrow> ('s, 'a) service" where
  "readT g = callT (\<lambda>s. (Inr (g s), s))"

definition updateT :: "('s \<Rightarrow> 's) \<Rightarrow> ('s, unit) service" where
  "updateT g = callT (\<lambda>s. (Inr (), g s))"

text \<open>\<open>Date.now()\<close>, a random identifier, and the answer of a service outside the tables.\<close>

definition clockT :: "('s, rat) service" where
  "clockT = Act (\<lambda>f s. s) (\<lambda>f s. retT (rp_ms f))"

definition uuidT :: "('s, string) service" where
  "uuidT = Act (\<lambda>f s. s) (\<lambda>f s. retT (rp_uuid f))"

definition externalT :: "('s, string) service" where
  "externalT = Act (\<lambda>f s. s) (\<lambda>f s. case rp_text f of
     Some answer \<Rightarrow> retT answer | None \<Rightarrow> throwT (PlainError ''external service''))"

definition mintRunId :: "('s, string) service" where
  "mintRunId = bindT uuidT (\<lambda>u. retT (''run-'' @ u))"

text \<open>\<open>try \<dots> catch\<close> whose handler returns from the function: \<open>None\<close> is the error caught.\<close>

definition unless_exists :: "('s, 'a) service \<Rightarrow> ('s, 'a option) service" where
  "unless_exists p = catchT (bindT p (\<lambda>a. retT (Some a)))
     (\<lambda>err. if err = Sdk ConditionalCheckFailedException then retT None else throwT err)"

text \<open>A call and what follows it are one action.\<close>

lemma callT_bind:
  "bindT (callT m) h = Act
     (\<lambda>f s. case rp_fault f of None \<Rightarrow> snd (m s) | Some (applied, e) \<Rightarrow> if applied then snd (m s) else s)
     (\<lambda>f s. case rp_fault f of
         None \<Rightarrow> (case fst (m s) of Inl e \<Rightarrow> throwT (Sdk e) | Inr a \<Rightarrow> h a)
       | Some (applied, e) \<Rightarrow> throwT (Sdk e))"
  by (auto simp: bindT_def callT_def throwT_def retT_def fun_eq_iff split: option.split sum.split)

lemma unless_bind:
  "bindT (unless_exists (callT m)) h = Act
     (\<lambda>f s. case rp_fault f of None \<Rightarrow> snd (m s) | Some (applied, e) \<Rightarrow> if applied then snd (m s) else s)
     (\<lambda>f s. case (case rp_fault f of None \<Rightarrow> fst (m s) | Some (applied, e) \<Rightarrow> Inl e) of
         Inl e \<Rightarrow> if e = ConditionalCheckFailedException then h None else throwT (Sdk e)
       | Inr a \<Rightarrow> h (Some a))"
  by (auto simp: unless_exists_def catchT_def bindT_def callT_def throwT_def retT_def fun_eq_iff
      split: option.split sum.split)

section \<open>A thread alone\<close>

lemma alone_bindT:
  "alone (bindT p h) fs s = (b, u) \<Longrightarrow>
     (\<exists>e. b = Inl e \<and> alone p fs s = (Inl e, u)) \<or>
     (\<exists>a gs t. alone p fs s = (Inr a, t) \<and> alone (h a) gs t = (b, u))"
proof (induction p arbitrary: fs s)
  case (Ret r)
  then show ?case
    by (cases r) (auto simp: bindT_def)
next
  case (Act v k)
  have "alone (bindT (k (fs 0) s) h) (\<lambda>n. fs (Suc n)) (v (fs 0) s) = (b, u)"
    using Act.prems by (simp add: bindT_def)
  from Act.IH [of "k (fs 0)" "k (fs 0) s", OF _ _ this] show ?case
    by simp
qed

lemma alone_bindT_Inr:
  assumes "alone (bindT p h) fs s = (Inr b, u)"
  obtains a gs t where "alone p fs s = (Inr a, t)" and "alone (h a) gs t = (Inr b, u)"
  using alone_bindT [OF assms] that by blast

lemma alone_catchT:
  "alone (catchT p h) fs s = (b, u) \<Longrightarrow>
     (\<exists>a. b = Inr a \<and> alone p fs s = (Inr a, u)) \<or>
     (\<exists>e gs t. alone p fs s = (Inl e, t) \<and> alone (h e) gs t = (b, u))"
proof (induction p arbitrary: fs s)
  case (Ret r)
  then show ?case
    by (cases r) (auto simp: catchT_def)
next
  case (Act v k)
  have "alone (catchT (k (fs 0) s) h) (\<lambda>n. fs (Suc n)) (v (fs 0) s) = (b, u)"
    using Act.prems by (simp add: catchT_def)
  from Act.IH [of "k (fs 0)" "k (fs 0) s", OF _ _ this] show ?case
    by simp
qed

text \<open>Threads whose calls write nothing.\<close>

primrec reads_only :: "('s, 'f, 'a) prog \<Rightarrow> bool" where
  "reads_only (Ret a) \<longleftrightarrow> True"
| "reads_only (Act u k) \<longleftrightarrow> (\<forall>f s. u f s = s \<and> reads_only (k f s))"

lemma reads_onlyD: "reads_only p \<Longrightarrow> alone p fs s = (r, t) \<Longrightarrow> t = s"
  by (induction p arbitrary: fs s) (auto, metis rangeI)

named_theorems reads_intros \<open>threads that write nothing\<close>

lemma reads_ret [reads_intros]: "reads_only (retT a)" and reads_throw [reads_intros]: "reads_only (throwT e)"
  by (simp_all add: retT_def throwT_def)

lemma reads_lift [reads_intros]: "reads_only (liftT r)" and reads_guard [reads_intros]: "reads_only (guardT b e)"
  by (simp_all add: retT_def throwT_def liftT_def guardT_def)

lemma reads_readT [reads_intros]: "reads_only (readT f)"
  by (auto simp: readT_def callT_def retT_def throwT_def split: option.split)

lemma reads_clock [reads_intros]: "reads_only clockT" and reads_external [reads_intros]: "reads_only externalT"
  by (auto simp: clockT_def externalT_def retT_def throwT_def split: option.split)

lemma reads_bindP: "reads_only p \<Longrightarrow> (\<And>a. reads_only (h a)) \<Longrightarrow> reads_only (bindP p h)"
  by (induction p) auto

lemma reads_bindT [reads_intros]: "reads_only p \<Longrightarrow> (\<And>a. reads_only (h a)) \<Longrightarrow> reads_only (bindT p h)"
  unfolding bindT_def by (rule reads_bindP) (auto split: sum.split)

lemma reads_catchT [reads_intros]: "reads_only p \<Longrightarrow> (\<And>e. reads_only (h e)) \<Longrightarrow> reads_only (catchT p h)"
  unfolding catchT_def by (rule reads_bindP) (auto split: sum.split)

lemma reads_if [reads_intros]: "reads_only p \<Longrightarrow> reads_only q \<Longrightarrow> reads_only (if b then p else q)"
  by simp

lemma reads_option [reads_intros]: "reads_only p \<Longrightarrow> (\<And>y. reads_only (q y)) \<Longrightarrow> reads_only (case x of None \<Rightarrow> p | Some y \<Rightarrow> q y)"
  by (cases x) simp_all

lemma alone_readT: "alone (readT f) fs s = (Inr a, t) \<Longrightarrow> a = f s \<and> t = s"
  by (auto simp: readT_def callT_def retT_def throwT_def split: option.splits)

lemma alone_guardT: "alone (guardT b e) fs s = (Inr a, t) \<Longrightarrow> b \<and> t = s"
  by (auto simp: guardT_def retT_def throwT_def split: if_splits)

lemma alone_liftT: "alone (liftT r) fs s = (Inr a, t) \<Longrightarrow> r = Inr a \<and> t = s"
  by (auto simp: liftT_def)

lemma alone_retT: "alone (retT x) fs s = (Inr a, t) \<Longrightarrow> x = a \<and> t = s"
  by (auto simp: retT_def)

lemma alone_catchT_None:
  assumes "alone (catchT p (\<lambda>err. retT None)) fs s = (Inr (Some a), t)"
  shows "alone p fs s = (Inr (Some a), t)"
  using alone_catchT [OF assms] by (auto dest!: alone_retT)

lemma alone_throwT: "\<not> alone (throwT e) fs s = (Inr a, t)"
  by (auto simp: throwT_def)

lemma alone_clockT: "alone clockT fs s = (Inr a, t) \<Longrightarrow> t = s"
  by (auto simp: clockT_def retT_def)

lemmas alone_dests = alone_readT alone_guardT alone_liftT alone_retT alone_clockT

lemma alone_callT_unless:
  assumes "alone (unless_exists (callT m)) fs s = (Inr a, t)"
  shows "(\<exists>x. a = Some x \<and> fst (m s) = Inr x \<and> t = snd (m s)) \<or> (a = None \<and> (t = s \<or> t = snd (m s)))"
  using assms
  by (auto simp: unless_exists_def catchT_def bindT_def callT_def throwT_def retT_def
      split: option.splits sum.splits if_splits)

lemma alone_bindT_reads:
  assumes "alone (bindT p h) fs s = (Inr b, u)" and "reads_only p"
  obtains a gs where "alone p fs s = (Inr a, s)" and "alone (h a) gs s = (Inr b, u)"
  using assms by (elim alone_bindT_Inr) (metis reads_onlyD)

end
