(* ===== verification/EvalRuns.thy ===== *)
theory EvalRuns
  imports Auth Platform
begin

text \<open>
  The execution of an evaluation run: the resolver that starts it (lambda/eval-run-resolver.ts),
  the driver that dispatches its cases, receives completions and sweeps timeouts
  (lambda/eval-runner.ts), the worker of conversation cases (lambda/eval-conversation-worker.ts)
  and the completion counter all of them share (lambda/eval-run-completion.ts). Each handler is a
  thread over the tables; each call of DynamoDB is one step. Log lines are not modelled.
\<close>

section \<open>Rows\<close>

datatype eval_case_kind = CONVERSATION | EXECUTION

datatype eval_run_status = RUN_PENDING | RUN_RUNNING | RUN_COMPLETED | RUN_FAILED | RUN_CANCELLED

datatype eval_case_status =
  CASE_PENDING | CASE_DISPATCHED | CASE_RUNNING | CASE_COMPLETED | CASE_FAILED | CASE_TIMEOUT

text \<open>An update of a missing row creates it, so every attribute of a row may be missing.\<close>

record run_row =
  rr_orgId :: "string option"
  rr_suiteId :: "string option"
  rr_suiteVersion :: "nat option"
  rr_agentTargetId :: "string option"
  rr_agentTargetVersion :: "string option"
  rr_status :: "eval_run_status option"
  rr_caseCount :: "nat option"
  rr_pendingCases :: "int option"
  rr_startedAt :: "string option"
  rr_startedBy :: "string option"
  rr_completedAt :: "string option"
  rr_durationMs :: "rat option"
  rr_idempotencyKey :: "string option"
  rr_scoreAggregates :: "dimension_aggregate json_text option"

record result_row =
  res_orgId :: "string option"
  res_caseKind :: "eval_case_kind option"
  res_status :: "eval_case_status option"
  res_executionId :: "string option"
  res_conversationId :: "string option"
  res_runId :: "string option"
  res_dispatchedAt :: "string option"
  res_startedAt :: "string option"
  res_completedAt :: "string option"
  res_deadlineAt :: "string option"
  res_latencyMs :: "rat option"
  res_artifact :: "(string \<times> eval_case_kind) option"
  res_error :: "exn option"
  res_timedOut :: bool
  res_completionRecorded :: bool
  res_scoreVector :: "dimension_score json_text option"
  res_scorerVersion :: "string option"

definition no_run :: run_row where
  "no_run = \<lparr>rr_orgId = None, rr_suiteId = None, rr_suiteVersion = None, rr_agentTargetId = None,
     rr_agentTargetVersion = None, rr_status = None, rr_caseCount = None, rr_pendingCases = None,
     rr_startedAt = None, rr_startedBy = None, rr_completedAt = None, rr_durationMs = None,
     rr_idempotencyKey = None, rr_scoreAggregates = None\<rparr>"

definition no_result :: result_row where
  "no_result = \<lparr>res_orgId = None, res_caseKind = None, res_status = None, res_executionId = None,
     res_conversationId = None, res_runId = None, res_dispatchedAt = None, res_startedAt = None,
     res_completedAt = None, res_deadlineAt = None, res_latencyMs = None, res_artifact = None,
     res_error = None, res_timedOut = False, res_completionRecorded = False, res_scoreVector = None,
     res_scorerVersion = None\<rparr>"

record suite_case_row =
  ecr_kind :: eval_case_kind
  ecr_forbiddenTools :: "string list option"
  ecr_prompt :: "string option"

record execution_row =
  exr_workflowId :: string
  exr_orgId :: string
  exr_runId :: string
  exr_evalRunId :: "string option"
  exr_forbiddenTools :: "string list"

record case_dispatch =
  cd_runId :: string
  cd_evalRunId :: string
  cd_caseId :: string
  cd_orgId :: string
  cd_agentTargetId :: string
  cd_prompt :: string
  cd_forbiddenTools :: "string list"
  cd_maxLatencyMs :: rat

record run_counts =
  cc_total :: nat
  cc_completed :: nat
  cc_failed :: nat
  cc_timeout :: nat

datatype eval_event =
    Eval_run_started string
  | Eval_case_completed string string "string option" "eval_case_kind option" "string option"
  | Eval_run_completed string "string option" "string option" run_counts string rat
  | Execution_start_requested string string

record conversation_row =
  cvr_id :: string
  cvr_agentId :: string
  cvr_message :: string
  cvr_runId :: string
  cvr_evalRunId :: string

record eval_db =
  ed_suites :: "(string, eval_suite) table"
  ed_cases :: "(string \<times> string, suite_case_row) table"
  ed_agents :: "(string, string option) table"
  ed_runs :: "(string, run_row) table"
  ed_results :: "(string \<times> string, result_row) table"
  ed_executions :: "(string, execution_row) table"
  ed_conversations :: "(string \<times> string, conversation_row) table"
  ed_artifacts :: "(string, string) table"
  ed_queue :: "case_dispatch list"
  ed_events :: "eval_event list"

section \<open>The platform\<close>

record eval_env =
  ee_iso :: "rat \<Rightarrow> string"
  ee_date_parse :: "string \<Rightarrow> rat option"
  ee_uuidv5 :: "string \<Rightarrow> string"
  ee_maxLatencyMs :: "rat option"

type_synonym 'a handler = "(eval_db, reply, exn, 'a) thread"

definition nowT :: "eval_env \<Rightarrow> string handler" where
  "nowT env = bindT clockT (\<lambda>ms. retT (ee_iso env ms))"

text \<open>\<open>UpdateItem\<close> without a condition.\<close>

definition update_run :: "string \<Rightarrow> (run_row \<Rightarrow> run_row) \<Rightarrow> eval_db \<Rightarrow> eval_db" where
  "update_run evalRunId g s =
     s\<lparr>ed_runs := tbl_put evalRunId (g (case tbl_get (ed_runs s) evalRunId of Some row \<Rightarrow> row | None \<Rightarrow> no_run))
         (ed_runs s)\<rparr>"

definition update_result :: "string \<times> string \<Rightarrow> (result_row \<Rightarrow> result_row) \<Rightarrow> eval_db \<Rightarrow> eval_db" where
  "update_result k g s =
     s\<lparr>ed_results := tbl_put k (g (case tbl_get (ed_results s) k of Some row \<Rightarrow> row | None \<Rightarrow> no_result))
         (ed_results s)\<rparr>"

definition emitT :: "eval_event \<Rightarrow> unit handler" where
  "emitT e = updateT (\<lambda>s. s\<lparr>ed_events := ed_events s @ [e]\<rparr>)"

definition case_results :: "eval_db \<Rightarrow> string \<Rightarrow> ((string \<times> string) \<times> result_row) list" where
  "case_results s evalRunId = tbl_query (\<lambda>k. fst k = evalRunId) (ed_results s)"

section \<open>Completion of a case\<close>

fun is_status :: "eval_case_status \<Rightarrow> result_row \<Rightarrow> bool" where
  "is_status st row \<longleftrightarrow> res_status row = Some st"

definition computeCaseCounts :: "string \<Rightarrow> run_counts handler" where
  "computeCaseCounts evalRunId = bindT (readT (\<lambda>s. map snd (case_results s evalRunId))) (\<lambda>items.
     retT \<lparr>cc_total = length items,
       cc_completed = length (filter (is_status CASE_COMPLETED) items),
       cc_failed = length (filter (is_status CASE_FAILED) items),
       cc_timeout = length (filter (is_status CASE_TIMEOUT) items)\<rparr>)"

text \<open>
  \<open>materializeEvalCaseArtifact\<close> (lambda/utils/eval-artifact-store.ts) builds a replay package and
  puts it in the bucket; no failure escapes. The answer of the platform is empty when there is no
  bucket, else the text of the package.
\<close>

definition artifact_key :: "string \<Rightarrow> string \<Rightarrow> string" where
  "artifact_key evalRunId caseId = ''eval-runs/'' @ evalRunId @ ''/'' @ caseId @ ''.json''"

definition materializeEvalCaseArtifact :: "string \<Rightarrow> string \<Rightarrow> string option handler" where
  "materializeEvalCaseArtifact evalRunId caseId =
     catchT
       (bindT externalT (\<lambda>package.
        if package = [] then retT None
        else bindT (updateT (\<lambda>s. s\<lparr>ed_artifacts := tbl_put (artifact_key evalRunId caseId) package (ed_artifacts s)\<rparr>)) (\<lambda>_.
          retT (Some (artifact_key evalRunId caseId)))))
       (\<lambda>err. retT None)"

definition materializeArtifactIfCompleted :: "string \<Rightarrow> string \<Rightarrow> unit handler" where
  "materializeArtifactIfCompleted evalRunId caseId =
     catchT
       (bindT (readT (\<lambda>s. tbl_get (ed_results s) (evalRunId, caseId))) (\<lambda>found.
        case found of
          None \<Rightarrow> retT ()
        | Some row \<Rightarrow>
            if res_status row \<noteq> Some CASE_COMPLETED then retT ()
            else let kind = (if res_caseKind row = Some EXECUTION then EXECUTION else CONVERSATION);
                     sourceId = (if kind = EXECUTION then res_executionId row else res_conversationId row)
                 in if \<not> nonempty_str sourceId then retT ()
                    else bindT (materializeEvalCaseArtifact evalRunId caseId) (\<lambda>artifactRef.
                      case artifactRef of
                        None \<Rightarrow> retT ()
                      | Some ref \<Rightarrow>
                          updateT (update_result (evalRunId, caseId) (\<lambda>r. r\<lparr>res_artifact := Some (ref, kind)\<rparr>)))))
       (\<lambda>err. retT ())"

definition emit_case_completed :: "string \<Rightarrow> string \<Rightarrow> unit handler" where
  "emit_case_completed evalRunId caseId =
     catchT
       (bindT (readT (\<lambda>s. tbl_get (ed_results s) (evalRunId, caseId))) (\<lambda>found.
        case found of
          None \<Rightarrow> retT ()
        | Some row \<Rightarrow> emitT (Eval_case_completed evalRunId caseId (res_orgId row) (res_caseKind row)
            (map_option fst (res_artifact row)))))
       (\<lambda>err. retT ())"

text \<open>The conditional update of the case and the atomic decrement of the run.\<close>

definition record_completion :: "string \<Rightarrow> string \<Rightarrow> eval_db \<Rightarrow> (raw_error + unit) \<times> eval_db" where
  "record_completion evalRunId caseId s =
     (case tbl_get (ed_results s) (evalRunId, caseId) of
        Some row \<Rightarrow>
          if res_completionRecorded row then (Inl ConditionalCheckFailedException, s)
          else (Inr (), update_result (evalRunId, caseId) (\<lambda>r. r\<lparr>res_completionRecorded := True\<rparr>) s)
      | None \<Rightarrow> (Inr (), update_result (evalRunId, caseId) (\<lambda>r. r\<lparr>res_completionRecorded := True\<rparr>) s))"

definition decrement :: "run_row \<Rightarrow> run_row" where
  "decrement row = row\<lparr>rr_pendingCases := Some ((case rr_pendingCases row of Some n \<Rightarrow> n | None \<Rightarrow> 0) - 1)\<rparr>"

definition decrement_pending :: "string \<Rightarrow> eval_db \<Rightarrow> (raw_error + run_row) \<times> eval_db" where
  "decrement_pending evalRunId s =
     (let s' = update_run evalRunId decrement s in (Inr (the (tbl_get (ed_runs s') evalRunId)), s'))"

text \<open>The run is finalized by whoever brings the counter to zero.\<close>

definition run_duration :: "eval_env \<Rightarrow> run_row \<Rightarrow> rat handler" where
  "run_duration env run =
     bindT (if nonempty_str (rr_startedAt run)
            then retT (ee_date_parse env (the (rr_startedAt run)))
            else bindT clockT (\<lambda>ms. retT (Some ms))) (\<lambda>startedAtMs.
     bindT clockT (\<lambda>ms.
     case startedAtMs of
       None \<Rightarrow> throwT (PlainError ''NaN'')
     | Some started \<Rightarrow> retT (max 0 (ms - started))))"

definition finalize_run :: "eval_env \<Rightarrow> string \<Rightarrow> run_row \<Rightarrow> unit handler" where
  "finalize_run env evalRunId run =
     bindT (nowT env) (\<lambda>now.
     bindT (run_duration env run) (\<lambda>durationMs.
     bindT (updateT (update_run evalRunId (\<lambda>r. r\<lparr>rr_status := Some RUN_COMPLETED,
              rr_completedAt := Some now, rr_durationMs := Some durationMs\<rparr>))) (\<lambda>_.
     bindT (computeCaseCounts evalRunId) (\<lambda>caseCounts.
     catchT
       (emitT (Eval_run_completed evalRunId (rr_suiteId run) (rr_orgId run) caseCounts now durationMs))
       (\<lambda>err. retT ())))))"

definition recordCaseCompletion :: "eval_env \<Rightarrow> string \<Rightarrow> string \<Rightarrow> unit handler" where
  "recordCaseCompletion env evalRunId caseId =
     bindT (unless_exists (callT (record_completion evalRunId caseId))) (\<lambda>recorded.
     case recorded of
       None \<Rightarrow> retT ()
     | Some _ \<Rightarrow>
         bindT (materializeArtifactIfCompleted evalRunId caseId) (\<lambda>_.
         bindT (emit_case_completed evalRunId caseId) (\<lambda>_.
         bindT (callT (decrement_pending evalRunId)) (\<lambda>run.
         if (case rr_pendingCases run of Some n \<Rightarrow> n > 0 | None \<Rightarrow> False) then retT ()
         else finalize_run env evalRunId run))))"

section \<open>Dispatch\<close>

definition listPendingCases :: "string \<Rightarrow> ((string \<times> string) \<times> result_row) list handler" where
  "listPendingCases evalRunId = bindT (readT (\<lambda>s. case_results s evalRunId)) (\<lambda>items.
     retT (filter (\<lambda>i. is_status CASE_PENDING (snd i)) items))"

definition mark_dispatched ::
  "string \<Rightarrow> string \<Rightarrow> string \<Rightarrow> eval_db \<Rightarrow> (raw_error + unit) \<times> eval_db" where
  "mark_dispatched evalRunId caseId now s =
     (case tbl_get (ed_results s) (evalRunId, caseId) of
        Some row \<Rightarrow>
          if is_status CASE_PENDING row
          then (Inr (), update_result (evalRunId, caseId)
                 (\<lambda>r. r\<lparr>res_status := Some CASE_DISPATCHED, res_dispatchedAt := Some now\<rparr>) s)
          else (Inl ConditionalCheckFailedException, s)
      | None \<Rightarrow> (Inl ConditionalCheckFailedException, s))"

definition tryMarkDispatched :: "eval_env \<Rightarrow> string \<Rightarrow> string \<Rightarrow> bool handler" where
  "tryMarkDispatched env evalRunId caseId =
     bindT (nowT env) (\<lambda>now.
     bindT (unless_exists (callT (mark_dispatched evalRunId caseId now))) (\<lambda>done.
     retT (done \<noteq> None)))"

definition dispatchExecutionCase ::
  "eval_env \<Rightarrow> string \<Rightarrow> string \<Rightarrow> string \<Rightarrow> string \<Rightarrow> string list \<Rightarrow> rat \<Rightarrow> unit handler" where
  "dispatchExecutionCase env evalRunId caseId orgId agentTargetId forbidden latencyLimit =
     bindT uuidT (\<lambda>executionId.
     bindT mintRunId (\<lambda>runId.
     bindT (updateT (\<lambda>s. s\<lparr>ed_executions := tbl_put executionId
              \<lparr>exr_workflowId = agentTargetId, exr_orgId = orgId, exr_runId = runId,
               exr_evalRunId = Some evalRunId, exr_forbiddenTools = forbidden\<rparr> (ed_executions s)\<rparr>)) (\<lambda>_.
     bindT clockT (\<lambda>ms.
     bindT (updateT (update_result (evalRunId, caseId) (\<lambda>r. r\<lparr>res_executionId := Some executionId,
              res_runId := Some runId, res_deadlineAt := Some (ee_iso env (ms + latencyLimit))\<rparr>))) (\<lambda>_.
     emitT (Execution_start_requested executionId evalRunId))))))"

definition dispatch_case ::
  "eval_env \<Rightarrow> string \<Rightarrow> string \<Rightarrow> string \<Rightarrow> string \<Rightarrow> rat \<Rightarrow> string \<Rightarrow> result_row \<Rightarrow> unit handler" where
  "dispatch_case env evalRunId suiteId agentTargetId orgId latencyLimit caseId row =
     bindT (readT (\<lambda>s. tbl_get (ed_cases s) (suiteId, caseId))) (\<lambda>evalCase.
     let forbidden = (case evalCase of Some c \<Rightarrow> (case ecr_forbiddenTools c of Some ts \<Rightarrow> ts | None \<Rightarrow> []) | None \<Rightarrow> []);
         prompt = (case evalCase of Some c \<Rightarrow> (case ecr_prompt c of Some p \<Rightarrow> p | None \<Rightarrow> []) | None \<Rightarrow> [])
     in if res_caseKind row = Some CONVERSATION
        then bindT mintRunId (\<lambda>runId.
          updateT (\<lambda>s. s\<lparr>ed_queue := ed_queue s @
            [\<lparr>cd_runId = runId, cd_evalRunId = evalRunId, cd_caseId = caseId, cd_orgId = orgId,
              cd_agentTargetId = agentTargetId, cd_prompt = prompt, cd_forbiddenTools = forbidden,
              cd_maxLatencyMs = latencyLimit\<rparr>]\<rparr>))
        else dispatchExecutionCase env evalRunId caseId orgId agentTargetId forbidden latencyLimit)"

definition fanOutEvalRun ::
  "eval_env \<Rightarrow> string \<Rightarrow> string \<Rightarrow> string \<Rightarrow> string \<Rightarrow> rat \<Rightarrow> unit handler" where
  "fanOutEvalRun env evalRunId suiteId agentTargetId orgId latencyLimit =
     bindT (listPendingCases evalRunId) (\<lambda>pending.
     forT pending (\<lambda>(k, row).
       bindT (tryMarkDispatched env evalRunId (snd k)) (\<lambda>won.
       if \<not> won then retT ()
       else dispatch_case env evalRunId suiteId agentTargetId orgId latencyLimit (snd k) row)))"

section \<open>Conversation cases\<close>

definition mark_terminal ::
  "string \<times> string \<Rightarrow> eval_case_status \<Rightarrow> string \<Rightarrow> (result_row \<Rightarrow> result_row) \<Rightarrow> eval_db \<Rightarrow> eval_db" where
  "mark_terminal k st now extra =
     update_result k (\<lambda>r. extra (r\<lparr>res_status := Some st, res_completedAt := Some now\<rparr>))"

definition markCaseTerminal ::
  "eval_env \<Rightarrow> string \<Rightarrow> string \<Rightarrow> eval_case_status \<Rightarrow> (result_row \<Rightarrow> result_row) \<Rightarrow> unit handler" where
  "markCaseTerminal env evalRunId caseId st extra =
     bindT (nowT env) (\<lambda>now. updateT (mark_terminal (evalRunId, caseId) st now extra))"

text \<open>\<open>getAgentConfig\<close> (lambda/agent-message-handler.ts) reads a parameter of the platform, or its copy in
  the cache of the process; a configuration without the runtime's name is an error.\<close>

definition getAgentConfig :: "string \<Rightarrow> string handler" where
  "getAgentConfig agent = bindT externalT (\<lambda>arn.
     if arn = [] then throwT (PlainError ''agentRuntimeArn'') else retT arn)"

definition writeConversationTranscript :: "eval_env \<Rightarrow> case_dispatch \<Rightarrow> string \<Rightarrow> unit handler" where
  "writeConversationTranscript env input responseText =
     bindT (nowT env) (\<lambda>now.
     bindT mintRunId (\<lambda>runId.
     bindT uuidT (\<lambda>rowId.
     updateT (\<lambda>s. s\<lparr>ed_conversations := tbl_put (cd_caseId input, now)
       \<lparr>cvr_id = rowId, cvr_agentId = cd_agentTargetId input, cvr_message = responseText, cvr_runId = runId,
        cvr_evalRunId = cd_evalRunId input\<rparr> (ed_conversations s)\<rparr>))))"

definition dispatchConversationCase :: "eval_env \<Rightarrow> case_dispatch \<Rightarrow> unit handler" where
  "dispatchConversationCase env input =
     bindT mintRunId (\<lambda>sessionId.
     bindT (nowT env) (\<lambda>startedAt.
     bindT (catchT
       (bindT (getAgentConfig (cd_agentTargetId input)) (\<lambda>arn.
        bindT clockT (\<lambda>t0.
        bindT externalT (\<lambda>responseText.
        bindT clockT (\<lambda>t1.
        bindT (writeConversationTranscript env input responseText) (\<lambda>_.
        markCaseTerminal env (cd_evalRunId input) (cd_caseId input) CASE_COMPLETED
          (\<lambda>r. r\<lparr>res_latencyMs := Some (t1 - t0), res_startedAt := Some startedAt,
             res_conversationId := Some (cd_caseId input)\<rparr>)))))))
       (\<lambda>err. markCaseTerminal env (cd_evalRunId input) (cd_caseId input) CASE_FAILED
          (\<lambda>r. r\<lparr>res_error := Some err, res_startedAt := Some startedAt\<rparr>))) (\<lambda>_.
     recordCaseCompletion env (cd_evalRunId input) (cd_caseId input))))"

definition conversation_worker :: "eval_env \<Rightarrow> case_dispatch list \<Rightarrow> unit handler" where
  "conversation_worker env records = forT records (dispatchConversationCase env)"

section \<open>Completion of executions and timeouts\<close>

definition handleWorkflowCompletion :: "eval_env \<Rightarrow> string \<Rightarrow> eval_case_status \<Rightarrow> unit handler" where
  "handleWorkflowCompletion env executionId outcome =
     bindT (readT (\<lambda>s. tbl_get (ed_executions s) executionId)) (\<lambda>execution.
     case execution of
       None \<Rightarrow> retT ()
     | Some ex \<Rightarrow>
         if \<not> nonempty_str (exr_evalRunId ex) then retT ()
         else bindT (readT (\<lambda>s. case_results s (the (exr_evalRunId ex)))) (\<lambda>items.
           case find (\<lambda>i. res_executionId (snd i) = Some executionId) items of
             None \<Rightarrow> retT ()
           | Some ((evalRunId, caseId), row) \<Rightarrow>
               bindT (nowT env) (\<lambda>now.
               bindT (updateT (mark_terminal (evalRunId, caseId) 
                        (if outcome = CASE_COMPLETED then CASE_COMPLETED else CASE_FAILED) now id)) (\<lambda>_.
               recordCaseCompletion env evalRunId caseId))))"

definition listActiveRuns :: "(string \<times> run_row) list handler" where
  "listActiveRuns = readT (\<lambda>s.
     filter (\<lambda>r. rr_status (snd r) = Some RUN_PENDING \<or> rr_status (snd r) = Some RUN_RUNNING) (ed_runs s))"

text \<open>The deadline has passed: not \<open>getTime() > now\<close>, which an unreadable date does not satisfy either.\<close>

definition past_deadline :: "eval_env \<Rightarrow> rat \<Rightarrow> result_row \<Rightarrow> bool" where
  "past_deadline env now row \<longleftrightarrow> nonempty_str (res_deadlineAt row) \<and>
     (case ee_date_parse env (the (res_deadlineAt row)) of Some t \<Rightarrow> \<not> t > now | None \<Rightarrow> True)"

definition sweep_case :: "eval_env \<Rightarrow> rat \<Rightarrow> (string \<times> string) \<times> result_row \<Rightarrow> unit handler" where
  "sweep_case env now c =
     (if \<not> is_status CASE_DISPATCHED (snd c) \<and> \<not> is_status CASE_RUNNING (snd c) then retT ()
      else if \<not> past_deadline env now (snd c) then retT ()
      else bindT (nowT env) (\<lambda>completedAt.
        bindT (updateT (mark_terminal (fst c) CASE_TIMEOUT completedAt (\<lambda>r. r\<lparr>res_timedOut := True\<rparr>))) (\<lambda>_.
        recordCaseCompletion env (fst (fst c)) (snd (fst c)))))"

definition sweepTimeouts :: "eval_env \<Rightarrow> unit handler" where
  "sweepTimeouts env =
     bindT listActiveRuns (\<lambda>runs.
     bindT clockT (\<lambda>now.
     forT runs (\<lambda>run.
       bindT (readT (\<lambda>s. case_results s (fst run))) (\<lambda>cases.
       forT cases (sweep_case env now)))))"

datatype runner_event = Workflow_completed string | Workflow_failed string | Scheduled

definition runner_handler :: "eval_env \<Rightarrow> runner_event \<Rightarrow> unit handler" where
  "runner_handler env event = (case event of
       Workflow_completed executionId \<Rightarrow> handleWorkflowCompletion env executionId CASE_COMPLETED
     | Workflow_failed executionId \<Rightarrow> handleWorkflowCompletion env executionId CASE_FAILED
     | Scheduled \<Rightarrow> sweepTimeouts env)"

section \<open>Starting a run\<close>

record start_run_input =
  sri_suiteId :: "string option"
  sri_agentTargetId :: "string option"
  sri_agentTargetVersion :: "string option"
  sri_idempotencyKey :: "string option"

definition ALL_ORGANIZATIONS :: string where
  "ALL_ORGANIZATIONS = ''All Organizations''"

definition requireEvalRunPermission :: "auth_context \<Rightarrow> unit handler" where
  "requireEvalRunPermission authContext =
     bindT (liftT (hasPermission authContext ''eval:run'')) (\<lambda>granted.
     guardT granted (UnauthorizedError ''eval:run''))"

definition validateStartInput :: "start_run_input \<Rightarrow> unit handler" where
  "validateStartInput input =
     bindT (guardT (nonempty_str (sri_suiteId input)) (ValidationError ''suiteId'')) (\<lambda>_.
     bindT (guardT (nonempty_str (sri_agentTargetId input)) (ValidationError ''agentTargetId'')) (\<lambda>_.
     bindT (guardT (nonempty_str (sri_agentTargetVersion input)) (ValidationError ''agentTargetVersion'')) (\<lambda>_.
     guardT (nonempty_str (sri_idempotencyKey input)) (ValidationError ''idempotencyKey''))))"

definition org_row :: "string option \<Rightarrow> jsval" where
  "org_row orgId = JObj (case orgId of Some org \<Rightarrow> [(''orgId'', JStr org)] | None \<Rightarrow> [])"

definition deriveEvalRunId :: "eval_env \<Rightarrow> string \<Rightarrow> nat \<Rightarrow> string \<Rightarrow> string \<Rightarrow> string" where
  "deriveEvalRunId env suiteId suiteVersion agentTargetVersion idempotencyKey =
     ee_uuidv5 env (suiteId @ '':'' @ show_nat suiteVersion @ '':'' @ agentTargetVersion @ '':'' @ idempotencyKey)"

definition resolveAgentTargetOrg :: "string \<Rightarrow> string option handler" where
  "resolveAgentTargetOrg agentTargetId =
     bindT (readT (\<lambda>s. tbl_get (ed_agents s) agentTargetId)) (\<lambda>row.
     retT (case row of Some (Some org) \<Rightarrow> if org = [] then None else Some org | _ \<Rightarrow> None))"

definition put_run :: "string \<Rightarrow> run_row \<Rightarrow> eval_db \<Rightarrow> (raw_error + unit) \<times> eval_db" where
  "put_run evalRunId run s = (case tbl_get (ed_runs s) evalRunId of
       Some _ \<Rightarrow> (Inl ConditionalCheckFailedException, s)
     | None \<Rightarrow> (Inr (), s\<lparr>ed_runs := tbl_put evalRunId run (ed_runs s)\<rparr>))"

definition put_result :: "string \<times> string \<Rightarrow> result_row \<Rightarrow> eval_db \<Rightarrow> (raw_error + unit) \<times> eval_db" where
  "put_result k row s = (case tbl_get (ed_results s) k of
       Some _ \<Rightarrow> (Inl ConditionalCheckFailedException, s)
     | None \<Rightarrow> (Inr (), s\<lparr>ed_results := tbl_put k row (ed_results s)\<rparr>))"

definition pending_result :: "string option \<Rightarrow> eval_case_kind \<Rightarrow> result_row" where
  "pending_result orgId kind =
     no_result\<lparr>res_orgId := orgId, res_caseKind := Some kind, res_status := Some CASE_PENDING\<rparr>"

definition create_run :: "string \<Rightarrow> run_row \<Rightarrow> run_row option handler" where
  "create_run evalRunId run =
     bindT (unless_exists (callT (put_run evalRunId run))) (\<lambda>created.
     case created of
       Some _ \<Rightarrow> retT None
     | None \<Rightarrow> bindT (readT (\<lambda>s. tbl_get (ed_runs s) evalRunId)) (\<lambda>existing.
         case existing of
           Some row \<Rightarrow> retT (Some row)
         | None \<Rightarrow> throwT (Sdk ConditionalCheckFailedException)))"

definition max_latency :: "eval_env \<Rightarrow> rat" where
  "max_latency env = (case ee_maxLatencyMs env of Some q \<Rightarrow> if q = 0 then 900000 else q | None \<Rightarrow> 900000)"

definition launch_run ::
  "eval_env \<Rightarrow> string \<Rightarrow> run_row \<Rightarrow> eval_suite \<Rightarrow> string \<Rightarrow> ((string \<times> string) \<times> suite_case_row) list \<Rightarrow>
   run_row handler" where
  "launch_run env evalRunId run suite agentTargetId cases =
     bindT (allT cases (\<lambda>c. callT (put_result (evalRunId, snd (fst c))
              (pending_result (suite_orgId suite) (ecr_kind (snd c)))))) (\<lambda>_.
     bindT (catchT (emitT (Eval_run_started evalRunId)) (\<lambda>err. retT ())) (\<lambda>_.
     bindT (catchT (fanOutEvalRun env evalRunId (suite_id suite) agentTargetId
              (case suite_orgId suite of Some org \<Rightarrow> org | None \<Rightarrow> []) (max_latency env)) (\<lambda>err. retT ())) (\<lambda>_.
     retT run)))"

definition startEvalRun ::
  "eval_env \<Rightarrow> start_run_input \<Rightarrow> auth_context \<Rightarrow> 'a gql_event option \<Rightarrow> run_row handler" where
  "startEvalRun env input authContext event =
     bindT (requireEvalRunPermission authContext) (\<lambda>_.
     bindT (validateStartInput input) (\<lambda>_.
     let suiteId = the (sri_suiteId input); agentTargetId = the (sri_agentTargetId input);
         agentTargetVersion = the (sri_agentTargetVersion input);
         idempotencyKey = the (sri_idempotencyKey input)
     in bindT (readT (\<lambda>s. tbl_get (ed_suites s) suiteId)) (\<lambda>found.
     case found of
       None \<Rightarrow> throwT (PlainError ''EvalSuite not found'')
     | Some suite \<Rightarrow>
         bindT (case event of Some ev \<Rightarrow> liftT (assertRowOrg (org_row (suite_orgId suite)) ev) | None \<Rightarrow> retT ()) (\<lambda>_.
         bindT (resolveAgentTargetOrg agentTargetId) (\<lambda>targetOrg.
         bindT (guardT (targetOrg \<noteq> None \<and>
                  (targetOrg = suite_orgId suite \<or> targetOrg = Some ALL_ORGANIZATIONS))
                  (ValidationError ''agentTargetId not found'')) (\<lambda>_.
         bindT (guardT (suite_status suite = SUITE_FROZEN) (ValidationError ''must be FROZEN'')) (\<lambda>_.
         let evalRunId = deriveEvalRunId env (suite_id suite) (suite_version suite) agentTargetVersion idempotencyKey
         in bindT (readT (\<lambda>s. tbl_query (\<lambda>k. fst k = suite_id suite) (ed_cases s))) (\<lambda>cases.
         bindT (nowT env) (\<lambda>now.
         let run = no_run\<lparr>rr_orgId := suite_orgId suite, rr_suiteId := Some (suite_id suite),
               rr_suiteVersion := Some (suite_version suite), rr_agentTargetId := Some agentTargetId,
               rr_agentTargetVersion := Some agentTargetVersion, rr_status := Some RUN_PENDING,
               rr_caseCount := Some (length cases), rr_pendingCases := Some (int (length cases)),
               rr_startedAt := Some now, rr_startedBy := Some (ac_userId authContext),
               rr_idempotencyKey := Some idempotencyKey\<rparr>
         in bindT (create_run evalRunId run) (\<lambda>existing.
         case existing of
           Some row \<Rightarrow> retT row
         | None \<Rightarrow> launch_run env evalRunId run suite agentTargetId cases))))))))))"

section \<open>Reads and the handler\<close>

definition visible_run :: "'a gql_event option \<Rightarrow> run_row \<Rightarrow> bool" where
  "visible_run event row = (case event of
       None \<Rightarrow> True
     | Some ev \<Rightarrow> canCallerSeeRow (org_row (rr_orgId row)) ev)"

definition readEvalRun :: "string \<Rightarrow> 'a gql_event option \<Rightarrow> run_row option handler" where
  "readEvalRun evalRunId event =
     bindT (readT (\<lambda>s. tbl_get (ed_runs s) evalRunId)) (\<lambda>item.
     retT (case item of
         None \<Rightarrow> None
       | Some row \<Rightarrow> if visible_run event row then Some row else None))"

definition org_is :: "string option \<Rightarrow> jsval \<Rightarrow> bool" where
  "org_is orgId org \<longleftrightarrow> map_option JStr orgId = Some org"

definition listEvalRuns ::
  "string \<Rightarrow> string option \<Rightarrow> 'a gql_event option \<Rightarrow> (string \<times> run_row) list handler" where
  "listEvalRuns orgId suiteId event =
     (case (case event of Some ev \<Rightarrow> resolveScopedOrgFromEvent ev (Some orgId) | None \<Rightarrow> Some (JStr orgId)) of
        None \<Rightarrow> retT []
      | Some scoped \<Rightarrow>
          if nonempty_str suiteId
          then bindT (readT (\<lambda>s. filter (\<lambda>r. rr_suiteId (snd r) = suiteId) (ed_runs s))) (\<lambda>items.
            retT (filter (\<lambda>r. org_is (rr_orgId (snd r)) scoped) items))
          else readT (\<lambda>s. filter (\<lambda>r. org_is (rr_orgId (snd r)) scoped) (ed_runs s)))"

definition listEvalRunCases ::
  "string \<Rightarrow> 'a gql_event option \<Rightarrow> ((string \<times> string) \<times> result_row) list handler" where
  "listEvalRunCases evalRunId event =
     (case event of
        None \<Rightarrow> readT (\<lambda>s. case_results s evalRunId)
      | Some ev \<Rightarrow>
          bindT (readEvalRun evalRunId (None :: 'a gql_event option)) (\<lambda>found.
          case found of
            None \<Rightarrow> retT []
          | Some run \<Rightarrow>
              if \<not> canCallerSeeRow (org_row (rr_orgId run)) ev then retT []
              else bindT (readT (\<lambda>s. case_results s evalRunId)) (\<lambda>items.
                retT (if nonempty_str (rr_orgId run)
                      then filter (\<lambda>i. res_orgId (snd i) = rr_orgId run) items else items))))"

datatype eval_run_request =
    Start_eval_run start_run_input
  | Get_eval_run string
  | List_eval_runs string "string option"
  | List_eval_run_cases string
  | Unknown_eval_request string

datatype eval_run_answer =
    Run_started run_row
  | Run_found "run_row option"
  | Runs_found "(string \<times> run_row) list"
  | Cases_found "((string \<times> string) \<times> result_row) list"

definition eval_run_handler :: "eval_env \<Rightarrow> eval_run_request gql_event \<Rightarrow> eval_run_answer handler" where
  "eval_run_handler env event = (case ge_arguments event of
       Start_eval_run input \<Rightarrow>
         bindT (startEvalRun env input (authContextFromEvent event) (Some event)) (\<lambda>r. retT (Run_started r))
     | Get_eval_run evalRunId \<Rightarrow> bindT (readEvalRun evalRunId (Some event)) (\<lambda>r. retT (Run_found r))
     | List_eval_runs orgId suiteId \<Rightarrow> bindT (listEvalRuns orgId suiteId (Some event)) (\<lambda>r. retT (Runs_found r))
     | List_eval_run_cases evalRunId \<Rightarrow> bindT (listEvalRunCases evalRunId (Some event)) (\<lambda>r. retT (Cases_found r))
     | Unknown_eval_request fieldName \<Rightarrow> throwT (UnsupportedField fieldName))"

end
