(* ===== verification/EvalRunInvariant.thy ===== *)
theory EvalRunInvariant
  imports EvalRuns
begin

text \<open>
  The invariant of evaluation runs under interleaving. A thread that has recorded a case and not
  yet decremented the counter owes a decrement; a thread that brought the counter to zero owes
  the completion; a thread that starts a run has cases left to put. The counter of a run is its
  case count less the recorded cases plus the decrements owed. Each update of the tables keeps the
  invariant, with the duty it takes or pays.
\<close>

section \<open>Tokens and the invariant\<close>

datatype duty = Owes string | Finalizing string | Starting string nat

definition terminal :: "result_row \<Rightarrow> bool" where
  "terminal row \<longleftrightarrow> res_status row \<in> {Some CASE_COMPLETED, Some CASE_FAILED, Some CASE_TIMEOUT}"

definition cases_of :: "eval_db \<Rightarrow> string \<Rightarrow> string set" where
  "cases_of s r = {c. tbl_get (ed_results s) (r, c) \<noteq> None}"

definition recorded_cases :: "eval_db \<Rightarrow> string \<Rightarrow> string set" where
  "recorded_cases s r = {c. \<exists>row. tbl_get (ed_results s) (r, c) = Some row \<and> res_completionRecorded row}"

fun completes :: "string \<Rightarrow> eval_event \<Rightarrow> bool" where
  "completes r (Eval_run_completed r' _ _ _ _ _) \<longleftrightarrow> r' = r"
| "completes r _ \<longleftrightarrow> False"

definition announced :: "eval_db \<Rightarrow> string \<Rightarrow> nat" where
  "announced s r = length (filter (completes r) (ed_events s))"

fun to_put :: "string \<Rightarrow> duty \<Rightarrow> nat" where
  "to_put r (Starting r' n) = (if r' = r then n else 0)"
| "to_put r _ = 0"

definition dates_ok :: "eval_env \<Rightarrow> bool" where
  "dates_ok env \<longleftrightarrow> (\<forall>x. ee_date_parse env (ee_iso env x) \<noteq> None \<and> ee_iso env x \<noteq> [])"

definition run_view ::
  "eval_env \<Rightarrow> nat \<Rightarrow> nat \<Rightarrow> nat \<Rightarrow> run_row option \<Rightarrow> nat \<Rightarrow> nat \<Rightarrow> nat \<Rightarrow> bool" where
  "run_view env owed finalizing put run cs rec ann \<longleftrightarrow> (case run of
       None \<Rightarrow> cs = 0 \<and> rec = 0 \<and> owed = 0 \<and> finalizing = 0 \<and> put = 0 \<and> ann = 0
     | Some row \<Rightarrow> (\<exists>n. rr_caseCount row = Some n \<and>
         rr_pendingCases row = Some (int n - int rec + int owed) \<and>
         cs + put \<le> n \<and> owed \<le> rec \<and> rec \<le> cs \<and>
         ann + finalizing \<le> (if rr_pendingCases row = Some 0 then 1 else 0) \<and>
         (rr_status row = Some RUN_COMPLETED \<longrightarrow> rr_pendingCases row = Some 0) \<and>
         (0 < finalizing \<or> rr_status row = Some RUN_COMPLETED \<longrightarrow> 0 < n) \<and>
         (0 < n \<and> rr_pendingCases row = Some 0 \<longrightarrow>
            rr_status row = Some RUN_COMPLETED \<or> 0 < finalizing)) \<and>
         (dates_ok env \<longrightarrow> nonempty_str (rr_startedAt row) \<longrightarrow> ee_date_parse env (the (rr_startedAt row)) \<noteq> None))"

definition run_ok :: "eval_env \<Rightarrow> duty multiset \<Rightarrow> eval_db \<Rightarrow> string \<Rightarrow> bool" where
  "run_ok env M s r = run_view env (count M (Owes r)) (count M (Finalizing r)) (\<Sum>g\<in>#M. to_put r g)
     (tbl_get (ed_runs s) r) (card (cases_of s r)) (card (recorded_cases s r)) (announced s r)"

text \<open>A conversation case has no deadline, so no sweep times it out.\<close>

definition conv_ok :: "result_row \<Rightarrow> bool" where
  "conv_ok row \<longleftrightarrow> (res_caseKind row = Some CONVERSATION \<longrightarrow>
     res_deadlineAt row = None \<and> res_status row \<noteq> Some CASE_TIMEOUT)"

definition eval_inv :: "eval_env \<Rightarrow> duty multiset \<Rightarrow> eval_db \<Rightarrow> bool" where
  "eval_inv env M s \<longleftrightarrow> tbl_wf (ed_results s) \<and> (\<forall>r. run_ok env M s r) \<and>
     (\<forall>k row. tbl_get (ed_results s) k = Some row \<longrightarrow>
        (res_completionRecorded row \<longrightarrow> terminal row) \<and> conv_ok row) \<and>
     (\<forall>d \<in> set (ed_queue s). tbl_get (ed_results s) (cd_evalRunId d, cd_caseId d) \<noteq> None)"

definition row_grows :: "result_row \<Rightarrow> result_row \<Rightarrow> bool" where
  "row_grows row row' \<longleftrightarrow>
     res_caseKind row' = res_caseKind row \<and> (terminal row \<longrightarrow> terminal row') \<and> (res_completionRecorded row \<longrightarrow> res_completionRecorded row')"

definition run_grows :: "run_row \<Rightarrow> run_row \<Rightarrow> bool" where
  "run_grows row row' \<longleftrightarrow> rr_caseCount row' = rr_caseCount row \<and>
     (rr_status row = Some RUN_COMPLETED \<longrightarrow> rr_status row' = Some RUN_COMPLETED)"

definition eval_grows :: "eval_db \<Rightarrow> eval_db \<Rightarrow> bool" where
  "eval_grows s t \<longleftrightarrow>
     (\<forall>k. rel_option row_grows (tbl_get (ed_results s) k) (tbl_get (ed_results t) k) \<or> tbl_get (ed_results s) k = None) \<and>
     (\<forall>r. rel_option run_grows (tbl_get (ed_runs s) r) (tbl_get (ed_runs t) r) \<or> tbl_get (ed_runs s) r = None) \<and>
     set (ed_queue s) \<subseteq> set (ed_queue t)"

lemma row_grows_refl [simp]: "row_grows x x" and run_grows_refl [simp]: "run_grows y y"
  by (simp_all add: row_grows_def run_grows_def)

lemma eval_grows_refl [simp]: "eval_grows s s"
  by (simp add: eval_grows_def option.rel_refl)

lemma eval_growsD:
  assumes "eval_grows s t"
  shows "tbl_get (ed_results s) k = Some row \<Longrightarrow> \<exists>row'. tbl_get (ed_results t) k = Some row' \<and> row_grows row row'"
    and "tbl_get (ed_runs s) r = Some run \<Longrightarrow> \<exists>run'. tbl_get (ed_runs t) r = Some run' \<and> run_grows run run'"
    and "set (ed_queue s) \<subseteq> set (ed_queue t)"
proof -
  assume "tbl_get (ed_results s) k = Some row"
  with assms show "\<exists>row'. tbl_get (ed_results t) k = Some row' \<and> row_grows row row'"
    unfolding eval_grows_def by (metis option.distinct(1) option.rel_cases option.inject)
next
  assume "tbl_get (ed_runs s) r = Some run"
  with assms show "\<exists>run'. tbl_get (ed_runs t) r = Some run' \<and> run_grows run run'"
    unfolding eval_grows_def by (metis option.distinct(1) option.rel_cases option.inject)
qed (use assms in \<open>simp add: eval_grows_def\<close>)

lemma eval_growsI:
  assumes "\<And>k row. tbl_get (ed_results s) k = Some row \<Longrightarrow> \<exists>row'. tbl_get (ed_results t) k = Some row' \<and> row_grows row row'"
    and "\<And>r run. tbl_get (ed_runs s) r = Some run \<Longrightarrow> \<exists>run'. tbl_get (ed_runs t) r = Some run' \<and> run_grows run run'"
    and "set (ed_queue s) \<subseteq> set (ed_queue t)"
  shows "eval_grows s t"
proof -
  have "rel_option row_grows (tbl_get (ed_results s) k) (tbl_get (ed_results t) k) \<or> tbl_get (ed_results s) k = None" for k
    using assms(1) [of k] by (cases "tbl_get (ed_results s) k") auto
  moreover have "rel_option run_grows (tbl_get (ed_runs s) r) (tbl_get (ed_runs t) r) \<or> tbl_get (ed_runs s) r = None" for r
    using assms(2) [of r] by (cases "tbl_get (ed_runs s) r") auto
  ultimately show ?thesis
    using assms(3) by (simp add: eval_grows_def)
qed

lemma eval_grows_trans: "eval_grows s t \<Longrightarrow> eval_grows t u \<Longrightarrow> eval_grows s u"
proof (rule eval_growsI)
  assume st: "eval_grows s t" and tu: "eval_grows t u"
  fix k row assume "tbl_get (ed_results s) k = Some row"
  from eval_growsD(1) [OF st this] obtain row' where "tbl_get (ed_results t) k = Some row'" "row_grows row row'"
    by blast
  with eval_growsD(1) [OF tu, of k] show "\<exists>row'. tbl_get (ed_results u) k = Some row' \<and> row_grows row row'"
    by (fastforce simp: row_grows_def)
next
  assume st: "eval_grows s t" and tu: "eval_grows t u"
  fix r run assume "tbl_get (ed_runs s) r = Some run"
  from eval_growsD(2) [OF st this] obtain run' where "tbl_get (ed_runs t) r = Some run'" "run_grows run run'"
    by blast
  with eval_growsD(2) [OF tu, of r] show "\<exists>run'. tbl_get (ed_runs u) r = Some run' \<and> run_grows run run'"
    by (fastforce simp: run_grows_def)
next
  assume "eval_grows s t" and "eval_grows t u"
  then show "set (ed_queue s) \<subseteq> set (ed_queue u)"
    using eval_growsD(3) by blast
qed

interpretation er: concurrent A "\<lambda>M. eval_inv env (\<Sum>\<^sub># M)" eval_grows for A env
  by unfold_locales (auto intro: eval_grows_trans)

section \<open>The operations on the tables\<close>

lemma update_result_simps [simp]:
  "ed_runs (update_result k f s) = ed_runs s" "ed_queue (update_result k f s) = ed_queue s"
  "ed_events (update_result k f s) = ed_events s"
  "tbl_wf (ed_results s) \<Longrightarrow> tbl_wf (ed_results (update_result k f s))"
  by (simp_all add: update_result_def)

lemma update_run_simps [simp]:
  "ed_results (update_run r f s) = ed_results s" "ed_queue (update_run r f s) = ed_queue s"
  "ed_events (update_run r f s) = ed_events s"
  by (simp_all add: update_run_def)

lemma get_update_result [simp]:
  "tbl_get (ed_results s) k = Some row \<Longrightarrow>
    tbl_get (ed_results (update_result k f s)) j = (if j = k then Some (f row) else tbl_get (ed_results s) j)"
  by (simp add: update_result_def tbl.get_put)

lemma get_update_run [simp]:
  "tbl_get (ed_runs s) r = Some row \<Longrightarrow>
    tbl_get (ed_runs (update_run r f s)) j = (if j = r then Some (f row) else tbl_get (ed_runs s) j)"
  by (simp add: update_run_def tbl.get_put)

lemma view_update_run [simp]:
  "cases_of (update_run r f s) j = cases_of s j" "recorded_cases (update_run r f s) j = recorded_cases s j"
  "announced (update_run r f s) j = announced s j" "announced (update_result k g s) j = announced s j"
  by (simp_all add: cases_of_def recorded_cases_def announced_def)

lemma finite_cases [simp]: "finite (cases_of s r)"
proof -
  have "cases_of s r \<subseteq> (\<lambda>kv. snd (fst kv)) ` set (ed_results s)"
    by (force simp: cases_of_def tbl_get_def dest: map_of_SomeD)
  then show ?thesis
    by (rule finite_subset) simp
qed

lemma recorded_subset: "recorded_cases s r \<subseteq> cases_of s r"
  by (auto simp: recorded_cases_def cases_of_def)

lemma finite_recorded [simp]: "finite (recorded_cases s r)"
  by (rule finite_subset [OF recorded_subset]) simp

lemma run_ok_cong:
  "tbl_get (ed_runs t) r = tbl_get (ed_runs s) r \<Longrightarrow> cases_of t r = cases_of s r \<Longrightarrow>
    recorded_cases t r = recorded_cases s r \<Longrightarrow> announced t r = announced s r \<Longrightarrow>
    run_ok env M t r = run_ok env M s r"
  by (simp add: run_ok_def)

text \<open>A result belongs to a run, and a recorded one is owed or accounted for.\<close>

lemma result_has_run:
  assumes "eval_inv env M s" and "tbl_get (ed_results s) (r, c) = Some row"
  shows "\<exists>run. tbl_get (ed_runs s) r = Some run"
proof (rule ccontr)
  assume "\<not> ?thesis"
  then have "card (cases_of s r) = 0"
    using assms(1) by (auto simp: eval_inv_def run_ok_def run_view_def dest!: spec [of _ r])
  moreover have "c \<in> cases_of s r"
    using assms(2) by (simp add: cases_of_def)
  ultimately show False
    by auto
qed

text \<open>An update that records nothing.\<close>

lemma plain_update:
  assumes "eval_inv env M s" and row: "tbl_get (ed_results s) k = Some row"
    and keep: "res_completionRecorded (f row) = res_completionRecorded row" and "row_grows row (f row)"
    and conv: "conv_ok row \<Longrightarrow> conv_ok (f row)"
  shows "eval_inv env M (update_result k f s) \<and> eval_grows s (update_result k f s)"
proof
  have same: "cases_of (update_result k f s) r = cases_of s r"
    "recorded_cases (update_result k f s) r = recorded_cases s r" for r
    using row keep by (auto simp: cases_of_def recorded_cases_def)
  have "run_ok env M (update_result k f s) r = run_ok env M s r" for r
    by (rule run_ok_cong) (simp_all add: same announced_def)
  then show "eval_inv env M (update_result k f s)"
    using assms by (auto simp: eval_inv_def row_grows_def)
  show "eval_grows s (update_result k f s)"
    using assms by (intro eval_growsI) auto
qed

text \<open>The flag of a case: the thread now owes the decrement.\<close>

lemma record_update:
  assumes inv: "eval_inv env M s" and row: "tbl_get (ed_results s) (r, c) = Some row"
    and new: "\<not> res_completionRecorded row" and "terminal row"
  defines "t \<equiv> update_result (r, c) (\<lambda>x. x\<lparr>res_completionRecorded := True\<rparr>) s"
  shows "eval_inv env (add_mset (Owes r) M) t \<and> eval_grows s t"
proof
  have cases: "cases_of t j = cases_of s j" for j
    using row by (auto simp: cases_of_def t_def)
  have rec: "recorded_cases t j = (if j = r then insert c (recorded_cases s j) else recorded_cases s j)" for j
    using row by (auto simp: recorded_cases_def t_def)
  have runs: "ed_runs t = ed_runs s" "announced t j = announced s j" for j
    by (simp_all add: t_def)
  have fresh: "c \<notin> recorded_cases s r"
    using row new by (auto simp: recorded_cases_def)
  have "card (insert c (recorded_cases s r)) \<le> card (cases_of s r)"
    using row by (intro card_mono finite_cases) (auto simp: cases_of_def recorded_cases_def)
  then have le: "Suc (card (recorded_cases s r)) \<le> card (cases_of s r)"
    using fresh by simp
  have "run_ok env (add_mset (Owes r) M) t j" for j
  proof (cases "j = r")
    case True
    have "run_ok env M s r"
      using inv by (simp add: eval_inv_def)
    then show ?thesis
      using True fresh le
      by (auto simp: run_ok_def run_view_def cases rec runs split: option.splits)
  next
    case False
    have "run_ok env M s j"
      using inv by (simp add: eval_inv_def)
    then show ?thesis
      using False by (simp add: run_ok_def cases rec runs)
  qed
  then show "eval_inv env (add_mset (Owes r) M) t"
    using inv row \<open>terminal row\<close> by (auto simp: eval_inv_def t_def terminal_def conv_ok_def)
  show "eval_grows s t"
    using row by (intro eval_growsI) (auto simp: t_def row_grows_def terminal_def)
qed

text \<open>The decrement: whoever reaches zero finalizes.\<close>

definition after_decrement :: "string \<Rightarrow> run_row \<Rightarrow> duty multiset" where
  "after_decrement r row = (if rr_pendingCases row = Some 0 then {#Finalizing r#} else {#})"

lemma decrement_update:
  assumes inv: "eval_inv env (add_mset (Owes r) M) s" and row: "tbl_get (ed_runs s) r = Some row"
  defines "t \<equiv> update_run r decrement s"
  shows "eval_inv env (after_decrement r (decrement row) + M) t \<and> eval_grows s t \<and>
    (\<exists>n. rr_pendingCases (decrement row) = Some n \<and> 0 \<le> n) \<and>
    (dates_ok env \<longrightarrow> nonempty_str (rr_startedAt row) \<longrightarrow> ee_date_parse env (the (rr_startedAt row)) \<noteq> None)"
proof -
  have old: "run_ok env (add_mset (Owes r) M) s j" for j
    using inv by (simp add: eval_inv_def)
  obtain n where n: "rr_caseCount row = Some n"
      "rr_pendingCases row = Some (int n - int (card (recorded_cases s r)) + int (Suc (count M (Owes r))))"
      "card (cases_of s r) + (\<Sum>g\<in>#M. to_put r g) \<le> n" "Suc (count M (Owes r)) \<le> card (recorded_cases s r)"
      "card (recorded_cases s r) \<le> card (cases_of s r)"
      "announced s r + count M (Finalizing r) \<le> (if rr_pendingCases row = Some 0 then 1 else 0)"
      "rr_status row = Some RUN_COMPLETED \<longrightarrow> rr_pendingCases row = Some 0"
    and date: "dates_ok env \<longrightarrow> nonempty_str (rr_startedAt row) \<longrightarrow> ee_date_parse env (the (rr_startedAt row)) \<noteq> None"
    using old [of r] row by (auto simp: run_ok_def run_view_def)
  have pos: "rr_pendingCases row \<noteq> Some 0"
    using n by simp
  have dec: "rr_pendingCases (decrement row) =
      Some (int n - int (card (recorded_cases s r)) + int (count M (Owes r)))"
    using n by (simp add: decrement_def)
  have same: "rr_caseCount (decrement row) = rr_caseCount row" "rr_status (decrement row) = rr_status row"
    "rr_startedAt (decrement row) = rr_startedAt row"
    by (simp_all add: decrement_def)
  have "run_ok env (after_decrement r (decrement row) + M) t j" for j
  proof (cases "j = r")
    case True
    have "run_view env (count M (Owes r)) (count (after_decrement r (decrement row) + M) (Finalizing r))
      (\<Sum>g\<in>#M. to_put r g) (Some (decrement row)) (card (cases_of s r)) (card (recorded_cases s r)) (announced s r)"
      using n pos date unfolding run_view_def
      by (auto simp: dec same after_decrement_def split: if_splits)
    then show ?thesis
      using True row by (auto simp: run_ok_def t_def after_decrement_def)
  next
    case False
    with old [of j] show ?thesis
      using row by (auto simp: run_ok_def t_def after_decrement_def)
  qed
  then have "eval_inv env (after_decrement r (decrement row) + M) t"
    using inv by (simp add: eval_inv_def t_def)
  moreover have "eval_grows s t"
    using row by (intro eval_growsI) (auto simp: t_def run_grows_def same)
  ultimately show ?thesis
    using dec n date by auto
qed

lemma complete_update:
  assumes inv: "eval_inv env (add_mset (Finalizing r) M) s" and row: "tbl_get (ed_runs s) r = Some row"
    and f: "rr_caseCount (f row) = rr_caseCount row" "rr_pendingCases (f row) = rr_pendingCases row"
      "rr_startedAt (f row) = rr_startedAt row" "rr_status (f row) = Some RUN_COMPLETED"
  shows "eval_inv env (add_mset (Finalizing r) M) (update_run r f s) \<and> eval_grows s (update_run r f s)"
proof
  have old: "run_ok env (add_mset (Finalizing r) M) s j" for j
    using inv by (simp add: eval_inv_def)
  have "run_ok env (add_mset (Finalizing r) M) (update_run r f s) j" for j
    using old [of j] row f
    by (cases "j = r") (auto simp: run_ok_def run_view_def split: if_splits)
  then show "eval_inv env (add_mset (Finalizing r) M) (update_run r f s)"
    using inv by (simp add: eval_inv_def)
  show "eval_grows s (update_run r f s)"
    using row f by (intro eval_growsI) (auto simp: run_grows_def)
qed

definition is_completed :: "string \<Rightarrow> eval_db \<Rightarrow> bool" where
  "is_completed r s \<longleftrightarrow> (\<exists>row. tbl_get (ed_runs s) r = Some row \<and> rr_status row = Some RUN_COMPLETED)"

lemma is_completed_grows: "is_completed r s \<Longrightarrow> eval_grows s t \<Longrightarrow> is_completed r t"
  unfolding is_completed_def using eval_growsD(2) run_grows_def by blast

lemma release_finalizing:
  assumes inv: "eval_inv env (add_mset (Finalizing r) M) s" and "is_completed r s"
  shows "eval_inv env M s"
proof -
  have "run_ok env M s j" if "run_ok env (add_mset (Finalizing r) M) s j" for j
    using that assms(2) by (cases "j = r") (auto simp: run_ok_def run_view_def is_completed_def split: option.splits if_splits)
  with inv show ?thesis
    by (simp add: eval_inv_def)
qed

lemma announce_update:
  assumes inv: "eval_inv env (add_mset (Finalizing r) M) s" and "is_completed r s"
    and e: "\<And>j. completes j e \<longleftrightarrow> j = r"
  defines "t \<equiv> s\<lparr>ed_events := ed_events s @ [e]\<rparr>"
  shows "eval_inv env M t \<and> eval_grows s t"
proof
  have same: "cases_of t j = cases_of s j" "recorded_cases t j = recorded_cases s j" "ed_runs t = ed_runs s"
    "announced t j = announced s j + (if j = r then 1 else 0)" for j
    by (simp_all add: cases_of_def recorded_cases_def announced_def t_def e)
  have "run_ok env M t j" if "run_ok env (add_mset (Finalizing r) M) s j" for j
    using that assms(2) by (cases "j = r") (auto simp: run_ok_def run_view_def is_completed_def same split: option.splits if_splits)
  then show "eval_inv env M t"
    using inv by (auto simp: eval_inv_def t_def)
  show "eval_grows s t"
    by (intro eval_growsI) (auto simp: t_def)
qed

text \<open>Changes the invariant does not look at.\<close>

lemma unseen_update:
  assumes "eval_inv env M s" and "ed_results t = ed_results s" "ed_runs t = ed_runs s"
    "\<And>r. announced t r = announced s r" "set (ed_queue s) \<subseteq> set (ed_queue t)"
    "\<And>d. d \<in> set (ed_queue t) \<Longrightarrow> d \<in> set (ed_queue s) \<or> tbl_get (ed_results s) (cd_evalRunId d, cd_caseId d) \<noteq> None"
  shows "eval_inv env M t \<and> eval_grows s t"
proof
  have "run_ok env M t r = run_ok env M s r" for r
    by (rule run_ok_cong) (simp_all add: assms cases_of_def recorded_cases_def)
  then show "eval_inv env M t"
    using assms by (auto simp: eval_inv_def) blast+
  show "eval_grows s t"
    by (intro eval_growsI) (auto simp: assms)
qed

lemma new_run:
  assumes inv: "eval_inv env M s" and none: "tbl_get (ed_runs s) r = None"
    and row: "rr_caseCount row = Some n" "rr_pendingCases row = Some (int n)" "rr_status row = Some RUN_PENDING"
      "dates_ok env \<longrightarrow> ee_date_parse env (the (rr_startedAt row)) \<noteq> None"
  defines "t \<equiv> s\<lparr>ed_runs := tbl_put r row (ed_runs s)\<rparr>"
  shows "eval_inv env (add_mset (Starting r n) M) t \<and> eval_grows s t"
proof
  have same: "cases_of t j = cases_of s j" "recorded_cases t j = recorded_cases s j" "announced t j = announced s j" for j
    by (simp_all add: cases_of_def recorded_cases_def announced_def t_def)
  have runs: "tbl_get (ed_runs t) j = (if j = r then Some row else tbl_get (ed_runs s) j)" for j
    by (simp add: t_def tbl.get_put)
  have "run_ok env (add_mset (Starting r n) M) t j" if "run_ok env M s j" for j
    using that none row by (cases "j = r") (auto simp: run_ok_def run_view_def same runs)
  then show "eval_inv env (add_mset (Starting r n) M) t"
    using inv by (simp add: eval_inv_def t_def)
  show "eval_grows s t"
    using none by (intro eval_growsI) (auto simp: t_def tbl.get_put)
qed

lemma new_result:
  assumes inv: "eval_inv env (add_mset (Starting r (Suc m)) M) s"
    and none: "tbl_get (ed_results s) (r, c) = None" and row: "\<not> res_completionRecorded row" "conv_ok row"
  defines "t \<equiv> s\<lparr>ed_results := tbl_put (r, c) row (ed_results s)\<rparr>"
  shows "eval_inv env (add_mset (Starting r m) M) t \<and> eval_grows s t"
proof
  have get: "tbl_get (ed_results t) k = (if k = (r, c) then Some row else tbl_get (ed_results s) k)" for k
    by (simp add: t_def tbl.get_put)
  have cases: "cases_of t j = (if j = r then insert c (cases_of s j) else cases_of s j)" for j
    by (auto simp: cases_of_def get)
  have same: "announced t j = announced s j" "ed_runs t = ed_runs s" "recorded_cases t j = recorded_cases s j" for j
    using row none by (simp_all add: announced_def t_def) (auto simp: recorded_cases_def tbl.get_put split: if_splits)
  have "c \<notin> cases_of s r"
    using none by (simp add: cases_of_def)
  then have "run_ok env (add_mset (Starting r m) M) t j" if "run_ok env (add_mset (Starting r (Suc m)) M) s j" for j
    using that by (cases "j = r") (auto simp: run_ok_def run_view_def same cases split: option.splits)
  then show "eval_inv env (add_mset (Starting r m) M) t"
    using inv row by (auto simp: eval_inv_def get) (simp add: t_def)+
  show "eval_grows s t"
    using none by (intro eval_growsI) (auto simp: t_def tbl.get_put)
qed

end
