(* ===== verification/EvalRunThreads.thy ===== *)
theory EvalRunThreads
  imports EvalRunInvariant
begin

text \<open>
  Threads of the evaluation handlers that keep the invariant: quiet ones leave their duties alone;
  settling ones end with nothing owed unless a call failed; and the rules for their composition.
\<close>

section \<open>Threads that keep the invariant\<close>

definition nice :: "(reply \<Rightarrow> bool) \<Rightarrow> eval_env \<Rightarrow> bool" where
  "nice A env \<longleftrightarrow> (\<forall>f. A f \<longrightarrow> rp_fault f = None) \<and> dates_ok env"

definition owing :: "duty multiset \<Rightarrow> bool" where
  "owing g \<longleftrightarrow> (\<exists>r. Owes r \<in># g \<or> Finalizing r \<in># g)"

definition free :: "(reply \<Rightarrow> bool) \<Rightarrow> eval_env \<Rightarrow> duty multiset \<Rightarrow> bool" where
  "free A env g \<longleftrightarrow> (nice A env \<longrightarrow> \<not> owing g)"

abbreviation secure where
  "secure A env \<equiv> safe A (\<lambda>M. eval_inv env (\<Sum>\<^sub># M)) eval_grows"

text \<open>A thread that leaves its token alone, and may not throw without a fault when \<open>Z\<close> holds.\<close>

definition kept :: "(reply \<Rightarrow> bool) \<Rightarrow> eval_env \<Rightarrow> bool \<Rightarrow> duty multiset \<Rightarrow> duty multiset \<Rightarrow> exn + 'a \<Rightarrow> eval_db \<Rightarrow> bool" where
  "kept A env Z g g' r t \<longleftrightarrow> g' = g \<and> (Z \<and> nice A env \<longrightarrow> (\<exists>a. r = Inr a))"

definition owes_nothing :: "(reply \<Rightarrow> bool) \<Rightarrow> eval_env \<Rightarrow> duty multiset \<Rightarrow> exn + 'a \<Rightarrow> eval_db \<Rightarrow> bool" where
  "owes_nothing A env g r t \<longleftrightarrow> free A env g"

definition quiet :: "(reply \<Rightarrow> bool) \<Rightarrow> eval_env \<Rightarrow> bool \<Rightarrow> 'a handler \<Rightarrow> eval_db \<Rightarrow> bool" where
  "quiet A env Z p s \<longleftrightarrow> (\<forall>g. secure A env (kept A env Z g) p g s)"

text \<open>A thread that owes nothing when it ends, unless a call failed.\<close>

definition settles :: "(reply \<Rightarrow> bool) \<Rightarrow> eval_env \<Rightarrow> 'a handler \<Rightarrow> duty multiset \<Rightarrow> eval_db \<Rightarrow> bool" where
  "settles A env p g s \<longleftrightarrow> secure A env (owes_nothing A env) p g s"

named_theorems quiet_intros \<open>threads that keep the invariant and their token\<close>

lemma quiet_ret [quiet_intros]: "quiet A env Z (retT a) s"
  by (simp add: quiet_def kept_def retT_def)

lemma quiet_throwI: "\<not> (Z \<and> nice A env) \<Longrightarrow> quiet A env Z (throwT e) s"
  by (simp add: quiet_def kept_def throwT_def)

lemma quiet_throw [quiet_intros]: "quiet A env False (throwT e) s"
  by (simp add: quiet_def kept_def throwT_def)

lemma quiet_guard [quiet_intros]: "quiet A env False (guardT b e) s"
  by (simp add: guardT_def quiet_intros)

lemma quiet_lift [quiet_intros]: "quiet A env False (liftT r) s"
  by (simp add: quiet_def kept_def liftT_def)

lemma quiet_bind [quiet_intros]:
  assumes "quiet A env Z p s" and "\<And>a t. eval_grows s t \<Longrightarrow> quiet A env Z (h a) t"
  shows "quiet A env Z (bindT p h) s"
  unfolding quiet_def
proof (intro allI er.bindT)
  fix g
  have "secure A env (kept A env Z g) p g s"
    using assms(1) unfolding quiet_def by blast
  then show "secure A env (\<lambda>g' r s. secure A env (kept A env Z g) (case r of Inl e \<Rightarrow> Ret (Inl e) | Inr a \<Rightarrow> h a) g' s) p g s"
    by (rule er.mono) (use assms(2) in \<open>auto simp: quiet_def kept_def split: sum.split\<close>)
qed

lemma quiet_catch [quiet_intros]:
  assumes "quiet A env False p s" and "\<And>e t. eval_grows s t \<Longrightarrow> quiet A env Z (h e) t"
  shows "quiet A env Z (catchT p h) s"
  unfolding quiet_def
proof (intro allI er.catchT)
  fix g
  have "secure A env (kept A env False g) p g s"
    using assms(1) unfolding quiet_def by blast
  then show "secure A env (\<lambda>g1 r s. secure A env (kept A env Z g)
      (case r of Inl e \<Rightarrow> h e | Inr a \<Rightarrow> Ret (Inr a)) g1 s) p g s"
    by (rule er.mono) (use assms(2) in \<open>auto simp: quiet_def kept_def split: sum.split\<close>)
qed

lemma quiet_call:
  assumes "\<And>t M. eval_grows s t \<Longrightarrow> eval_inv env M t \<Longrightarrow>
      eval_inv env M (snd (m t)) \<and> eval_grows t (snd (m t)) \<and> (Z \<longrightarrow> (\<exists>a. fst (m t) = Inr a))"
  shows "quiet A env Z (callT m) s"
proof -
  have "\<exists>a. fst (m t) = Inr a" if "Z" "eval_grows s t" "eval_inv env M t" for t M
    using assms [OF that(2,3)] that(1) by blast
  then show ?thesis
    using assms unfolding quiet_def kept_def callT_def
    by (fastforce simp: throwT_def retT_def nice_def split: option.split sum.split)
qed

lemma quiet_read [quiet_intros]: "quiet A env Z (readT f) s"
  unfolding readT_def by (rule quiet_call) simp

lemma quiet_update:
  assumes "\<And>t M. eval_grows s t \<Longrightarrow> eval_inv env M t \<Longrightarrow> eval_inv env M (u t) \<and> eval_grows t (u t)"
  shows "quiet A env Z (updateT u) s"
  unfolding updateT_def by (rule quiet_call) (simp add: assms)

lemma quiet_clock [quiet_intros]: "quiet A env Z clockT s"
  by (fastforce simp: quiet_def kept_def clockT_def retT_def)

lemma quiet_uuid [quiet_intros]: "quiet A env Z uuidT s"
  by (fastforce simp: quiet_def kept_def uuidT_def retT_def)

lemma quiet_external [quiet_intros]: "quiet A env False externalT s"
  by (fastforce simp: quiet_def kept_def externalT_def retT_def throwT_def split: option.split)

lemma quiet_now [quiet_intros]: "quiet A env Z (nowT env') s"
  unfolding nowT_def by (intro quiet_intros)

lemma quiet_mint [quiet_intros]: "quiet A env Z mintRunId s"
  unfolding mintRunId_def by (intro quiet_intros)

lemma quiet_if [quiet_intros]:
  "(b \<Longrightarrow> quiet A env Z p s) \<Longrightarrow> (\<not> b \<Longrightarrow> quiet A env Z q s) \<Longrightarrow> quiet A env Z (if b then p else q) s"
  by simp

lemma quiet_case_option [quiet_intros]:
  "(x = None \<Longrightarrow> quiet A env Z p s) \<Longrightarrow> (\<And>y. x = Some y \<Longrightarrow> quiet A env Z (q y) s) \<Longrightarrow>
    quiet A env Z (case x of None \<Rightarrow> p | Some y \<Rightarrow> q y) s"
  by (cases x) auto

lemma quiet_for [quiet_intros]:
  "(\<And>x t. x \<in> set xs \<Longrightarrow> eval_grows s t \<Longrightarrow> quiet A env Z (h x) t) \<Longrightarrow> quiet A env Z (forT xs h) s"
proof (induction xs arbitrary: s)
  case (Cons x xs)
  show ?case
    unfolding forT.simps
    by (rule quiet_bind) (auto intro!: Cons.prems Cons.IH intro: eval_grows_trans)
qed (simp add: quiet_intros)

lemma quiet_grows: "quiet A env Z p s \<Longrightarrow> eval_grows s t \<Longrightarrow> quiet A env Z p t"
  unfolding quiet_def kept_def by (blast intro: er.grows)

section \<open>Composition\<close>

lemma settles_ret: "free A env g \<Longrightarrow> settles A env (retT a) g s"
  by (simp add: settles_def owes_nothing_def retT_def)

lemma settles_quiet: "quiet A env Z p s \<Longrightarrow> free A env g \<Longrightarrow> settles A env p g s"
  unfolding quiet_def settles_def by (erule allE [of _ g], rule er.mono, assumption, auto simp: kept_def owes_nothing_def)

lemma settles_bind_quiet:
  assumes "quiet A env Z p s" and "Z \<or> free A env g" and "\<And>a t. eval_grows s t \<Longrightarrow> settles A env (h a) g t"
  shows "settles A env (bindT p h) g s"
  unfolding settles_def
proof (rule er.bindT)
  have "secure A env (kept A env Z g) p g s"
    using assms(1) unfolding quiet_def by blast
  then show "secure A env (\<lambda>g r s. secure A env (owes_nothing A env) (case r of Inl e \<Rightarrow> Ret (Inl e) | Inr a \<Rightarrow> h a) g s) p g s"
    by (rule er.mono) (use assms(2,3) in \<open>auto simp: settles_def owes_nothing_def kept_def free_def split: sum.split\<close>)
qed

text \<open>What a call answers is known when the thread goes on.\<close>

lemma settles_bind_call:
  assumes "\<And>t M. eval_grows s t \<Longrightarrow> eval_inv env (g + M) t \<Longrightarrow>
      (case m t of
         (Inl e, t') \<Rightarrow> t' = t \<and> free A env g
       | (Inr a, t') \<Rightarrow> \<exists>g'. eval_inv env (g' + M) t' \<and> eval_grows t t' \<and> settles A env (h a) g' t')"
  shows "settles A env (bindT (callT m) h) g s"
  unfolding settles_def
proof (rule er.bindT)
  let ?K = "\<lambda>g r t. secure A env (owes_nothing A env) (case r of Inl e \<Rightarrow> Ret (Inl e) | Inr a \<Rightarrow> h a) g t"
  show "secure A env ?K (callT m) g s"
    unfolding callT_def
  proof (subst safe.simps, intro allI impI)
    fix t f M
    assume f: "A f" and "eval_grows s t" and "eval_inv env (\<Sum>\<^sub># (add_mset g M)) t"
    then have inv: "eval_inv env (g + \<Sum>\<^sub># M) t"
      by simp
    note step = assms [OF \<open>eval_grows s t\<close> inv]
    show "\<exists>g'. eval_inv env (\<Sum>\<^sub># (add_mset g' M))
         (case rp_fault f of None \<Rightarrow> snd (m t) | Some (applied, e) \<Rightarrow> if applied then snd (m t) else t) \<and>
        eval_grows t (case rp_fault f of None \<Rightarrow> snd (m t) | Some (applied, e) \<Rightarrow> if applied then snd (m t) else t) \<and>
        secure A env ?K (case rp_fault f of None \<Rightarrow> (case fst (m t) of Inl e \<Rightarrow> throwT (Sdk e) | Inr a \<Rightarrow> retT a)
           | Some (applied, e) \<Rightarrow> throwT (Sdk e)) g'
         (case rp_fault f of None \<Rightarrow> snd (m t) | Some (applied, e) \<Rightarrow> if applied then snd (m t) else t)"
    proof (cases "rp_fault f")
      case None
      show ?thesis
      proof (cases "fst (m t)")
        case (Inl e)
        with step have "snd (m t) = t" and "free A env g"
          by (auto split: prod.splits)
        with Inl None inv show ?thesis
          by (intro exI [of _ g]) (auto simp: throwT_def owes_nothing_def free_def)
      next
        case (Inr a)
        with step obtain g' where "eval_inv env (g' + \<Sum>\<^sub># M) (snd (m t))" "eval_grows t (snd (m t))"
            "settles A env (h a) g' (snd (m t))"
          by (auto split: prod.splits)
        with Inr None show ?thesis
          by (intro exI [of _ g']) (auto simp: retT_def settles_def intro: er.grows)
      qed
    next
      case (Some x)
      have "\<not> nice A env"
        using f Some by (auto simp: nice_def)
      moreover have "\<exists>g'. eval_inv env (g' + \<Sum>\<^sub># M) (snd (m t)) \<and> eval_grows t (snd (m t))"
        using step inv by (cases "m t") (auto split: sum.splits)
      ultimately show ?thesis
        using inv Some by (cases x) (auto simp: throwT_def owes_nothing_def free_def)
    qed
  qed
qed

lemma settles_bind_unless:
  assumes step: "\<And>t M. eval_grows s t \<Longrightarrow> eval_inv env (g + M) t \<Longrightarrow>
      (case m t of
         (Inl e, t') \<Rightarrow> t' = t \<and> e = ConditionalCheckFailedException \<and> settles A env (h None) g t
       | (Inr a, t') \<Rightarrow> \<exists>g'. eval_inv env (g' + M) t' \<and> eval_grows t t' \<and> settles A env (h (Some a)) g' t')"
    and lost: "\<And>g' t. \<not> nice A env \<Longrightarrow> eval_grows s t \<Longrightarrow> settles A env (h None) g' t"
  shows "settles A env (bindT (unless_exists (callT m)) h) g s"
  unfolding settles_def unless_bind
proof (subst safe.simps, intro allI impI)
  fix t M and f :: reply
  let ?t = "case rp_fault f of None \<Rightarrow> snd (m t) | Some (applied, e) \<Rightarrow> if applied then snd (m t) else t"
  let ?p = "case (case rp_fault f of None \<Rightarrow> fst (m t) | Some (applied, e) \<Rightarrow> Inl e) of
         Inl e \<Rightarrow> if e = ConditionalCheckFailedException then h None else throwT (Sdk e)
       | Inr a \<Rightarrow> h (Some a)"
  assume f: "A f" and grow: "eval_grows s t" and "eval_inv env (\<Sum>\<^sub># (add_mset g M)) t"
  then have inv: "eval_inv env (g + \<Sum>\<^sub># M) t"
    by simp
  note step = step [OF grow inv]
  show "\<exists>g'. eval_inv env (\<Sum>\<^sub># (add_mset g' M)) ?t \<and> eval_grows t ?t \<and> secure A env (owes_nothing A env) ?p g' ?t"
  proof (cases "rp_fault f")
    case None
    with step inv show ?thesis
      by (cases "m t") (auto simp: settles_def split: sum.splits)
  next
    case (Some x)
    then have "\<not> nice A env"
      using f by (auto simp: nice_def)
    have "\<exists>g'. eval_inv env (g' + \<Sum>\<^sub># M) (snd (m t)) \<and> eval_grows t (snd (m t))"
      using step inv by (cases "m t") (auto split: sum.splits)
    with inv Some obtain g' where g': "eval_inv env (g' + \<Sum>\<^sub># M) ?t" "eval_grows t ?t"
      by (cases "fst x") (auto simp: case_prod_beta)
    with \<open>\<not> nice A env\<close> have "settles A env (h None) g' ?t" "\<And>e. settles A env (throwT e :: 'b handler) g' ?t"
      using lost [of ?t g'] grow eval_grows_trans by (auto simp: settles_def owes_nothing_def free_def throwT_def)
    with g' Some show ?thesis
      by (intro exI [of _ g']) (auto simp: settles_def split: prod.split)
  qed
qed

text \<open>A thread that brings about a stable property of the state.\<close>

definition reaches ::
  "(reply \<Rightarrow> bool) \<Rightarrow> eval_env \<Rightarrow> (eval_db \<Rightarrow> bool) \<Rightarrow> 'a handler \<Rightarrow> eval_db \<Rightarrow> bool" where
  "reaches A env P p s \<longleftrightarrow> (\<forall>g. secure A env (\<lambda>g' r t. g' = g \<and> ((\<exists>a. r = Inr a) \<longrightarrow> P t)) p g s)"

lemma reaches_bind:
  assumes "quiet A env False p s" and "\<And>a t. eval_grows s t \<Longrightarrow> reaches A env P (h a) t"
  shows "reaches A env P (bindT p h) s"
  unfolding reaches_def
proof (intro allI er.bindT)
  fix g
  have "secure A env (kept A env False g) p g s"
    using assms(1) unfolding quiet_def by blast
  then show "secure A env (\<lambda>g1 r s. secure A env (\<lambda>g' r t. g' = g \<and> ((\<exists>a. r = Inr a) \<longrightarrow> P t))
      (case r of Inl e \<Rightarrow> Ret (Inl e) | Inr a \<Rightarrow> h a) g1 s) p g s"
    by (rule er.mono) (use assms(2) in \<open>auto simp: reaches_def kept_def split: sum.split\<close>)
qed

lemma reaches_catch:
  assumes "reaches A env P p s" and "\<And>e t. eval_grows s t \<Longrightarrow> reaches A env P (h e) t"
    and stable: "\<And>t u. P t \<Longrightarrow> eval_grows t u \<Longrightarrow> P u"
  shows "reaches A env P (catchT p h) s"
  unfolding reaches_def
proof (intro allI er.catchT)
  fix g
  have "secure A env (\<lambda>g' r t. g' = g \<and> ((\<exists>a. r = Inr a) \<longrightarrow> P t)) p g s"
    using assms(1) unfolding reaches_def by blast
  then show "secure A env (\<lambda>g1 r s. secure A env (\<lambda>g' r t. g' = g \<and> ((\<exists>a. r = Inr a) \<longrightarrow> P t))
      (case r of Inl e \<Rightarrow> h e | Inr a \<Rightarrow> Ret (Inr a)) g1 s) p g s"
    by (rule er.mono) (use assms(2) stable in \<open>auto simp: reaches_def split: sum.split\<close>)
qed

lemma reaches_update:
  assumes "\<And>t M. eval_grows s t \<Longrightarrow> eval_inv env M t \<Longrightarrow>
      eval_inv env M (u t) \<and> eval_grows t (u t) \<and> P (u t)"
    and stable: "\<And>t u. P t \<Longrightarrow> eval_grows t u \<Longrightarrow> P u"
  shows "reaches A env P (updateT u) s"
  unfolding reaches_def updateT_def callT_def
  using assms by (fastforce simp: throwT_def retT_def split: option.split)

lemma settles_bind_reaches:
  assumes "reaches A env P p s" and "free A env g" and "\<And>a t. eval_grows s t \<Longrightarrow> P t \<Longrightarrow> settles A env (h a) g t"
  shows "settles A env (bindT p h) g s"
  unfolding settles_def
proof (rule er.bindT)
  have "secure A env (\<lambda>g' r t. g' = g \<and> ((\<exists>a. r = Inr a) \<longrightarrow> P t)) p g s"
    using assms(1) unfolding reaches_def by blast
  then show "secure A env (\<lambda>g r s. secure A env (owes_nothing A env) (case r of Inl e \<Rightarrow> Ret (Inl e) | Inr a \<Rightarrow> h a) g s) p g s"
    by (rule er.mono) (use assms(2,3) in \<open>auto simp: settles_def owes_nothing_def split: sum.split\<close>)
qed

lemma settles_bind:
  assumes "settles A env p g s" and "\<And>a t g'. eval_grows s t \<Longrightarrow> free A env g' \<Longrightarrow> settles A env (h a) g' t"
  shows "settles A env (bindT p h) g s"
  unfolding settles_def
proof (rule er.bindT)
  have "secure A env (owes_nothing A env) p g s"
    using assms(1) unfolding settles_def by blast
  then show "secure A env (\<lambda>g r s. secure A env (owes_nothing A env) (case r of Inl e \<Rightarrow> Ret (Inl e) | Inr a \<Rightarrow> h a) g s) p g s"
    by (rule er.mono) (use assms(2) in \<open>auto simp: settles_def owes_nothing_def split: sum.split\<close>)
qed

lemma settles_bind_sure:
  "quiet A env True p s \<Longrightarrow> (\<And>a t. eval_grows s t \<Longrightarrow> settles A env (h a) g t) \<Longrightarrow> settles A env (bindT p h) g s"
  by (rule settles_bind_quiet [where Z = True]) auto

lemma settles_bind_free:
  "quiet A env False p s \<Longrightarrow> free A env g \<Longrightarrow> (\<And>a t. eval_grows s t \<Longrightarrow> settles A env (h a) g t) \<Longrightarrow>
    settles A env (bindT p h) g s"
  by (rule settles_bind_quiet [where Z = False]) auto

lemma settles_bind_read:
  assumes "\<And>t M. eval_grows s t \<Longrightarrow> eval_inv env (g + M) t \<Longrightarrow> settles A env (h (f t)) g t" and "free A env g"
  shows "settles A env (bindT (readT f) h) g s"
  unfolding readT_def by (rule settles_bind_call) (use assms in auto)

lemma settles_grows: "settles A env p g s \<Longrightarrow> eval_grows s t \<Longrightarrow> settles A env p g t"
  unfolding settles_def by (rule er.grows)

lemma quiet_bind_read:
  assumes "\<And>t M. eval_grows s t \<Longrightarrow> eval_inv env M t \<Longrightarrow> quiet A env Z (h (f t)) t"
  shows "quiet A env Z (bindT (readT f) h) s"
proof -
  have eq: "bindT (readT f) h = Act (\<lambda>x s. s)
      (\<lambda>x s. case rp_fault x of None \<Rightarrow> h (f s) | Some (applied, e) \<Rightarrow> throwT (Sdk e))"
    by (auto simp: readT_def callT_bind fun_eq_iff split: option.split)
  have "secure A env (kept A env Z g) (case rp_fault x of None \<Rightarrow> h (f t) | Some (applied, e) \<Rightarrow> throwT (Sdk e)) g t"
    if "A x" "eval_grows s t" "eval_inv env M t" for x t M g
    using assms [OF that(2,3)] that(1)
    by (auto simp: quiet_def kept_def throwT_def nice_def split: option.split)
  then show ?thesis
    unfolding quiet_def eq by (auto intro!: exI)
qed

lemma quiet_unless [quiet_intros]:
  "quiet A env False p s \<Longrightarrow> quiet A env False (unless_exists p) s"
  unfolding unless_exists_def by (intro quiet_intros)


end
