(* ===== verification/EvalRunHandlers.thy ===== *)
theory EvalRunHandlers
  imports EvalRunThreads
begin

text \<open>
  Every handler of evaluation runs settles: completion, conversation worker, workflow completion,
  sweep of the timeouts, dispatch and start.
\<close>

section \<open>The handlers\<close>

definition has_case :: "string \<times> string \<Rightarrow> eval_db \<Rightarrow> bool" where
  "has_case k s \<longleftrightarrow> tbl_get (ed_results s) k \<noteq> None"

definition done_case :: "string \<times> string \<Rightarrow> eval_db \<Rightarrow> bool" where
  "done_case k s \<longleftrightarrow> (\<exists>row. tbl_get (ed_results s) k = Some row \<and> terminal row)"

definition kind_of :: "string \<times> string \<Rightarrow> eval_case_kind option \<Rightarrow> eval_db \<Rightarrow> bool" where
  "kind_of k kind s \<longleftrightarrow> (\<exists>row. tbl_get (ed_results s) k = Some row \<and> res_caseKind row = kind)"

lemma kind_of_grows: "kind_of k kind s \<Longrightarrow> eval_grows s t \<Longrightarrow> kind_of k kind t"
  unfolding kind_of_def using eval_growsD(1) [of s t k] by (fastforce simp: row_grows_def)

lemma has_case_kind: "has_case k s \<longleftrightarrow> (\<exists>kind. kind_of k kind s)"
  by (auto simp: has_case_def kind_of_def)

lemma has_case_grows: "has_case k s \<Longrightarrow> eval_grows s t \<Longrightarrow> has_case k t"
  unfolding has_case_def using eval_growsD(1) by blast

lemma done_case_grows: "done_case k s \<Longrightarrow> eval_grows s t \<Longrightarrow> done_case k t"
  unfolding done_case_def using eval_growsD(1) row_grows_def by blast

lemma done_has_case: "done_case k s \<Longrightarrow> has_case k s"
  by (auto simp: done_case_def has_case_def)

lemma quiet_update_kind:
  assumes "kind_of k kind s"
    and "\<And>row. res_caseKind row = kind \<Longrightarrow> res_completionRecorded (f row) = res_completionRecorded row \<and>
      row_grows row (f row) \<and> (conv_ok row \<longrightarrow> conv_ok (f row))"
  shows "quiet A env Z (updateT (update_result k f)) s"
proof (rule quiet_update)
  fix t M assume "eval_grows s t" and inv: "eval_inv env M t"
  then have "kind_of k kind t"
    using assms(1) kind_of_grows by blast
  then obtain row where row: "tbl_get (ed_results t) k = Some row" "res_caseKind row = kind"
    by (auto simp: kind_of_def)
  show "eval_inv env M (update_result k f t) \<and> eval_grows t (update_result k f t)"
    by (rule plain_update [OF inv row(1)]) (use assms(2) [OF row(2)] in auto)
qed

lemma quiet_update_result:
  assumes "has_case k s"
    and "\<And>row. res_completionRecorded (f row) = res_completionRecorded row \<and>
      row_grows row (f row) \<and> (conv_ok row \<longrightarrow> conv_ok (f row))"
  shows "quiet A env Z (updateT (update_result k f)) s"
  using assms by (auto simp: has_case_kind intro: quiet_update_kind)

lemma quiet_emit [quiet_intros]: "(\<And>r. \<not> completes r e) \<Longrightarrow> quiet A env Z (emitT e) s"
  unfolding emitT_def by (rule quiet_update, rule unseen_update) (auto simp: announced_def eval_inv_def)

lemma quiet_artifact [quiet_intros]: "quiet A env Z (materializeEvalCaseArtifact r c) s"
  unfolding materializeEvalCaseArtifact_def
  by (intro quiet_intros quiet_update unseen_update) (auto simp: announced_def eval_inv_def)

lemma quiet_materialize:
  assumes "has_case (r, c) s"
  shows "quiet A env Z (materializeArtifactIfCompleted r c) s"
  unfolding materializeArtifactIfCompleted_def Let_def
  by (intro quiet_intros quiet_update_result has_case_grows [OF assms])
    (auto simp: row_grows_def terminal_def conv_ok_def intro: eval_grows_trans)

lemma quiet_case_event [quiet_intros]: "quiet A env Z (emit_case_completed r c) s"
  unfolding emit_case_completed_def by (intro quiet_intros) auto

lemma quiet_counts [quiet_intros]: "quiet A env Z (computeCaseCounts r) s"
  unfolding computeCaseCounts_def by (intro quiet_intros)

lemma quiet_duration:
  assumes "nice A env \<longrightarrow> nonempty_str (rr_startedAt run) \<longrightarrow> ee_date_parse env (the (rr_startedAt run)) \<noteq> None"
  shows "quiet A env True (run_duration env run) s"
proof (cases "nonempty_str (rr_startedAt run)")
  case True
  with assms show ?thesis
    unfolding run_duration_def by (cases "ee_date_parse env (the (rr_startedAt run))") (auto intro!: quiet_intros quiet_throwI)
qed (auto simp: run_duration_def bindT_assoc intro!: quiet_intros)

text \<open>The last steps of whoever finalizes a run.\<close>

lemma settles_announce:
  assumes "is_completed r s" and "free A env g" and e: "\<And>j. completes j e \<longleftrightarrow> j = r"
  shows "settles A env (catchT (emitT e) (\<lambda>err. retT ())) (add_mset (Finalizing r) g) s"
proof -
  let ?u = "\<lambda>s. s\<lparr>ed_events := ed_events s @ [e]\<rparr>"
  have eq: "catchT (emitT e) (\<lambda>err. retT ()) = Act
      (\<lambda>f s. case rp_fault f of None \<Rightarrow> ?u s | Some (applied, e) \<Rightarrow> if applied then ?u s else s) (\<lambda>f s. retT ())"
    by (auto simp: emitT_def updateT_def callT_def catchT_def throwT_def retT_def fun_eq_iff split: option.split)
  show ?thesis
    unfolding settles_def eq
  proof (subst safe.simps, intro allI impI)
    fix t :: eval_db and M and f :: reply
    let ?t = "case rp_fault f of None \<Rightarrow> ?u t | Some (applied, e) \<Rightarrow> if applied then ?u t else t"
    assume "eval_grows s t" and "eval_inv env (\<Sum>\<^sub># (add_mset (add_mset (Finalizing r) g) M)) t"
    then have inv: "eval_inv env (add_mset (Finalizing r) (g + \<Sum>\<^sub># M)) t" and completed: "is_completed r t"
      using assms(1) is_completed_grows by auto
    have "?t = ?u t \<or> ?t = t"
      by (auto split: option.splits)
    then have "eval_inv env (\<Sum>\<^sub># (add_mset g M)) ?t \<and> eval_grows t ?t"
      using announce_update [OF inv completed e] release_finalizing [OF inv completed] by auto
    then show "\<exists>g'. eval_inv env (\<Sum>\<^sub># (add_mset g' M)) ?t \<and> eval_grows t ?t \<and>
        secure A env (owes_nothing A env) (retT ()) g' ?t"
      using assms(2) by (intro exI [of _ g]) (simp add: retT_def owes_nothing_def)
  qed
qed

lemma settles_finalize:
  assumes "free A env g" and run: "tbl_get (ed_runs s) r \<noteq> None"
    and date: "nice A env \<longrightarrow> nonempty_str (rr_startedAt run) \<longrightarrow> ee_date_parse env (the (rr_startedAt run)) \<noteq> None"
  shows "settles A env (finalize_run env r run) (add_mset (Finalizing r) g) s"
  unfolding finalize_run_def
proof (intro settles_bind_sure [OF quiet_now] settles_bind_sure [OF quiet_duration [OF date]])
  fix now t ms u
  assume "eval_grows s t" "eval_grows t u"
  then have some: "\<exists>row. tbl_get (ed_runs v) r = Some row" if "eval_grows u v" for v
    using run that eval_grows_trans eval_growsD(2) by (metis not_None_eq)
  let ?f = "\<lambda>x. x\<lparr>rr_status := Some RUN_COMPLETED, rr_completedAt := Some now, rr_durationMs := Some ms\<rparr>"
  show "settles A env (bindT (updateT (update_run r ?f)) (\<lambda>_. bindT (computeCaseCounts r) (\<lambda>counts.
      catchT (emitT (Eval_run_completed r (rr_suiteId run) (rr_orgId run) counts now ms)) (\<lambda>err. retT ()))))
      (add_mset (Finalizing r) g) u"
    unfolding updateT_def
  proof (rule settles_bind_call)
    fix v M assume v: "eval_grows u v" and inv: "eval_inv env (add_mset (Finalizing r) g + M) v"
    from some [OF v] obtain row where row: "tbl_get (ed_runs v) r = Some row" ..
    have "is_completed r (update_run r ?f v)"
      using row by (simp add: is_completed_def)
    then have "settles A env (bindT (computeCaseCounts r) (\<lambda>counts.
        catchT (emitT (Eval_run_completed r (rr_suiteId run) (rr_orgId run) counts now ms)) (\<lambda>err. retT ())))
        (add_mset (Finalizing r) g) (update_run r ?f v)"
      using assms(1) is_completed_grows
      by (intro settles_bind_sure [OF quiet_counts] settles_announce) auto
    moreover have "eval_inv env (add_mset (Finalizing r) g + M) (update_run r ?f v) \<and> eval_grows v (update_run r ?f v)"
      using complete_update [of env r "g + M" v row ?f] inv row by simp
    ultimately show "case (Inr (), update_run r ?f v) of
        (Inl e, t') \<Rightarrow> t' = v \<and> free A env (add_mset (Finalizing r) g)
      | (Inr a, t') \<Rightarrow> \<exists>g'. eval_inv env (g' + M) t' \<and> eval_grows v t' \<and>
          settles A env (bindT (computeCaseCounts r) (\<lambda>counts.
            catchT (emitT (Eval_run_completed r (rr_suiteId run) (rr_orgId run) counts now ms)) (\<lambda>err. retT ()))) g' t'"
      by (auto intro!: exI [of _ "add_mset (Finalizing r) g"])
  qed
qed

lemma settles_owed:
  assumes "free A env g" and case_there: "has_case (r, c) s"
  shows "settles A env
    (bindT (materializeArtifactIfCompleted r c) (\<lambda>_. bindT (emit_case_completed r c) (\<lambda>_.
     bindT (callT (decrement_pending r)) (\<lambda>run.
     if (case rr_pendingCases run of Some n \<Rightarrow> n > 0 | None \<Rightarrow> False) then retT ()
     else finalize_run env r run))))
    (add_mset (Owes r) g) s"
proof (intro settles_bind_sure [OF quiet_materialize [OF case_there]] settles_bind_sure [OF quiet_case_event]
    settles_bind_call)
  fix t u v M
  assume "eval_grows s t" "eval_grows t u" "eval_grows u v" and inv: "eval_inv env (add_mset (Owes r) g + M) v"
  then have "has_case (r, c) v"
    using case_there has_case_grows by blast
  then obtain x where "tbl_get (ed_results v) (r, c) = Some x"
    by (auto simp: has_case_def)
  from result_has_run [OF inv this] obtain row where row: "tbl_get (ed_runs v) r = Some row" ..
  let ?row = "decrement row" and ?v = "update_run r decrement v"
  have dec: "decrement_pending r v = (Inr ?row, ?v)"
    using row by (simp add: decrement_pending_def Let_def)
  have "eval_inv env (add_mset (Owes r) (g + M)) v"
    using inv by simp
  note step = decrement_update [OF this row]
  from step obtain n where n: "rr_pendingCases ?row = Some n" "0 \<le> n"
    by blast
  have "settles A env (finalize_run env r ?row) (add_mset (Finalizing r) g) ?v"
    using assms(1) step row by (intro settles_finalize) (auto simp: nice_def decrement_def)
  then have "settles A env (if (case rr_pendingCases ?row of Some n \<Rightarrow> n > 0 | None \<Rightarrow> False) then retT ()
      else finalize_run env r ?row) (after_decrement r ?row + g) ?v"
    using n assms(1) by (auto simp: after_decrement_def intro: settles_ret)
  then show "case decrement_pending r v of
      (Inl e, t') \<Rightarrow> t' = v \<and> free A env (add_mset (Owes r) g)
    | (Inr a, t') \<Rightarrow> \<exists>g'. eval_inv env (g' + M) t' \<and> eval_grows v t' \<and>
        settles A env (if (case rr_pendingCases a of Some n \<Rightarrow> n > 0 | None \<Rightarrow> False) then retT ()
          else finalize_run env r a) g' t'"
    unfolding dec using step by (auto simp: ac_simps intro!: exI [of _ "after_decrement r ?row + g"])
qed

lemma settles_record:
  assumes "done_case (r, c) s" and "free A env g"
  shows "settles A env (recordCaseCompletion env r c) g s"
  unfolding recordCaseCompletion_def
proof (rule settles_bind_unless)
  fix t :: eval_db and M
  assume grow: "eval_grows s t" and inv: "eval_inv env (g + M) t"
  then obtain row where row: "tbl_get (ed_results t) (r, c) = Some row" "terminal row"
    using assms(1) done_case_grows unfolding done_case_def by blast
  let ?t = "update_result (r, c) (\<lambda>x. x\<lparr>res_completionRecorded := True\<rparr>) t"
  show "case record_completion r c t of
      (Inl e, t') \<Rightarrow> t' = t \<and> e = ConditionalCheckFailedException \<and>
        settles A env (case None of None \<Rightarrow> retT () | Some _ \<Rightarrow>
         bindT (materializeArtifactIfCompleted r c) (\<lambda>_. bindT (emit_case_completed r c) (\<lambda>_.
         bindT (callT (decrement_pending r)) (\<lambda>run.
         if (case rr_pendingCases run of Some n \<Rightarrow> n > 0 | None \<Rightarrow> False) then retT () else finalize_run env r run)))) g t
    | (Inr a, t') \<Rightarrow> \<exists>g'. eval_inv env (g' + M) t' \<and> eval_grows t t' \<and>
        settles A env (case Some a of None \<Rightarrow> retT () | Some _ \<Rightarrow>
         bindT (materializeArtifactIfCompleted r c) (\<lambda>_. bindT (emit_case_completed r c) (\<lambda>_.
         bindT (callT (decrement_pending r)) (\<lambda>run.
         if (case rr_pendingCases run of Some n \<Rightarrow> n > 0 | None \<Rightarrow> False) then retT () else finalize_run env r run)))) g' t'"
  proof (cases "res_completionRecorded row")
    case True
    with row assms(2) show ?thesis
      by (simp add: record_completion_def settles_ret)
  next
    case False
    have "has_case (r, c) ?t"
      using row by (simp add: has_case_def)
    from settles_owed [OF assms(2) this] record_update [OF inv row(1) False row(2)] show ?thesis
      using row False by (auto simp: record_completion_def intro!: exI [of _ "add_mset (Owes r) g"])
  qed
qed (auto simp: free_def intro: settles_ret)

lemma settles_for:
  assumes "free A env g"
    and "\<And>x t g. x \<in> set xs \<Longrightarrow> eval_grows s t \<Longrightarrow> free A env g \<Longrightarrow> settles A env (h x) g t"
  shows "settles A env (forT xs h) g s"
  using assms
proof (induction xs arbitrary: g s)
  case (Cons x xs)
  show ?case
    unfolding forT.simps
  proof (rule settles_bind)
    show "settles A env (h x) g s"
      using Cons.prems by (metis eval_grows_refl list.set_intros(1))
    fix a t g'
    assume "eval_grows s t" and "free A env g'"
    with Cons.prems show "settles A env (forT xs h) g' t"
      by (intro Cons.IH) (auto intro: eval_grows_trans)
  qed
qed (auto intro: settles_ret)

lemma terminal_mark: "st \<in> {CASE_COMPLETED, CASE_FAILED, CASE_TIMEOUT} \<Longrightarrow> (\<And>r. res_status (extra r) = res_status r) \<Longrightarrow>
    terminal (extra (r\<lparr>res_status := Some st, res_completedAt := Some now\<rparr>))"
  by (simp add: terminal_def)

definition may_time_out :: "eval_case_status \<Rightarrow> eval_case_kind option \<Rightarrow> bool" where
  "may_time_out st kind \<longleftrightarrow> st \<in> {CASE_COMPLETED, CASE_FAILED} \<or> st = CASE_TIMEOUT \<and> kind \<noteq> Some CONVERSATION"

lemma reaches_mark:
  assumes "kind_of k kind s" and st: "may_time_out st kind"
    and extra: "\<And>r. res_status (extra r) = res_status r \<and> res_completionRecorded (extra r) = res_completionRecorded r \<and>
      res_caseKind (extra r) = res_caseKind r \<and> res_deadlineAt (extra r) = res_deadlineAt r"
  shows "reaches A env (done_case k) (updateT (mark_terminal k st now extra)) s"
proof (rule reaches_update)
  fix t M
  assume "eval_grows s t" and inv: "eval_inv env M t"
  then have "kind_of k kind t"
    using assms(1) kind_of_grows by blast
  then obtain row where row: "tbl_get (ed_results t) k = Some row" "res_caseKind row = kind"
    by (auto simp: kind_of_def)
  have "terminal (extra (row\<lparr>res_status := Some st, res_completedAt := Some now\<rparr>))"
    using st extra by (intro terminal_mark) (auto simp: may_time_out_def)
  then show "eval_inv env M (mark_terminal k st now extra t) \<and>
      eval_grows t (mark_terminal k st now extra t) \<and> done_case k (mark_terminal k st now extra t)"
    using row st extra plain_update [OF inv row(1)]
    by (auto simp: mark_terminal_def row_grows_def done_case_def conv_ok_def may_time_out_def)
qed (rule done_case_grows)

lemma settles_mark_record:
  assumes "kind_of (r, c) kind s" and "may_time_out st kind"
    and "\<And>r. res_status (extra r) = res_status r \<and> res_completionRecorded (extra r) = res_completionRecorded r \<and>
      res_caseKind (extra r) = res_caseKind r \<and> res_deadlineAt (extra r) = res_deadlineAt r"
    and "free A env g"
  shows "settles A env (bindT (updateT (mark_terminal (r, c) st now extra)) (\<lambda>_. recordCaseCompletion env r c)) g s"
  by (rule settles_bind_reaches [OF reaches_mark]) (use assms in \<open>auto intro: settles_record\<close>)

lemma quiet_getAgentConfig [quiet_intros]: "quiet A env False (getAgentConfig a) s"
  unfolding getAgentConfig_def by (intro quiet_intros)

lemma quiet_transcript [quiet_intros]: "quiet A env Z (writeConversationTranscript env' d text) s"
  unfolding writeConversationTranscript_def
  by (intro quiet_intros quiet_update unseen_update) (auto simp: announced_def eval_inv_def)

lemma reaches_terminal:
  assumes "has_case (r, c) s" and "st \<in> {CASE_COMPLETED, CASE_FAILED}"
    and "\<And>r. res_status (extra r) = res_status r \<and> res_completionRecorded (extra r) = res_completionRecorded r \<and>
      res_caseKind (extra r) = res_caseKind r \<and> res_deadlineAt (extra r) = res_deadlineAt r"
  shows "reaches A env (done_case (r, c)) (markCaseTerminal env' r c st extra) s"
proof -
  obtain kind where "kind_of (r, c) kind s"
    using assms(1) by (auto simp: has_case_kind)
  then show ?thesis
    unfolding markCaseTerminal_def
    by (intro reaches_bind [OF quiet_now], intro reaches_mark)
      (use assms in \<open>auto simp: may_time_out_def intro: kind_of_grows\<close>)
qed

text \<open>The attempt to run a conversation case ends in a terminal status, whatever happens in it.\<close>

lemma reaches_attempt:
  assumes "has_case (cd_evalRunId d, cd_caseId d) s"
  shows "reaches A env (done_case (cd_evalRunId d, cd_caseId d)) (catchT
       (bindT (getAgentConfig (cd_agentTargetId d)) (\<lambda>arn.
        bindT clockT (\<lambda>t0.
        bindT externalT (\<lambda>responseText.
        bindT clockT (\<lambda>t1.
        bindT (writeConversationTranscript env d responseText) (\<lambda>_.
        markCaseTerminal env (cd_evalRunId d) (cd_caseId d) CASE_COMPLETED
          (\<lambda>r. r\<lparr>res_latencyMs := Some (t1 - t0), res_startedAt := Some started,
             res_conversationId := Some (cd_caseId d)\<rparr>)))))))
       (\<lambda>err. markCaseTerminal env (cd_evalRunId d) (cd_caseId d) CASE_FAILED
          (\<lambda>r. r\<lparr>res_error := Some err, res_startedAt := Some started\<rparr>))) s"
proof (rule reaches_catch)
  note there = assms [THEN has_case_grows]
  show "reaches A env (done_case (cd_evalRunId d, cd_caseId d))
       (bindT (getAgentConfig (cd_agentTargetId d)) (\<lambda>arn.
        bindT clockT (\<lambda>t0.
        bindT externalT (\<lambda>responseText.
        bindT clockT (\<lambda>t1.
        bindT (writeConversationTranscript env d responseText) (\<lambda>_.
        markCaseTerminal env (cd_evalRunId d) (cd_caseId d) CASE_COMPLETED
          (\<lambda>r. r\<lparr>res_latencyMs := Some (t1 - t0), res_startedAt := Some started,
             res_conversationId := Some (cd_caseId d)\<rparr>))))))) s"
    by (intro reaches_bind quiet_intros reaches_terminal there) (auto, meson eval_grows_trans)
qed (use assms in \<open>auto intro: reaches_terminal has_case_grows done_case_grows\<close>)

lemma settles_conversation:
  assumes "has_case (cd_evalRunId d, cd_caseId d) s" and "free A env g"
  shows "settles A env (dispatchConversationCase env d) g s"
  unfolding dispatchConversationCase_def
proof (intro settles_bind_sure [OF quiet_mint] settles_bind_sure [OF quiet_now]
    settles_bind_reaches [OF reaches_attempt])
  fix x t started u
  assume "eval_grows s t" "eval_grows t u"
  with assms(1) show "has_case (cd_evalRunId d, cd_caseId d) u"
    by (blast intro: has_case_grows)
qed (use assms in \<open>auto intro: settles_record\<close>)

lemma settles_worker:
  assumes "\<And>d. d \<in> set ds \<Longrightarrow> has_case (cd_evalRunId d, cd_caseId d) s" and "free A env g"
  shows "settles A env (conversation_worker env ds) g s"
  unfolding conversation_worker_def
  by (rule settles_for) (use assms in \<open>auto intro: settles_conversation has_case_grows\<close>)

lemma case_results_has:
  assumes "eval_inv env M s" and "(k, row) \<in> set (case_results s r)"
  shows "has_case k s"
  using assms tbl.set_query [of "ed_results s"]
  by (auto simp: case_results_def has_case_def eval_inv_def)

lemma case_results_row:
  assumes "eval_inv env M s" and "(k, row) \<in> set (case_results s r)"
  shows "kind_of k (res_caseKind row) s \<and> conv_ok row"
  using assms tbl.set_query [of "ed_results s"]
  by (cases k) (auto simp: case_results_def kind_of_def eval_inv_def)

lemma settles_workflow:
  assumes "free A env g"
  shows "settles A env (handleWorkflowCompletion env ex outcome) g s"
  unfolding handleWorkflowCompletion_def
proof (rule settles_bind_free [OF quiet_read assms])
  fix found t
  show "settles A env (case found of None \<Rightarrow> retT () | Some e \<Rightarrow> if \<not> nonempty_str (exr_evalRunId e) then retT ()
      else bindT (readT (\<lambda>s. case_results s (the (exr_evalRunId e)))) (\<lambda>items.
        case find (\<lambda>i. res_executionId (snd i) = Some ex) items of
          None \<Rightarrow> retT ()
        | Some ((evalRunId, caseId), row) \<Rightarrow> bindT (nowT env) (\<lambda>now.
            bindT (updateT (mark_terminal (evalRunId, caseId)
              (if outcome = CASE_COMPLETED then CASE_COMPLETED else CASE_FAILED) now id)) (\<lambda>_.
            recordCaseCompletion env evalRunId caseId)))) g t"
  proof (cases found)
    case (Some e)
    have "settles A env (bindT (readT (\<lambda>s. case_results s r)) (\<lambda>items.
        case find (\<lambda>i. res_executionId (snd i) = Some ex) items of
          None \<Rightarrow> retT ()
        | Some ((evalRunId, caseId), row) \<Rightarrow> bindT (nowT env) (\<lambda>now.
            bindT (updateT (mark_terminal (evalRunId, caseId)
              (if outcome = CASE_COMPLETED then CASE_COMPLETED else CASE_FAILED) now id)) (\<lambda>_.
            recordCaseCompletion env evalRunId caseId)))) g t" for r
    proof (rule settles_bind_read [OF _ assms])
      fix u M
      assume inv: "eval_inv env (g + M) u"
      have "kind_of k (res_caseKind row) u" if "find (\<lambda>i. res_executionId (snd i) = Some ex) (case_results u r) = Some (k, row)" for k row
        using that case_results_row [OF inv, of k row r] by (auto simp: find_Some_iff)
      then show "settles A env (case find (\<lambda>i. res_executionId (snd i) = Some ex) (case_results u r) of
          None \<Rightarrow> retT ()
        | Some ((evalRunId, caseId), row) \<Rightarrow> bindT (nowT env) (\<lambda>now.
            bindT (updateT (mark_terminal (evalRunId, caseId)
              (if outcome = CASE_COMPLETED then CASE_COMPLETED else CASE_FAILED) now id)) (\<lambda>_.
            recordCaseCompletion env evalRunId caseId))) g u"
        using assms by (auto simp: may_time_out_def split: option.split
            intro!: settles_ret settles_bind_sure [OF quiet_now] settles_mark_record intro: kind_of_grows)
    qed
    with Some assms show ?thesis
      by (auto intro: settles_ret)
  qed (use assms in \<open>auto intro: settles_ret\<close>)
qed

lemma settles_sweep:
  assumes "free A env g"
  shows "settles A env (sweepTimeouts env) g s"
  unfolding sweepTimeouts_def listActiveRuns_def
proof (intro settles_bind_free [OF quiet_read assms] settles_bind_free [OF quiet_clock assms] settles_for assms)
  fix runs t now u run v g'
  assume g': "free A env g'"
  show "settles A env (bindT (readT (\<lambda>s. case_results s (fst run))) (\<lambda>cases. forT cases (sweep_case env now))) g' v"
  proof (rule settles_bind_read [OF _ g'], rule settles_for [OF g'])
    fix w M x z h
    assume inv: "eval_inv env (g' + M) w" and x: "x \<in> set (case_results w (fst run))" and grow: "eval_grows w z"
      and h: "free A env h"
    obtain r c row where eq: "x = ((r, c), row)"
      by (metis surj_pair)
    have "kind_of (r, c) (res_caseKind row) z" and conv: "conv_ok row"
      using case_results_row [OF inv] x grow kind_of_grows unfolding eq by blast+
    then have kind: "kind_of (r, c) (res_caseKind row) w" if "eval_grows z w" for w
      using kind_of_grows that by blast
    have "may_time_out CASE_TIMEOUT (res_caseKind row)" if "past_deadline env now row"
      using that conv by (auto simp: past_deadline_def conv_ok_def may_time_out_def nonempty_str_def)
    with h show "settles A env (sweep_case env now x) h z"
      by (auto simp: sweep_case_def eq intro!: settles_ret settles_bind_sure [OF quiet_now] settles_mark_record kind)
  qed
qed

lemma settles_runner: "free A env g \<Longrightarrow> settles A env (runner_handler env ev) g s"
  by (cases ev) (simp_all add: runner_handler_def settles_workflow settles_sweep)

lemma quiet_tryMark [quiet_intros]: "quiet A env False (tryMarkDispatched env' r c) s"
  unfolding tryMarkDispatched_def
proof (intro quiet_intros quiet_call)
  fix x t u M now
  assume inv: "eval_inv env M u"
  show "eval_inv env M (snd (mark_dispatched r c now u)) \<and> eval_grows u (snd (mark_dispatched r c now u)) \<and>
      (False \<longrightarrow> (\<exists>a. fst (mark_dispatched r c now u) = Inr a))"
    using inv plain_update [OF inv]
    by (auto simp: mark_dispatched_def row_grows_def terminal_def conv_ok_def split: option.split)
qed

lemma quiet_dispatch:
  assumes "kind_of (r, c) (res_caseKind row) s"
  shows "quiet A env Z (dispatch_case env' r su ag org limit c row) s"
proof -
  note kind = assms [THEN kind_of_grows]
  have exec: "quiet A env Z (dispatchExecutionCase env' r c org ag tools limit) t"
    if conv: "res_caseKind row \<noteq> Some CONVERSATION" and grow: "eval_grows s t" for tools t
    unfolding dispatchExecutionCase_def
    by (intro quiet_intros quiet_update_kind [where kind = "res_caseKind row"] quiet_update unseen_update kind)
      (use conv in \<open>auto simp: announced_def eval_inv_def row_grows_def terminal_def conv_ok_def intro: grow\<close>,
       (meson grow eval_grows_trans)?)
  have push: "quiet A env Z (updateT (\<lambda>s. s\<lparr>ed_queue := ed_queue s @ [d]\<rparr>)) t"
    if "eval_grows s t" "cd_evalRunId d = r" "cd_caseId d = c" for d t
  proof (rule quiet_update, rule unseen_update)
    fix u M e
    assume "eval_grows t u" and "e \<in> set (ed_queue (u\<lparr>ed_queue := ed_queue u @ [d]\<rparr>))"
    then show "e \<in> set (ed_queue u) \<or> tbl_get (ed_results u) (cd_evalRunId e, cd_caseId e) \<noteq> None"
      using kind [of u] that eval_grows_trans by (auto simp: kind_of_def)
  qed (auto simp: announced_def)
  show ?thesis
    unfolding dispatch_case_def Let_def
    by (intro quiet_intros exec push) (auto, meson eval_grows_trans)
qed

lemma quiet_fanOut: "quiet A env False (fanOutEvalRun env' r su ag org limit) s"
  unfolding fanOutEvalRun_def listPendingCases_def bindT_assoc bindT_ret
proof (rule quiet_bind_read, rule quiet_for)
  fix t u M and x :: "(string \<times> string) \<times> result_row"
  assume inv: "eval_inv env M t" and "x \<in> set (filter (\<lambda>i. is_status CASE_PENDING (snd i)) (case_results t r))"
    and grow: "eval_grows t u"
  then have "x \<in> set (case_results t r)"
    by simp
  moreover obtain k row where x: "x = (k, row)"
    by fastforce
  ultimately have "kind_of k (res_caseKind row) t" and "fst k = r"
    using case_results_row [OF inv] inv tbl.set_query [of "ed_results t"]
    by (auto simp: case_results_def eval_inv_def)
  then have "kind_of (r, snd k) (res_caseKind row) u"
    using grow kind_of_grows by (cases k) auto
  then show "quiet A env False (case x of (k, row) \<Rightarrow> bindT (tryMarkDispatched env' r (snd k)) (\<lambda>won.
      if \<not> won then retT () else dispatch_case env' r su ag org limit (snd k) row)) u"
    by (auto simp: x intro!: quiet_intros quiet_dispatch intro: kind_of_grows)
qed

section \<open>Starting a run\<close>

lemma free_starting [simp]: "free A env (add_mset (Starting r n) g) = free A env g"
  by (simp add: free_def owing_def)

definition starting :: "string \<Rightarrow> duty multiset \<Rightarrow> nat \<Rightarrow> duty multiset \<Rightarrow> 'x \<Rightarrow> eval_db \<Rightarrow> bool" where
  "starting r g n g' x t \<longleftrightarrow> (\<exists>m. n \<le> m \<and> g' = add_mset (Starting r m) g)"

lemma secure_put:
  assumes "Suc n \<le> m" and row: "\<not> res_completionRecorded row" "conv_ok row"
  shows "secure A env (starting r g n) (callT (put_result (r, c) row)) (add_mset (Starting r m) g) s"
proof -
  obtain k where m: "m = Suc k" "n \<le> k"
    using assms(1) by (cases m) auto
  have step: "\<exists>g'. starting r g n g' x t' \<and> eval_inv env (g' + N) t' \<and> eval_grows t t'"
    if "eval_inv env (add_mset (Starting r m) g + N) t" "t' = t \<or> t' = snd (put_result (r, c) row t)"
    for t t' N and x :: "exn + unit"
  proof (cases "t' = t")
    case True
    with that(1) assms(1) show ?thesis
      by (intro exI [of _ "add_mset (Starting r m) g"]) (auto simp: starting_def intro: Suc_leD)
  next
    case False
    with that(2) have none: "tbl_get (ed_results t) (r, c) = None" and t': "t' = t\<lparr>ed_results := tbl_put (r, c) row (ed_results t)\<rparr>"
      by (auto simp: put_result_def split: option.splits)
    have "eval_inv env (add_mset (Starting r (Suc k)) (g + N)) t"
      using that(1) m by simp
    from new_result [OF this none row] m show ?thesis
      unfolding t' by (intro exI [of _ "add_mset (Starting r k) g"]) (auto simp: starting_def)
  qed
  show ?thesis
    unfolding callT_def
  proof (subst safe.simps, intro allI impI)
    fix t M and f :: reply
    let ?m = "put_result (r, c) row"
    let ?t = "case rp_fault f of None \<Rightarrow> snd (?m t) | Some (applied, e) \<Rightarrow> if applied then snd (?m t) else t"
    let ?p = "case rp_fault f of None \<Rightarrow> (case fst (?m t) of Inl e \<Rightarrow> throwT (Sdk e) | Inr a \<Rightarrow> retT a)
        | Some (applied, e) \<Rightarrow> throwT (Sdk e)"
    assume "eval_inv env (\<Sum>\<^sub># (add_mset (add_mset (Starting r m) g) M)) t"
    then have inv: "eval_inv env (add_mset (Starting r m) g + \<Sum>\<^sub># M) t"
      by simp
    have "?t = t \<or> ?t = snd (?m t)"
      by (auto split: option.split)
    moreover obtain a where p: "(?p :: unit handler) = Ret a"
      by (cases "rp_fault f"; cases "fst (?m t)") (auto simp: throwT_def retT_def split: prod.splits)
    ultimately obtain g' where "starting r g n g' a ?t" "eval_inv env (g' + \<Sum>\<^sub># M) ?t" "eval_grows t ?t"
      using step [OF inv, of ?t a] by blast
    then show "\<exists>g'. eval_inv env (\<Sum>\<^sub># (add_mset g' M)) ?t \<and> eval_grows t ?t \<and>
        secure A env (starting r g n) ?p g' ?t"
      unfolding p by (intro exI [of _ g']) (simp add: starting_def)
  qed
qed

lemma secure_puts:
  assumes "length xs \<le> n" and "\<And>x. \<not> res_completionRecorded (h x)" and "\<And>x. conv_ok (h x)"
  shows "secure A env (starting r g 0) (allT xs (\<lambda>x. callT (put_result (r, f x) (h x)))) (add_mset (Starting r n) g) s"
  using assms(1)
proof (induction xs arbitrary: n s)
  case (Cons y ys)
  show ?case
    unfolding allT.simps
  proof (rule er.bindP, rule er.mono [OF secure_put])
    show "Suc (length ys) \<le> n" "\<not> res_completionRecorded (h y)" "conv_ok (h y)"
      using Cons.prems assms(2,3) by auto
    fix g' t and a :: "exn + unit"
    assume "starting r g (length ys) g' a t"
    then obtain m where m: "length ys \<le> m" "g' = add_mset (Starting r m) g"
      by (auto simp: starting_def)
    show "secure A env (starting r g 0) (bindP (allT ys (\<lambda>x. callT (put_result (r, f x) (h x))))
        (\<lambda>rest. Ret (case a of Inl e \<Rightarrow> Inl e | Inr _ \<Rightarrow> rest))) g' t"
      unfolding m(2) by (rule er.bindP, rule er.mono [OF Cons.IH [OF m(1)]]) (auto simp: starting_def)
  qed
qed (auto simp: retT_def starting_def)

lemma settles_launch:
  assumes "free A env g" and "length cases \<le> n"
  shows "settles A env (launch_run env r run suite target cases) (add_mset (Starting r n) g) s"
  unfolding launch_run_def settles_def
proof (rule er.bindT, rule er.mono [OF secure_puts])
  show "length cases \<le> n"
    by fact
  fix x :: "(string \<times> string) \<times> suite_case_row"
  show "\<not> res_completionRecorded (pending_result (suite_orgId suite) (ecr_kind (snd x)))"
    and "conv_ok (pending_result (suite_orgId suite) (ecr_kind (snd x)))"
    by (simp_all add: pending_result_def no_result_def conv_ok_def)
next
  fix g' t and a :: "exn + unit"
  assume "starting r g 0 g' a t"
  then have g': "free A env g'"
    using assms(1) by (auto simp: starting_def)
  show "secure A env (owes_nothing A env) (case a of Inl e \<Rightarrow> Ret (Inl e) | Inr x \<Rightarrow>
      bindT (catchT (emitT (Eval_run_started r)) (\<lambda>err. retT ())) (\<lambda>_.
      bindT (catchT (fanOutEvalRun env r (suite_id suite) target
         (case suite_orgId suite of Some org \<Rightarrow> org | None \<Rightarrow> []) (max_latency env)) (\<lambda>err. retT ())) (\<lambda>_.
      retT run))) g' t"
    unfolding settles_def [symmetric]
    by (cases a)
      (auto simp: g' settles_def owes_nothing_def intro!: settles_quiet [OF _ g', where Z = False, unfolded settles_def] quiet_intros quiet_fanOut)
qed

lemma settles_throw: "free A env g \<Longrightarrow> settles A env (throwT e) g s"
  by (simp add: settles_def owes_nothing_def throwT_def)

lemma settles_create:
  assumes "free A env g" and run: "rr_caseCount run = Some n" "rr_pendingCases run = Some (int n)"
      "rr_status run = Some RUN_PENDING"
      "dates_ok env \<longrightarrow> ee_date_parse env (the (rr_startedAt run)) \<noteq> None"
    and launch: "\<And>t. settles A env (h None) (add_mset (Starting r n) g) t"
    and found: "\<And>row g' t. free A env g' \<Longrightarrow> settles A env (h (Some row)) g' t"
  shows "settles A env (bindT (create_run r run) h) g s"
  unfolding create_run_def bindT_assoc
proof (rule settles_bind_unless)
  let ?k = "\<lambda>created. case created of Some _ \<Rightarrow> retT None
       | None \<Rightarrow> bindT (readT (\<lambda>s. tbl_get (ed_runs s) r)) (\<lambda>existing.
           case existing of Some row \<Rightarrow> retT (Some row) | None \<Rightarrow> throwT (Sdk ConditionalCheckFailedException))"
  have old: "settles A env (bindT (?k (None :: unit option)) h) g' t" if "free A env g'" for g' t
    by (auto simp: bindT_assoc split: option.split
        intro!: settles_bind_free [OF quiet_read that] found [OF that] settles_throw that)
  show "settles A env (bindT (?k (None :: unit option)) h) g' t" if "\<not> nice A env" for g' t
    using that by (intro old) (simp add: free_def)
  fix t M
  assume inv: "eval_inv env (g + M) t"
  show "case put_run r run t of
      (Inl e, t') \<Rightarrow> t' = t \<and> e = ConditionalCheckFailedException \<and> settles A env (bindT (?k (None :: unit option)) h) g t
    | (Inr a, t') \<Rightarrow> \<exists>g'. eval_inv env (g' + M) t' \<and> eval_grows t t' \<and> settles A env (bindT (?k (Some a)) h) g' t'"
  proof (cases "tbl_get (ed_runs t) r")
    case None
    from new_run [OF inv None run] launch None show ?thesis
      by (auto simp: put_run_def intro!: exI [of _ "add_mset (Starting r n) g"])
  next
    case (Some row)
    then show ?thesis
      using old [OF assms(1)] by (simp add: put_run_def)
  qed
qed

lemma nowT_bind: "bindT (nowT env) h = bindT clockT (\<lambda>ms. h (ee_iso env ms))"
  by (simp add: nowT_def bindT_assoc)

lemma quiet_permission [quiet_intros]: "quiet A env False (requireEvalRunPermission ctx) s"
  unfolding requireEvalRunPermission_def by (intro quiet_intros)

lemma quiet_validate [quiet_intros]: "quiet A env False (validateStartInput input) s"
  unfolding validateStartInput_def by (intro quiet_intros)

lemma quiet_target [quiet_intros]: "quiet A env Z (resolveAgentTargetOrg a) s"
  unfolding resolveAgentTargetOrg_def by (intro quiet_intros)


lemma settles_start:
  assumes "free A env g"
  shows "settles A env (startEvalRun env input ctx event) g s"
proof -
  have tail: "settles A env (bindT (create_run r run) (\<lambda>existing. case existing of
        Some row \<Rightarrow> retT row | None \<Rightarrow> launch_run env r run suite target cases)) g t"
    if "rr_caseCount run = Some (length cases)" "rr_pendingCases run = Some (int (length cases))"
      "rr_status run = Some RUN_PENDING" "rr_startedAt run = Some (ee_iso env ms)"
    for r run suite target cases t ms
    by (rule settles_create [OF assms that(1-3)])
      (use that(4) in \<open>auto simp: dates_ok_def intro: settles_launch assms settles_ret\<close>)
  show ?thesis
    unfolding startEvalRun_def Let_def nowT_bind
    by (intro settles_bind_free [OF quiet_permission assms] settles_bind_free [OF quiet_validate assms]
        settles_bind_free [OF quiet_read assms])
      (auto split: option.split intro!: settles_throw assms tail settles_bind_free [OF quiet_read assms]
          settles_bind_free [OF quiet_lift assms] settles_bind_free [OF quiet_target assms]
          settles_bind_free [OF quiet_guard assms] settles_bind_free [OF quiet_clock assms])
qed

end
