(* ===== verification/EvalRunSafety.thy ===== *)
theory EvalRunSafety
  imports EvalRunHandlers
begin

text \<open>
  The system of evaluation runs: any number of requests, workers and sweeps interleaved at every
  call, with faults and crashes, beside the services that write scores; and what its invariant
  says of a run.
\<close>

section \<open>Reads and requests\<close>

lemma quiet_readEvalRun [quiet_intros]: "quiet A env Z (readEvalRun r event) s"
  unfolding readEvalRun_def by (intro quiet_intros)

lemma quiet_listEvalRuns [quiet_intros]: "quiet A env Z (listEvalRuns org suite event) s"
  unfolding listEvalRuns_def by (cases event) (auto split: option.split intro!: quiet_intros)

lemma quiet_listEvalRunCases [quiet_intros]: "quiet A env Z (listEvalRunCases r event) s"
  unfolding listEvalRunCases_def by (cases event) (auto split: option.split intro!: quiet_intros)

lemma settles_request:
  assumes "free A env g"
  shows "settles A env (bindT (eval_run_handler env event) (\<lambda>_. retT ())) g s"
proof -
  show ?thesis
    unfolding eval_run_handler_def
    by (cases "ge_arguments event")
      (auto simp: bindT_assoc intro!: settles_bind_free [OF quiet_readEvalRun assms]
        settles_bind_free [OF quiet_listEvalRuns assms] settles_bind_free [OF quiet_listEvalRunCases assms]
        settles_throw assms settles_bind [OF settles_start [OF assms]] intro: settles_ret)
qed

section \<open>The system\<close>

inductive launched :: "eval_env \<Rightarrow> eval_db \<Rightarrow> unit handler \<Rightarrow> bool" for env where
  request: "launched env s (bindT (eval_run_handler env event) (\<lambda>_. retT ()))"
| conversations: "set ds \<subseteq> set (ed_queue s) \<Longrightarrow> launched env s (conversation_worker env ds)"
| runner: "launched env s (runner_handler env ev)"

definition unscored :: "result_row \<Rightarrow> result_row" where
  "unscored row = row\<lparr>res_scoreVector := None, res_scorerVersion := None\<rparr>"

definition unaggregated :: "run_row \<Rightarrow> run_row" where
  "unaggregated run = run\<lparr>rr_scoreAggregates := None\<rparr>"

definition others :: "eval_db \<Rightarrow> eval_db \<Rightarrow> bool" where
  "others s t \<longleftrightarrow> tbl_wf (ed_results t) \<and>
     (\<forall>k. map_option unscored (tbl_get (ed_results t) k) = map_option unscored (tbl_get (ed_results s) k)) \<and>
     (\<forall>r. map_option unaggregated (tbl_get (ed_runs t) r) = map_option unaggregated (tbl_get (ed_runs s) r)) \<and>
     ed_queue t = ed_queue s \<and> ed_events t = ed_events s"

definition initial :: "eval_db \<Rightarrow> bool" where
  "initial s \<longleftrightarrow> ed_runs s = [] \<and> ed_results s = [] \<and> ed_queue s = [] \<and> ed_events s = []"

abbreviation schedules where
  "schedules A env \<equiv> runs_to A (launched env) others"

lemma launched_settles:
  assumes "launched env s p" and "eval_inv env M s"
  shows "settles A env p {#} s"
  using assms(1)
proof cases
  case (conversations ds)
  with assms(2) show ?thesis
    by (auto intro!: settles_worker simp: has_case_def eval_inv_def free_def owing_def)
qed (auto intro!: settles_request settles_runner simp: free_def owing_def)

lemma unscored_eq:
  "unscored row = unscored row' \<Longrightarrow> res_status row = res_status row' \<and> res_caseKind row = res_caseKind row' \<and>
     res_completionRecorded row = res_completionRecorded row' \<and> res_deadlineAt row = res_deadlineAt row'"
  by (cases row; cases row') (simp add: unscored_def)

lemma unaggregated_eq:
  "unaggregated run = unaggregated run' \<Longrightarrow> rr_status run = rr_status run' \<and> rr_caseCount run = rr_caseCount run' \<and>
     rr_pendingCases run = rr_pendingCases run' \<and> rr_startedAt run = rr_startedAt run'"
  by (cases run; cases run') (simp add: unaggregated_def)

lemma map_option_eq_rows:
  assumes "map_option f x = map_option f y"
  shows "x = Some a \<Longrightarrow> \<exists>b. y = Some b \<and> f b = f a" and "x = None \<longleftrightarrow> y = None"
  using assms by (cases x; cases y; simp)+

lemma others_rows:
  assumes "others s t"
  shows "tbl_get (ed_results s) k = Some row \<Longrightarrow> \<exists>row'. tbl_get (ed_results t) k = Some row' \<and> unscored row' = unscored row"
    and "tbl_get (ed_results t) k = Some row' \<Longrightarrow> \<exists>row. tbl_get (ed_results s) k = Some row \<and> unscored row = unscored row'"
    and "tbl_get (ed_runs s) r = Some run \<Longrightarrow> \<exists>run'. tbl_get (ed_runs t) r = Some run' \<and> unaggregated run' = unaggregated run"
    and "tbl_get (ed_runs t) r = None \<longleftrightarrow> tbl_get (ed_runs s) r = None"
proof -
  have res: "map_option unscored (tbl_get (ed_results t) k) = map_option unscored (tbl_get (ed_results s) k)"
    and run: "map_option unaggregated (tbl_get (ed_runs t) r) = map_option unaggregated (tbl_get (ed_runs s) r)"
    using assms unfolding others_def by blast+
  show "tbl_get (ed_results s) k = Some row \<Longrightarrow> \<exists>row'. tbl_get (ed_results t) k = Some row' \<and> unscored row' = unscored row"
    by (rule map_option_eq_rows(1) [OF res [symmetric]])
  show "tbl_get (ed_results t) k = Some row' \<Longrightarrow> \<exists>row. tbl_get (ed_results s) k = Some row \<and> unscored row = unscored row'"
    by (rule map_option_eq_rows(1) [OF res])
  show "tbl_get (ed_runs s) r = Some run \<Longrightarrow> \<exists>run'. tbl_get (ed_runs t) r = Some run' \<and> unaggregated run' = unaggregated run"
    by (rule map_option_eq_rows(1) [OF run [symmetric]])
  show "tbl_get (ed_runs t) r = None \<longleftrightarrow> tbl_get (ed_runs s) r = None"
    by (rule map_option_eq_rows(2) [OF run])
qed

text \<open>What the other services write leaves every row that the counters read as it was.\<close>

lemma others_case:
  assumes "others s t"
  shows "tbl_get (ed_results s) k = Some row \<Longrightarrow> \<exists>row'. tbl_get (ed_results t) k = Some row' \<and>
      res_status row' = res_status row \<and> res_caseKind row' = res_caseKind row \<and>
      res_completionRecorded row' = res_completionRecorded row \<and> res_deadlineAt row' = res_deadlineAt row"
    and "tbl_get (ed_results t) k = Some row \<Longrightarrow> \<exists>row'. tbl_get (ed_results s) k = Some row' \<and>
      res_status row' = res_status row \<and> res_caseKind row' = res_caseKind row \<and>
      res_completionRecorded row' = res_completionRecorded row \<and> res_deadlineAt row' = res_deadlineAt row"
  using others_rows(1,2) [OF assms, of k row] unscored_eq by blast+

lemma others_counts:
  assumes "others s t"
  shows "cases_of t r = cases_of s r" and "recorded_cases t r = recorded_cases s r" and "announced t r = announced s r"
proof -
  show "cases_of t r = cases_of s r"
    unfolding cases_of_def using others_case [OF assms] by fastforce
  show "recorded_cases t r = recorded_cases s r"
    unfolding recorded_cases_def using others_case [OF assms] by fastforce
  show "announced t r = announced s r"
    using assms by (simp add: announced_def others_def)
qed

lemma others_run:
  assumes "others s t" and "run_ok env M s r"
  shows "run_ok env M t r"
proof (cases "tbl_get (ed_runs s) r")
  case None
  then have "tbl_get (ed_runs t) r = None"
    by (simp add: others_rows(4) [OF assms(1)])
  with None assms(2) show ?thesis
    by (simp add: run_ok_def others_counts [OF assms(1)])
next
  case (Some run)
  then obtain run' where "tbl_get (ed_runs t) r = Some run'" "unaggregated run' = unaggregated run"
    using others_rows(3) [OF assms(1)] by blast
  with Some assms(2) unaggregated_eq [of run' run] show ?thesis
    by (simp add: run_ok_def run_view_def others_counts [OF assms(1)])
qed

lemma others_inv:
  assumes "others s t" and inv: "eval_inv env M s"
  shows "eval_inv env M t \<and> eval_grows s t"
proof
  have "(res_completionRecorded row \<longrightarrow> terminal row) \<and> conv_ok row" if "tbl_get (ed_results t) k = Some row" for k row
  proof -
    from others_case(2) [OF assms(1) that] obtain row' where row': "tbl_get (ed_results s) k = Some row'"
      "res_status row' = res_status row" "res_caseKind row' = res_caseKind row"
      "res_completionRecorded row' = res_completionRecorded row" "res_deadlineAt row' = res_deadlineAt row"
      by blast
    with inv have "(res_completionRecorded row' \<longrightarrow> terminal row') \<and> conv_ok row'"
      unfolding eval_inv_def by blast
    with row' show ?thesis
      by (simp add: terminal_def conv_ok_def)
  qed
  moreover have "tbl_get (ed_results t) (cd_evalRunId d, cd_caseId d) \<noteq> None" if "d \<in> set (ed_queue t)" for d
  proof -
    have "tbl_get (ed_results s) (cd_evalRunId d, cd_caseId d) \<noteq> None"
      using that inv assms(1) by (simp add: eval_inv_def others_def)
    then show ?thesis
      using others_case(1) [OF assms(1)] by blast
  qed
  moreover have "run_ok env M t r" for r
    using inv by (intro others_run [OF assms(1)]) (simp add: eval_inv_def)
  ultimately show "eval_inv env M t"
    using assms(1) unfolding eval_inv_def others_def by blast
  show "eval_grows s t"
  proof (rule eval_growsI)
    fix k row assume "tbl_get (ed_results s) k = Some row"
    from others_case(1) [OF assms(1) this]
    show "\<exists>row'. tbl_get (ed_results t) k = Some row' \<and> row_grows row row'"
      by (auto simp: row_grows_def terminal_def)
  next
    fix r run assume "tbl_get (ed_runs s) r = Some run"
    from others_rows(3) [OF assms(1) this] unaggregated_eq
    show "\<exists>run'. tbl_get (ed_runs t) r = Some run' \<and> run_grows run run'"
      by (metis run_grows_def)
  qed (use assms(1) in \<open>simp add: others_def\<close>)
qed

lemma initial_inv: "initial s \<Longrightarrow> eval_inv env {#} s"
  by (auto simp: initial_def eval_inv_def run_ok_def run_view_def cases_of_def recorded_cases_def announced_def tbl_wf_def)

section \<open>What the invariant says of a run\<close>

abbreviation accounted where
  "accounted A env \<equiv> concurrent.annotated A (\<lambda>M. eval_inv env (\<Sum>\<^sub># M)) eval_grows (owes_nothing A env)"

lemma accounted_runs:
  assumes "schedules A env (ps, s) (qs, t)" and "accounted A env ps gs s"
  shows "\<exists>hs. accounted A env qs hs t \<and> eval_grows s t \<and> length ps \<le> length qs \<and>
    (\<forall>i < length ps. \<forall>a. ps ! i = Ret a \<longrightarrow> qs ! i = Ret a \<and> hs ! i = gs ! i)"
proof (rule er.annotated_runs [OF _ _ assms])
  fix s p and M :: "duty multiset multiset"
  assume "launched env s p" and "eval_inv env (\<Sum>\<^sub># M) s"
  with launched_settles [OF this] show "\<exists>g. eval_inv env (\<Sum>\<^sub># (add_mset g M)) s \<and> secure A env (owes_nothing A env) p g s"
    by (intro exI [of _ "{#}"]) (simp add: settles_def)
qed (rule others_inv)

lemma accounted_start:
  assumes "initial s" and "schedules A env ([], s) (ps, t)"
  obtains gs where "accounted A env ps gs t"
proof -
  have "accounted A env [] [] s"
    using assms(1) initial_inv by (simp add: er.annotated_def)
  with accounted_runs [OF assms(2)] that show ?thesis
    by blast
qed

lemma accounted_inv: "accounted A env ps gs t \<Longrightarrow> eval_inv env (\<Sum>\<^sub># (mset gs)) t"
  by (simp add: er.annotated_def)

lemma reachable_inv:
  assumes "initial s" and "schedules A env ([], s) (ps, t)"
  obtains M where "eval_inv env M t"
  using accounted_start [OF assms] accounted_inv by metis

lemma run_facts:
  assumes "eval_inv env M t" and "tbl_get (ed_runs t) r = Some run"
  obtains n where "rr_caseCount run = Some n"
    and "rr_pendingCases run = Some (int n - int (card (recorded_cases t r)) + int (count M (Owes r)))"
    and "card (cases_of t r) \<le> n" and "card (recorded_cases t r) \<le> card (cases_of t r)"
    and "count M (Owes r) \<le> card (recorded_cases t r)"
    and "announced t r \<le> (if rr_pendingCases run = Some 0 then 1 else 0)"
    and "rr_status run = Some RUN_COMPLETED \<Longrightarrow> rr_pendingCases run = Some 0 \<and> 0 < n"
    and "0 < n \<Longrightarrow> rr_pendingCases run = Some 0 \<Longrightarrow> count M (Finalizing r) = 0 \<Longrightarrow> rr_status run = Some RUN_COMPLETED"
proof -
  have "run_ok env M t r"
    using assms(1) by (simp add: eval_inv_def)
  then obtain n where n: "rr_caseCount run = Some n"
    "rr_pendingCases run = Some (int n - int (card (recorded_cases t r)) + int (count M (Owes r)))"
    "card (cases_of t r) + (\<Sum>g\<in>#M. to_put r g) \<le> n"
    "count M (Owes r) \<le> card (recorded_cases t r)" "card (recorded_cases t r) \<le> card (cases_of t r)"
    "announced t r + count M (Finalizing r) \<le> (if rr_pendingCases run = Some 0 then 1 else 0)"
    "rr_status run = Some RUN_COMPLETED \<longrightarrow> rr_pendingCases run = Some 0"
    "0 < count M (Finalizing r) \<or> rr_status run = Some RUN_COMPLETED \<longrightarrow> 0 < n"
    "0 < n \<and> rr_pendingCases run = Some 0 \<longrightarrow> rr_status run = Some RUN_COMPLETED \<or> 0 < count M (Finalizing r)"
    unfolding run_ok_def run_view_def assms(2) option.case by blast
  show thesis
    by (rule that [of n]) (use n in linarith, use n in simp_all)
qed

lemma nothing_owed:
  assumes "accounted A env ps gs t" and "nice A env" and "\<forall>p \<in> set ps. \<exists>a. p = Ret a"
  shows "count (\<Sum>\<^sub># (mset gs)) (Owes r) = 0 \<and> count (\<Sum>\<^sub># (mset gs)) (Finalizing r) = 0"
proof -
  have "\<not> owing g" if "g \<in> set gs" for g
  proof -
    from that assms(1) obtain i where i: "i < length ps" "g = gs ! i" "secure A env (owes_nothing A env) (ps ! i) g t"
      by (auto simp: in_set_conv_nth er.annotated_def)
    moreover obtain a where "ps ! i = Ret a"
      using assms(3) i(1) nth_mem by blast
    ultimately have "owes_nothing A env g a t"
      by (metis eval_grows_refl safe.simps(1))
    with assms(2) show ?thesis
      by (simp add: owes_nothing_def free_def)
  qed
  then show ?thesis
    by (auto simp: owing_def count_eq_zero_iff)
qed

lemma owed_stays:
  assumes "schedules A env (ps, t) (qs, u)" and "accounted A env ps gs t" and "\<forall>p \<in> set ps. \<exists>a. p = Ret a"
  obtains hs where "accounted A env qs hs u" and "eval_grows t u"
    and "\<And>d. count (\<Sum>\<^sub># (mset gs)) d \<le> count (\<Sum>\<^sub># (mset hs)) d"
proof -
  from accounted_runs [OF assms(1,2)] obtain hs where hs: "accounted A env qs hs u" "eval_grows t u"
    "length ps \<le> length qs" and same: "\<And>i a. i < length ps \<Longrightarrow> ps ! i = Ret a \<Longrightarrow> hs ! i = gs ! i"
    by blast
  have len: "length gs = length ps" "length hs = length qs"
    using assms(2) hs(1) by (auto simp: er.annotated_def)
  have "hs ! i = gs ! i" if "i < length ps" for i
    using same [OF that] assms(3) nth_mem [OF that] by blast
  then have "take (length ps) hs = gs"
    using len hs(3) by (intro nth_equalityI) auto
  then have "hs = gs @ drop (length ps) hs"
    by (metis append_take_drop_id)
  then have "mset hs = mset gs + mset (drop (length ps) hs)"
    by (metis mset_append)
  then have "count (\<Sum>\<^sub># (mset gs)) d \<le> count (\<Sum>\<^sub># (mset hs)) d" for d
    by simp
  with hs that show thesis
    by blast
qed


lemma completed_cases:
  assumes "initial s" and "schedules A env ([], s) (ps, t)"
    and "tbl_get (ed_runs t) r = Some run" and "rr_status run = Some RUN_COMPLETED"
  shows "cases_of t r \<noteq> {} \<and> rr_caseCount run = Some (card (cases_of t r)) \<and>
    (\<forall>c row. tbl_get (ed_results t) (r, c) = Some row \<longrightarrow> terminal row \<and> res_completionRecorded row)"
proof -
  from reachable_inv [OF assms(1,2)] obtain M where inv: "eval_inv env M t" .
  from run_facts [OF inv assms(3)] obtain n where n: "rr_caseCount run = Some n"
    "rr_pendingCases run = Some (int n - int (card (recorded_cases t r)) + int (count M (Owes r)))"
    "card (cases_of t r) \<le> n" "card (recorded_cases t r) \<le> card (cases_of t r)"
    "rr_status run = Some RUN_COMPLETED \<Longrightarrow> rr_pendingCases run = Some 0 \<and> 0 < n"
    by blast
  with assms(4) have n: "0 < n" "card (recorded_cases t r) = n" "card (cases_of t r) = n" "rr_caseCount run = Some n"
    by auto
  then have "recorded_cases t r = cases_of t r"
    by (intro card_subset_eq finite_cases recorded_subset) simp
  then have "c \<in> recorded_cases t r" if "tbl_get (ed_results t) (r, c) = Some row" for c row
    using that by (simp add: cases_of_def)
  then have "res_completionRecorded row" if "tbl_get (ed_results t) (r, c) = Some row" for c row
    using that by (fastforce simp: recorded_cases_def)
  moreover have "terminal row" if "tbl_get (ed_results t) (r, c) = Some row" "res_completionRecorded row" for c row
    using inv that by (auto simp: eval_inv_def)
  ultimately show ?thesis
    using n by auto
qed

lemma ended_case_stays:
  assumes "initial s" and "schedules A env ([], s) (ps, t)" and "schedules A env (ps, t) (qs, u)"
    and "tbl_get (ed_results t) k = Some row" and "res_status row \<in> {Some CASE_COMPLETED, Some CASE_FAILED, Some CASE_TIMEOUT}"
  shows "\<exists>row'. tbl_get (ed_results u) k = Some row' \<and> res_status row' \<in> {Some CASE_COMPLETED, Some CASE_FAILED, Some CASE_TIMEOUT} \<and>
    (res_completionRecorded row \<longrightarrow> res_completionRecorded row')"
proof -
  from accounted_start [OF assms(1,2)] obtain gs where acc: "accounted A env ps gs t" .
  from accounted_runs [OF assms(3) acc] have "eval_grows t u"
    by blast
  from eval_growsD(1) [OF this assms(4)] assms(5) show ?thesis
    by (auto simp: row_grows_def terminal_def)
qed

lemma conversation_never_times_out:
  assumes "initial s" and "schedules A env ([], s) (ps, t)" and "tbl_get (ed_results t) k = Some row"
    and "res_caseKind row = Some CONVERSATION"
  shows "res_deadlineAt row = None \<and> res_status row \<noteq> Some CASE_TIMEOUT"
proof -
  from reachable_inv [OF assms(1,2)] obtain M where "eval_inv env M t" .
  with assms(3) have "conv_ok row"
    unfolding eval_inv_def by blast
  with assms(4) show ?thesis
    by (simp add: conv_ok_def)
qed

end
