(* ===== verification/EvalRunTheorems.thy ===== *)
theory EvalRunTheorems
  imports EvalRunSafety GateEvidence
begin

text \<open>
  Properties of the system of evaluation runs, with the start of a run of two conversation cases,
  its worker, and its worker with a fault and a second delivery as the examples.
\<close>

section \<open>What the gate reads\<close>

fun status_text :: "eval_run_status \<Rightarrow> string" where
  "status_text RUN_PENDING = ''PENDING''"
| "status_text RUN_RUNNING = ''RUNNING''"
| "status_text RUN_COMPLETED = ''COMPLETED''"
| "status_text RUN_FAILED = ''FAILED''"
| "status_text RUN_CANCELLED = ''CANCELLED''"

definition as_eval_run :: "string \<Rightarrow> run_row \<Rightarrow> eval_run" where
  "as_eval_run i row = \<lparr>run_evalRunId = i, run_orgId = rr_orgId row,
     run_status = (case rr_status row of Some st \<Rightarrow> status_text st | None \<Rightarrow> []),
     run_completedAt = rr_completedAt row, run_agentTargetVersion = rr_agentTargetVersion row,
     run_scoreAggregates = rr_scoreAggregates row\<rparr>"

definition shares_runs :: "world \<Rightarrow> eval_db \<Rightarrow> bool" where
  "shares_runs w t \<longleftrightarrow> (\<forall>i. tbl_get (w_runs w) i = map_option (as_eval_run i) (tbl_get (ed_runs t) i))"

lemma as_eval_run_completed:
  "run_status (as_eval_run i row) = ''COMPLETED'' \<longleftrightarrow> rr_status row = Some RUN_COMPLETED"
proof -
  have "status_text st = ''COMPLETED'' \<longleftrightarrow> st = RUN_COMPLETED" for st
    by (cases st) simp_all
  then show ?thesis
    by (simp add: as_eval_run_def split: option.split)
qed

section \<open>Two cases, from start to end\<close>

definition demo_env :: eval_env where
  "demo_env = \<lparr>ee_iso = (\<lambda>_. ''now''), ee_date_parse = (\<lambda>_. Some 0), ee_uuidv5 = (\<lambda>name. ''run1''),
     ee_maxLatencyMs = None\<rparr>"

definition demo_start :: "eval_run_request gql_event" where
  "demo_start =
     \<lparr>ge_identity = JObj [(''sub'', JStr ''alice''), (''custom:organization'', JStr ''org''),
        (''cognito:groups'', JArr [JStr ''developer''])],
      ge_fieldName = ''startEvalRun'',
      ge_arguments = Start_eval_run \<lparr>sri_suiteId = Some ''suite'', sri_agentTargetId = Some ''agent'',
        sri_agentTargetVersion = Some ''v1'', sri_idempotencyKey = Some ''key''\<rparr>\<rparr>"

definition demo_db :: eval_db where
  "demo_db = \<lparr>ed_suites = [(''suite'', \<lparr>suite_id = ''suite'', suite_orgId = Some ''org'',
       suite_agentTargetId = ''agent'', suite_version = 1, suite_status = SUITE_FROZEN, suite_gateClass = None\<rparr>)],
     ed_cases = [((''suite'', ''c1''), \<lparr>ecr_kind = CONVERSATION, ecr_forbiddenTools = None, ecr_prompt = Some ''hi''\<rparr>),
       ((''suite'', ''c2''), \<lparr>ecr_kind = CONVERSATION, ecr_forbiddenTools = None, ecr_prompt = Some ''hi''\<rparr>)],
     ed_agents = [(''agent'', Some ''org'')], ed_runs = [], ed_results = [], ed_executions = [],
     ed_conversations = [], ed_artifacts = [], ed_queue = [], ed_events = []\<rparr>"

definition good_reply :: reply where
  "good_reply = \<lparr>rp_fault = None, rp_ms = 0, rp_uuid = ''u'', rp_text = Some ''text''\<rparr>"

definition bad_reply :: reply where
  "bad_reply = good_reply\<lparr>rp_fault := Some (False, OtherException ''throttled'')\<rparr>"

definition demo_started :: "(exn + unit) \<times> eval_db" where
  "demo_started = alone (bindT (eval_run_handler demo_env demo_start) (\<lambda>_. retT ())) (\<lambda>_. good_reply) demo_db"

definition demo_worked :: "(exn + unit) \<times> eval_db" where
  "demo_worked = alone (conversation_worker demo_env (ed_queue (snd demo_started))) (\<lambda>_. good_reply) (snd demo_started)"

definition failing_at :: "nat \<Rightarrow> nat \<Rightarrow> reply" where
  "failing_at k = (\<lambda>n. if n = k then bad_reply else good_reply)"

text \<open>A fault of the decrement of the first case, and the queue's second delivery.\<close>

definition demo_crashed :: "(exn + unit) \<times> eval_db" where
  "demo_crashed = alone (conversation_worker demo_env (take 1 (ed_queue (snd demo_started)))) (failing_at 19)
     (snd demo_started)"

definition demo_retried :: "(exn + unit) \<times> eval_db" where
  "demo_retried = alone (conversation_worker demo_env (ed_queue (snd demo_crashed))) (\<lambda>_. good_reply)
     (snd demo_crashed)"

lemma request_alone:
  assumes "\<And>n. A (fs n)"
  shows "schedules A env (ps, s) (ps @ [Ret (fst (alone (bindT (eval_run_handler env event) (\<lambda>_. retT ())) fs s))],
    snd (alone (bindT (eval_run_handler env event) (\<lambda>_. retT ())) fs s))"
  by (rule launch_alone) (auto intro: launched.request assms)

lemma worker_alone:
  assumes "\<And>n. A (fs n)" and "set ds \<subseteq> set (ed_queue s)"
  shows "schedules A env (ps, s) (ps @ [Ret (fst (alone (conversation_worker env ds) fs s))],
    snd (alone (conversation_worker env ds) fs s))"
  by (rule launch_alone, rule launched.conversations [OF assms(2)]) (simp, rule assms(1))

lemma demo_initial: "initial demo_db"
  by (simp add: initial_def demo_db_def)

lemma demo_started_run: "A good_reply \<Longrightarrow> schedules A demo_env ([], demo_db) ([Ret (fst demo_started)], snd demo_started)"
  using request_alone [of A "\<lambda>_. good_reply" demo_env "[]" demo_db demo_start] by (simp add: demo_started_def)

lemma demo_worked_run:
  "A good_reply \<Longrightarrow> schedules A demo_env ([], demo_db) ([Ret (fst demo_started), Ret (fst demo_worked)], snd demo_worked)"
  using demo_started_run [of A]
    worker_alone [of A "\<lambda>_. good_reply" "ed_queue (snd demo_started)" "snd demo_started" demo_env "[Ret (fst demo_started)]"]
  by (simp add: demo_worked_def)

lemma demo_crashed_run:
  assumes "A good_reply" and "A bad_reply"
  shows "schedules A demo_env ([], demo_db) ([Ret (fst demo_started), Ret (fst demo_crashed)], snd demo_crashed)"
proof -
  have "A (failing_at 19 n)" for n
    using assms by (simp add: failing_at_def)
  then have "schedules A demo_env ([Ret (fst demo_started)], snd demo_started)
      ([Ret (fst demo_started), Ret (fst demo_crashed)], snd demo_crashed)"
    using worker_alone [of A "failing_at 19" "take 1 (ed_queue (snd demo_started))" "snd demo_started" demo_env
      "[Ret (fst demo_started)]"] by (simp add: demo_crashed_def set_take_subset)
  with demo_started_run [of A] assms(1) show ?thesis
    by (meson rtranclp_trans)
qed

lemma demo_retry_run:
  assumes "A good_reply"
  shows "schedules A demo_env ([Ret (fst demo_started), Ret (fst demo_crashed)], snd demo_crashed)
    ([Ret (fst demo_started), Ret (fst demo_crashed), Ret (fst demo_retried)], snd demo_retried)"
  using worker_alone [of A "\<lambda>_. good_reply" "ed_queue (snd demo_crashed)" "snd demo_crashed" demo_env
      "[Ret (fst demo_started), Ret (fst demo_crashed)]"] assms
  by (simp add: demo_retried_def)

lemma demo_retried_run:
  assumes "A good_reply" and "A bad_reply"
  shows "schedules A demo_env ([], demo_db)
    ([Ret (fst demo_started), Ret (fst demo_crashed), Ret (fst demo_retried)], snd demo_retried)"
  using demo_crashed_run [OF assms] demo_retry_run [of A] assms(1)
  by (meson rtranclp_trans)

definition run_summary :: "eval_db \<Rightarrow> (eval_run_status option \<times> nat option \<times> int option) option" where
  "run_summary s = map_option (\<lambda>run. (rr_status run, rr_caseCount run, rr_pendingCases run)) (tbl_get (ed_runs s) ''run1'')"

definition case_summary ::
  "eval_db \<Rightarrow> ((string \<times> string) \<times> eval_case_kind option \<times> eval_case_status option \<times> bool) list" where
  "case_summary s = map (\<lambda>(k, row). (k, res_caseKind row, res_status row, res_completionRecorded row)) (ed_results s)"

lemma demo_worked_summary:
  "run_summary (snd demo_worked) = Some (Some RUN_COMPLETED, Some 2, Some 0) \<and>
   case_summary (snd demo_worked) =
     [((''run1'', ''c1''), Some CONVERSATION, Some CASE_COMPLETED, True),
      ((''run1'', ''c2''), Some CONVERSATION, Some CASE_COMPLETED, True)]"
  by code_simp

lemma demo_crashed_summary:
  "case_summary (snd demo_crashed) =
     [((''run1'', ''c1''), Some CONVERSATION, Some CASE_COMPLETED, True),
      ((''run1'', ''c2''), Some CONVERSATION, Some CASE_DISPATCHED, False)]"
  by code_simp

lemma demo_retried_summary:
  "run_summary (snd demo_retried) = Some (Some RUN_PENDING, Some 2, Some 1) \<and>
   case_summary (snd demo_retried) =
     [((''run1'', ''c1''), Some CONVERSATION, Some CASE_COMPLETED, True),
      ((''run1'', ''c2''), Some CONVERSATION, Some CASE_COMPLETED, True)]"
  by code_simp

lemma demo_rows:
  assumes "case_summary s = [((''run1'', ''c1''), k, st, b), ((''run1'', ''c2''), k', st', b')]"
  obtains x y where "ed_results s = [((''run1'', ''c1''), x), ((''run1'', ''c2''), y)]"
    and "res_caseKind x = k" and "res_status x = st" and "res_completionRecorded x = b"
    and "res_caseKind y = k'" and "res_status y = st'" and "res_completionRecorded y = b'"
  using assms by (auto simp: case_summary_def map_eq_Cons_conv)

lemma demo_recorded:
  assumes "case_summary s = [((''run1'', ''c1''), k, st, True), ((''run1'', ''c2''), k', st', True)]"
  shows "recorded_cases s ''run1'' = {''c1'', ''c2''}"
  by (rule demo_rows [OF assms]) (auto simp: recorded_cases_def tbl_get_def)

lemma demo_run:
  assumes "run_summary s = Some (st, n, p)"
  obtains run where "tbl_get (ed_runs s) ''run1'' = Some run" and "rr_status run = st"
    and "rr_caseCount run = n" and "rr_pendingCases run = p"
  using assms by (auto simp: run_summary_def)

lemma demo_gate_row:
  "map (\<lambda>(i, row). (i, as_eval_run i row)) (ed_runs (snd demo_worked)) =
     [(''run1'', \<lparr>run_evalRunId = ''run1'', run_orgId = Some ''org'', run_status = ''COMPLETED'',
        run_completedAt = Some ''now'', run_agentTargetVersion = Some ''v1'', run_scoreAggregates = None\<rparr>)]"
  by code_simp

definition demo_world :: world where
  "demo_world = sample_world\<lparr>w_runs := map (\<lambda>(i, row). (i, as_eval_run i row)) (ed_runs (snd demo_worked))\<rparr>"

lemma demo_evidence:
  "\<exists>i w'. resolveReleaseGateEvidence (sample_services m) sample_release ENV_DEV ''org'' p now demo_world = (Inr (Inr i), w')"
  unfolding demo_world_def demo_gate_row
  by (simp add: resolveReleaseGateEvidence_def gather_evidence_def resolveRunEvidence_def
      resolveSuiteEvidence_def resolveBaselineComparisonInput_def getEvalRun_def getEvalSuite_def
      listEvalRunCaseResults_def read_defs fetch_def service_def cmd_defs sample_services_def
      sample_world_def sample_release_def sample_suite_def tbl_get_def
      resolve_aggregates_def nonempty_str_def read_pointer_def)

section \<open>Properties\<close>

text \<open>C12. Soundness of completion under any interleaving of requests, workers, workflow completions and
  sweeps, with faults at every call and crashed threads: a run that is COMPLETED has as many case
  rows as its case count, at least one, and every one of them has ended and is recorded.\<close>

theorem run_completion_sound:
  assumes "initial s" and "schedules A env ([], s) (ps, t)"
    and "tbl_get (ed_runs t) r = Some run" and "rr_status run = Some RUN_COMPLETED"
  shows "cases_of t r \<noteq> {} \<and> rr_caseCount run = Some (card (cases_of t r)) \<and>
    (\<forall>c row. tbl_get (ed_results t) (r, c) = Some row \<longrightarrow>
       res_status row \<in> {Some CASE_COMPLETED, Some CASE_FAILED, Some CASE_TIMEOUT} \<and> res_completionRecorded row)"
  using completed_cases [OF assms] by (auto simp: terminal_def)

theorem run_completion_sound_witness:
  "cases_of (snd demo_worked) ''run1'' \<noteq> {}"
proof -
  obtain run where "tbl_get (ed_runs (snd demo_worked)) ''run1'' = Some run" "rr_status run = Some RUN_COMPLETED"
    by (rule demo_run [OF conjunct1 [OF demo_worked_summary]])
  with run_completion_sound [OF demo_initial demo_worked_run [of "\<lambda>_. True"]] show ?thesis
    by blast
qed

text \<open>C25. The counter of pending cases under any interleaving and any faults: it is between zero and the
  case count, never below the number of cases not yet recorded, and no more cases are recorded than the run has.\<close>

theorem pending_counter_bounds:
  assumes "initial s" and "schedules A env ([], s) (ps, t)" and "tbl_get (ed_runs t) r = Some run"
  shows "\<exists>n p. rr_caseCount run = Some n \<and> rr_pendingCases run = Some p \<and> 0 \<le> p \<and> p \<le> int n \<and>
    int n \<le> p + int (card (recorded_cases t r)) \<and> card (recorded_cases t r) \<le> n"
proof -
  from reachable_inv [OF assms(1,2)] obtain M where inv: "eval_inv env M t" .
  from run_facts [OF inv assms(3)] obtain n where n: "rr_caseCount run = Some n"
    "rr_pendingCases run = Some (int n - int (card (recorded_cases t r)) + int (count M (Owes r)))"
    "card (cases_of t r) \<le> n" "card (recorded_cases t r) \<le> card (cases_of t r)"
    "count M (Owes r) \<le> card (recorded_cases t r)"
    by blast
  then show ?thesis
    by (intro exI [of _ n] exI [of _ "int n - int (card (recorded_cases t r)) + int (count M (Owes r))"]) auto
qed

theorem pending_counter_bounds_witness:
  "\<exists>run n p. tbl_get (ed_runs (snd demo_retried)) ''run1'' = Some run \<and> rr_caseCount run = Some n \<and>
     rr_pendingCases run = Some p \<and> 0 \<le> p \<and> p \<le> int n"
proof -
  obtain run where "tbl_get (ed_runs (snd demo_retried)) ''run1'' = Some run"
    by (rule demo_run [OF conjunct1 [OF demo_retried_summary]])
  with pending_counter_bounds [OF demo_initial demo_retried_run [of "\<lambda>_. True"] this] show ?thesis
    by blast
qed

text \<open>C24. The completion of a run is announced at most once, whatever is redelivered, retried or run at the
  same time.\<close>

theorem completion_announced_once:
  assumes "initial s" and "schedules A env ([], s) (ps, t)"
  shows "length (filter (completes r) (ed_events t)) \<le> 1"
proof -
  from reachable_inv [OF assms(1,2)] obtain M where inv: "eval_inv env M t" .
  show ?thesis
  proof (cases "tbl_get (ed_runs t) r")
    case None
    moreover have "run_ok env M t r"
      using inv by (simp add: eval_inv_def)
    ultimately show ?thesis
      by (simp add: run_ok_def run_view_def announced_def)
  next
    case (Some run)
    from run_facts [OF inv this] have "announced t r \<le> (if rr_pendingCases run = Some 0 then 1 else 0)"
      by blast
    then show ?thesis
      by (simp add: announced_def split: if_splits)
  qed
qed

theorem completion_announced_once_witness:
  "length (filter (completes ''run1'') (ed_events (snd demo_worked))) \<le> 1"
  by (rule completion_announced_once [OF demo_initial demo_worked_run [of "\<lambda>_. True"]]) simp

text \<open>C13. When no call fails and the platform prints dates it can read, a run all of whose cases are
  recorded is COMPLETED as soon as every handler has returned.\<close>

theorem run_completes:
  assumes "initial s" and "schedules A env ([], s) (ps, t)"
    and "\<And>f. A f \<Longrightarrow> rp_fault f = None"
    and "\<And>x. ee_date_parse env (ee_iso env x) \<noteq> None \<and> ee_iso env x \<noteq> []"
    and "\<forall>p \<in> set ps. \<exists>a. p = Ret a"
    and "tbl_get (ed_runs t) r = Some run" and "rr_caseCount run = Some (card (recorded_cases t r))"
    and "recorded_cases t r \<noteq> {}"
  shows "rr_status run = Some RUN_COMPLETED \<and> rr_pendingCases run = Some 0"
proof -
  from accounted_start [OF assms(1,2)] obtain gs where acc: "accounted A env ps gs t" .
  have "nice A env"
    using assms(3,4) by (auto simp: nice_def dates_ok_def)
  note none = nothing_owed [OF acc this assms(5)]
  have "0 < card (recorded_cases t r)"
    using assms(8) finite_subset [OF recorded_subset finite_cases] by (simp add: card_gt_0_iff)
  moreover from run_facts [OF accounted_inv [OF acc] assms(6)] obtain n where "rr_caseCount run = Some n"
    "rr_pendingCases run = Some (int n - int (card (recorded_cases t r)) + int (count (\<Sum>\<^sub># (mset gs)) (Owes r)))"
    "0 < n \<Longrightarrow> rr_pendingCases run = Some 0 \<Longrightarrow> count (\<Sum>\<^sub># (mset gs)) (Finalizing r) = 0 \<Longrightarrow> rr_status run = Some RUN_COMPLETED"
    by blast
  ultimately show ?thesis
    using none assms(7) by simp
qed

theorem run_completes_witness:
  "\<exists>run. tbl_get (ed_runs (snd demo_worked)) ''run1'' = Some run \<and> rr_status run = Some RUN_COMPLETED"
proof -
  obtain run where "tbl_get (ed_runs (snd demo_worked)) ''run1'' = Some run" "rr_caseCount run = Some 2"
    by (rule demo_run [OF conjunct1 [OF demo_worked_summary]])
  with run_completes [OF demo_initial demo_worked_run [of "\<lambda>f. rp_fault f = None"] _ _ _ this(1)] show ?thesis
    by (simp add: good_reply_def demo_env_def demo_recorded [OF conjunct2 [OF demo_worked_summary]])
qed

text \<open>C23. A run all of whose cases are recorded while its counter is positive and every handler has ended,
  as a fault between the conditional update of the case and the decrement leaves it, never completes:
  no later request, redelivery or sweep, whatever it does, brings its counter to zero.\<close>

theorem unpaid_run_hangs:
  assumes "initial s" and "schedules A env ([], s) (ps, t)" and "schedules A env (ps, t) (qs, u)"
    and "\<forall>p \<in> set ps. \<exists>a. p = Ret a"
    and "tbl_get (ed_runs t) r = Some run" and "rr_caseCount run = Some (card (recorded_cases t r))"
    and "rr_pendingCases run = Some p" and "0 < p"
  shows "\<exists>run'. tbl_get (ed_runs u) r = Some run' \<and> rr_status run' \<noteq> Some RUN_COMPLETED \<and>
    (\<exists>p'. rr_pendingCases run' = Some p' \<and> 0 < p')"
proof -
  from accounted_start [OF assms(1,2)] obtain gs where acc: "accounted A env ps gs t" .
  from owed_stays [OF assms(3) acc assms(4)] obtain hs where hs: "accounted A env qs hs u" "eval_grows t u"
    and le: "count (\<Sum>\<^sub># (mset gs)) (Owes r) \<le> count (\<Sum>\<^sub># (mset hs)) (Owes r)"
    by metis
  define N where "N = \<Sum>\<^sub># (mset gs)"
  define K where "K = \<Sum>\<^sub># (mset hs)"
  have N: "eval_inv env N t" and K: "eval_inv env K u" and le: "count N (Owes r) \<le> count K (Owes r)"
    using accounted_inv [OF acc] accounted_inv [OF hs(1)] le by (simp_all only: N_def K_def)
  from run_facts [OF N assms(5)] obtain n where "rr_caseCount run = Some n"
    "rr_pendingCases run = Some (int n - int (card (recorded_cases t r)) + int (count N (Owes r)))"
    by blast
  with assms(6,7) have "int (count N (Owes r)) = p"
    by simp
  with assms(8) have "0 < count N (Owes r)"
    by (metis of_nat_0_less_iff)
  moreover from eval_growsD(2) [OF hs(2) assms(5)] obtain run' where run': "tbl_get (ed_runs u) r = Some run'"
    by blast
  moreover from run_facts [OF K run'] obtain n where
    "rr_pendingCases run' = Some (int n - int (card (recorded_cases u r)) + int (count K (Owes r)))"
    "card (recorded_cases u r) \<le> n" "rr_status run' = Some RUN_COMPLETED \<Longrightarrow> rr_pendingCases run' = Some 0"
    by (metis order_trans)
  ultimately show ?thesis
    using le by (intro exI [of _ run']) (auto simp del: count_greater_zero_iff)
qed

theorem unpaid_run_hangs_witness:
  "\<exists>run. tbl_get (ed_runs (snd demo_retried)) ''run1'' = Some run \<and> rr_status run \<noteq> Some RUN_COMPLETED"
proof -
  obtain run where "tbl_get (ed_runs (snd demo_retried)) ''run1'' = Some run" "rr_caseCount run = Some 2"
    "rr_pendingCases run = Some 1"
    by (rule demo_run [OF conjunct1 [OF demo_retried_summary]])
  with unpaid_run_hangs [OF demo_initial demo_retried_run [of "\<lambda>_. True"] rtranclp.rtrancl_refl _ this(1)] show ?thesis
    by (simp add: demo_recorded [OF conjunct2 [OF demo_retried_summary]])
qed

text \<open>C22. The gate and the runs it reads: when the evidence of a release is resolved on the rows the
  handlers keep, under any interleaving and any faults, every case of the release's run has ended
  and is recorded, and there is at least one.\<close>

theorem gate_reads_finished_run:
  assumes "resolveReleaseGateEvidence sv rel e org policy now w = (Inr (Inr i), w')"
    and "initial s" and "schedules A env ([], s) (ps, t)" and "shares_runs w t"
  shows "cases_of t (ev_evalRunId (con_evalEvidence rel)) \<noteq> {} \<and>
    (\<forall>c row. tbl_get (ed_results t) (ev_evalRunId (con_evalEvidence rel), c) = Some row \<longrightarrow>
       res_status row \<in> {Some CASE_COMPLETED, Some CASE_FAILED, Some CASE_TIMEOUT} \<and> res_completionRecorded row)"
proof -
  have "gather_evidence sv rel e org policy now w = (Inr i, w')"
    using assms(1) by (auto simp: resolveReleaseGateEvidence_def run_rules split: if_splits)
  from gather_evidence_Inr [OF this] obtain run where
    "owned_completed_run w org (ev_evalRunId (con_evalEvidence rel)) run"
    by blast
  then obtain row where "tbl_get (ed_runs t) (ev_evalRunId (con_evalEvidence rel)) = Some row"
    and "rr_status row = Some RUN_COMPLETED"
    using assms(4) as_eval_run_completed by (auto simp: owned_completed_run_def shares_runs_def)
  from completed_cases [OF assms(2,3) this] show ?thesis
    by (auto simp: terminal_def)
qed

theorem gate_reads_finished_run_witness:
  "cases_of (snd demo_worked) ''run1'' \<noteq> {}"
proof -
  obtain i w' where "resolveReleaseGateEvidence (sample_services ''strict'') sample_release ENV_DEV ''org''
      sample_policy ''2000'' demo_world = (Inr (Inr i), w')"
    using demo_evidence by blast
  moreover have "shares_runs demo_world (snd demo_worked)"
    using demo_gate_row by (auto simp: shares_runs_def demo_world_def tbl_get_def map_eq_Cons_conv)
  ultimately show ?thesis
    using gate_reads_finished_run [OF _ demo_initial demo_worked_run [of "\<lambda>_. True"]]
    by (fastforce simp: sample_release_def)
qed

lemma demo_ended_case_stays:
  "\<exists>row. tbl_get (ed_results (snd demo_retried)) (''run1'', ''c1'') = Some row \<and>
     res_status row \<in> {Some CASE_COMPLETED, Some CASE_FAILED, Some CASE_TIMEOUT}"
proof -
  obtain x y where "ed_results (snd demo_crashed) = [((''run1'', ''c1''), x), ((''run1'', ''c2''), y)]"
    "res_status x = Some CASE_COMPLETED"
    by (rule demo_rows [OF demo_crashed_summary])
  then show ?thesis
    using ended_case_stays [OF demo_initial demo_crashed_run [of "\<lambda>_. True"] demo_retry_run, of "(''run1'', ''c1'')" x]
    by (auto simp: tbl_get_def)
qed

lemma demo_conversation_waits:
  "\<exists>row. tbl_get (ed_results (snd demo_crashed)) (''run1'', ''c2'') = Some row \<and>
     res_caseKind row = Some CONVERSATION \<and> res_deadlineAt row = None"
proof -
  obtain x y where "ed_results (snd demo_crashed) = [((''run1'', ''c1''), x), ((''run1'', ''c2''), y)]"
    "res_caseKind y = Some CONVERSATION"
    by (rule demo_rows [OF demo_crashed_summary])
  then show ?thesis
    using conversation_never_times_out [OF demo_initial demo_crashed_run [of "\<lambda>_. True"], of "(''run1'', ''c2'')" y]
    by (auto simp: tbl_get_def)
qed

end
