(* ===== verification/ReleaseHash.thy ===== *)
theory ReleaseHash
  imports ReleaseTypes Tables "HOL-Library.Multiset"
begin

text \<open>
  The content address of a release (lambda/utils/release-hash.ts): the constituents are brought to
  a canonical form, printed as JSON and hashed. The printer is that of \<open>JSON.stringify\<close> on the
  values a release is made of; \<open>JSON.parse\<close> of a printed text is the value printed. SHA-256 in
  hexadecimal is an argument. An engine sorts by UTF-16 units and enumerates property names that are
  array indices first; the model sorts by bytes, another fixed order of the same fields.
\<close>

section \<open>JSON text\<close>

text \<open>The values a release is made of. Numbers are the versions, natural numbers.\<close>

datatype json =
    Null
  | Bool bool
  | Num nat
  | Text string
  | Items "json list"
  | Fields "(string \<times> json) list"

definition hex_char :: "nat \<Rightarrow> char" where
  "hex_char n = (if n < 10 then char_of (48 + n) else char_of (87 + n))"

definition esc :: "char \<Rightarrow> string" where
  "esc c =
     (if c = CHR 0x22 then [CHR 0x5C, CHR 0x22]
      else if c = CHR 0x5C then [CHR 0x5C, CHR 0x5C]
      else if c = CHR 0x08 then [CHR 0x5C, CHR ''b'']
      else if c = CHR 0x0C then [CHR 0x5C, CHR ''f'']
      else if c = CHR 0x0A then [CHR 0x5C, CHR ''n'']
      else if c = CHR 0x0D then [CHR 0x5C, CHR ''r'']
      else if c = CHR 0x09 then [CHR 0x5C, CHR ''t'']
      else if (of_char c :: nat) < 32
      then [CHR 0x5C, CHR ''u'', CHR ''0'', CHR ''0'', hex_char (of_char c div 16), hex_char (of_char c mod 16)]
      else [c])"

definition quote :: "string \<Rightarrow> string" where
  "quote s = CHR 0x22 # concat (map esc s) @ [CHR 0x22]"

fun join :: "string list \<Rightarrow> string" where
  "join [] = []"
| "join [x] = x"
| "join (x # y # zs) = x @ '','' @ join (y # zs)"

fun json_text :: "json \<Rightarrow> string" where
  "json_text Null = ''null''"
| "json_text (Bool b) = (if b then ''true'' else ''false'')"
| "json_text (Num n) = show_nat n"
| "json_text (Text s) = quote s"
| "json_text (Items xs) = ''['' @ join (map json_text xs) @ '']''"
| "json_text (Fields ps) = CHR 0x7B # join (map (\<lambda>p. quote (fst p) @ '':'' @ json_text (snd p)) ps) @ [CHR 0x7D]"

section \<open>Canonical form\<close>

fun canonicalize :: "json \<Rightarrow> json" where
  "canonicalize (Items xs) = Items (sort_key json_text (map canonicalize xs))"
| "canonicalize (Fields ps) = Fields (sort_key fst
     (filter (\<lambda>p. fst p \<noteq> ''__proto__'') (map (\<lambda>p. (fst p, canonicalize (snd p))) ps)))"
| "canonicalize v = v"

definition canonicalStringify :: "json \<Rightarrow> string" where
  "canonicalStringify v = json_text (canonicalize v)"

section \<open>The text determines the value\<close>

lemma hex_char_inject:
  assumes "m < 16" and "n < 16"
  shows "hex_char m = hex_char n \<longleftrightarrow> m = n"
proof -
  have "(of_char (hex_char k) :: nat) = (if k < 10 then 48 + k else 87 + k)" if "k < 16" for k
    using that by (simp add: hex_char_def)
  note code = this
  show ?thesis
  proof
    assume "hex_char m = hex_char n"
    then have "(if m < 10 then 48 + m else 87 + m) = (if n < 10 then 48 + n else 87 + n)"
      using code [OF assms(1)] code [OF assms(2)] by (simp only:)
    with assms show "m = n"
      by (cases "m < 10"; cases "n < 10") simp_all
  qed simp
qed

lemma esc_prefix: "esc c @ r = esc d @ s \<Longrightarrow> c = d \<and> r = s"
proof -
  assume eq: "esc c @ r = esc d @ s"
  have low: "c = d" if "(of_char c :: nat) < 32" "(of_char d :: nat) < 32"
    "hex_char (of_char c div 16) = hex_char (of_char d div 16)" "hex_char (of_char c mod 16) = hex_char (of_char d mod 16)"
  proof -
    have "(of_char c :: nat) div 16 = of_char d div 16" "(of_char c :: nat) mod 16 = of_char d mod 16"
      using that hex_char_inject [of "of_char c div 16" "of_char d div 16"] hex_char_inject [of "of_char c mod 16" "of_char d mod 16"]
      by (auto simp: less_mult_imp_div_less)
    then have "(of_char c :: nat) = of_char d"
      by (metis div_mult_mod_eq)
    then show ?thesis
      by simp
  qed
  show ?thesis
    using eq low unfolding esc_def by (auto split: if_splits)
qed

lemma esc_no_quote: "esc c \<noteq> [] \<and> hd (esc c) \<noteq> CHR 0x22"
  by (auto simp: esc_def)

lemma concat_esc_prefix:
  "concat (map esc s) @ CHR 0x22 # r = concat (map esc t) @ CHR 0x22 # r' \<Longrightarrow> s = t \<and> r = r'"
proof (induction s arbitrary: t)
  case Nil
  then show ?case
    using esc_no_quote by (cases t) (auto, (metis append_is_Nil_conv hd_append2 list.sel(1))+)
next
  case (Cons c s)
  show ?case
  proof (cases t)
    case Nil
    with Cons.prems show ?thesis
      using esc_no_quote [of c] by (cases "esc c") auto
  next
    case (Cons d t')
    with Cons.prems have "esc c @ (concat (map esc s) @ CHR 0x22 # r) = esc d @ (concat (map esc t') @ CHR 0x22 # r')"
      by simp
    from esc_prefix [OF this] Cons.IH [of t'] Cons show ?thesis
      by simp
  qed
qed

lemma quote_prefix: "quote s @ r = quote t @ r' \<Longrightarrow> s = t \<and> r = r'"
  using concat_esc_prefix [of s r t r'] by (simp add: quote_def)

definition stops :: "string \<Rightarrow> bool" where
  "stops r \<longleftrightarrow> (case r of [] \<Rightarrow> True | c # _ \<Rightarrow> c = CHR '','' \<or> c = CHR '']'' \<or> c = CHR 0x7D)"

lemma show_nat_prefix:
  assumes "show_nat m @ r = show_nat n @ s" and "stops r" and "stops s"
  shows "m = n \<and> r = s"
proof -
  have split: "takeWhile (\<lambda>c. 48 \<le> (of_char c :: nat) \<and> (of_char c :: nat) < 58) (show_nat k @ t) = show_nat k" if "stops t" for k t
    using that show_nat_digits [of _ k] by (subst takeWhile_append2) (auto simp: stops_def split: list.splits)
  from split [OF assms(2), of m] split [OF assms(3), of n] assms(1) show ?thesis
    by simp
qed


lemma stops_simps [simp]: "stops []" "stops (c # r) \<longleftrightarrow> c = CHR '','' \<or> c = CHR '']'' \<or> c = CHR 0x7D"
  by (simp_all add: stops_def)

text \<open>The first character of a text tells the kind of the value, and is not one that ends a list.\<close>

fun kind_char :: "json \<Rightarrow> char \<Rightarrow> bool" where
  "kind_char Null c \<longleftrightarrow> c = CHR ''n''"
| "kind_char (Bool b) c \<longleftrightarrow> c = (if b then CHR ''t'' else CHR ''f'')"
| "kind_char (Num n) c \<longleftrightarrow> 48 \<le> (of_char c :: nat) \<and> (of_char c :: nat) < 58"
| "kind_char (Text s) c \<longleftrightarrow> c = CHR 0x22"
| "kind_char (Items xs) c \<longleftrightarrow> c = CHR ''[''"
| "kind_char (Fields ps) c \<longleftrightarrow> c = CHR 0x7B"

lemma show_nat_not_Nil: "show_nat n \<noteq> []"
  by (simp add: show_nat.simps [of n])

lemma text_head: obtains c t where "json_text v = c # t" and "kind_char v c"
proof (cases v)
  case (Num n)
  then show ?thesis
    using that show_nat_not_Nil [of n] show_nat_digits [of _ n] by (cases "show_nat n") auto
next
  case (Bool b)
  with that show ?thesis
    by (cases b) auto
qed (use that in \<open>auto simp: quote_def\<close>)

lemma same_kind:
  assumes "json_text v @ r = json_text w @ s"
  obtains c where "kind_char v c" and "kind_char w c"
proof -
  obtain c t where "json_text v = c # t" "kind_char v c"
    by (rule text_head)
  moreover obtain d u where "json_text w = d # u" "kind_char w d"
    by (rule text_head)
  ultimately show thesis
    using assms that by auto
qed

lemma text_not_end: "json_text v \<noteq> []" "json_text v = c # t \<Longrightarrow> c \<noteq> CHR '']''"
  by (rule_tac v = v in text_head, simp) (rule_tac v = v in text_head, cases v; auto split: if_splits)

text \<open>Two lists of texts, each readable on its own, separated by commas.\<close>

lemma join_prefix:
  assumes "\<And>x y r s. x \<in> set xs \<Longrightarrow> stops r \<Longrightarrow> stops s \<Longrightarrow> f x @ r = f y @ s \<Longrightarrow> x = y \<and> r = s"
    and "\<And>x. f x \<noteq> []" and "\<And>x c t. f x = c # t \<Longrightarrow> c \<noteq> e"
    and "e = CHR '']'' \<or> e = CHR 0x7D"
    and "join (map f xs) @ e # r = join (map f ys) @ e # s"
  shows "xs = ys \<and> r = s"
  using assms(1,5)
proof (induction xs arbitrary: ys)
  case Nil
  show ?case
  proof (cases ys)
    case (Cons y zs)
    with Nil.prems(2) assms(2) [of y] assms(3) [of y] show ?thesis
      by (cases "f y"; cases zs) auto
  qed (use Nil.prems(2) in simp)
next
  case (Cons x xs)
  show ?case
  proof (cases ys)
    case Nil
    with Cons.prems(2) assms(2) [of x] assms(3) [of x] show ?thesis
      by (cases "f x"; cases xs) auto
  next
    case (Cons y zs)
    let ?rest = "\<lambda>vs t. if vs = [] then e # t else CHR '','' # join (map f vs) @ e # t"
    have unfold: "join (map f (v # vs)) @ e # t = f v @ ?rest vs t" for v vs t
      by (cases vs) simp_all
    have "f x @ ?rest xs r = f y @ ?rest zs s"
      using Cons.prems(2) unfolding Cons unfold .
    then have "x = y" and rest: "?rest xs r = ?rest zs s"
      using Cons.prems(1) [of x "?rest xs r" "?rest zs s" y] assms(4) by auto
    then have "xs = zs \<and> r = s"
    proof (cases "xs = [] \<or> zs = []")
      case True
      with rest assms(4) show ?thesis
        by (auto split: if_splits)
    next
      case False
      with rest have "join (map f xs) @ e # r = join (map f zs) @ e # s"
        by simp
      then show ?thesis
        using Cons.IH Cons.prems(1) by (metis list.set_intros(2))
    qed
    with \<open>x = y\<close> Cons show ?thesis
      by simp
  qed
qed

lemma json_text_prefix:
  "json_text v @ r = json_text w @ s \<Longrightarrow> stops r \<Longrightarrow> stops s \<Longrightarrow> v = w \<and> r = s"
proof (induction v arbitrary: w r s)
  case (Num n)
  obtain c where "kind_char (Num n) c" "kind_char w c"
    by (rule same_kind [OF Num.prems(1)])
  then obtain m where "w = Num m"
    by (cases w) (auto split: if_splits)
  with Num show_nat_prefix [of n r m s] show ?case
    by simp
next
  case (Items xs)
  obtain c where "kind_char (Items xs) c" "kind_char w c"
    by (rule same_kind [OF Items.prems(1)])
  then obtain ys where w: "w = Items ys"
    by (cases w) (auto split: if_splits)
  have "xs = ys \<and> r = s"
  proof (rule join_prefix [where f = json_text and e = "CHR '']''"])
    show "join (map json_text xs) @ CHR '']'' # r = join (map json_text ys) @ CHR '']'' # s"
      using Items.prems(1) by (simp add: w)
  qed (use Items.IH text_not_end in auto)
  with w show ?case
    by simp
next
  case (Fields ps)
  let ?f = "\<lambda>p. quote (fst p) @ '':'' @ json_text (snd p)"
  obtain c where "kind_char (Fields ps) c" "kind_char w c"
    by (rule same_kind [OF Fields.prems(1)])
  then obtain qs where w: "w = Fields qs"
    by (cases w) (auto split: if_splits)
  have "ps = qs \<and> r = s"
  proof (rule join_prefix [where f = ?f and e = "CHR 0x7D"])
    fix p q :: "string \<times> json" and t u
    assume p: "p \<in> set ps" and stop: "stops t" "stops u" and eq: "?f p @ t = ?f q @ u"
    then have "quote (fst p) @ ('':'' @ json_text (snd p) @ t) = quote (fst q) @ ('':'' @ json_text (snd q) @ u)"
      by simp
    from quote_prefix [OF this] have "fst p = fst q" and "json_text (snd p) @ t = json_text (snd q) @ u"
      by auto
    with Fields.IH [of p "snd p" t "snd q" u] p stop show "p = q \<and> t = u"
      by (cases p; cases q) (auto simp: snds.simps)
  next
    show "join (map ?f ps) @ CHR 0x7D # r = join (map ?f qs) @ CHR 0x7D # s"
      using Fields.prems(1) by (simp add: w)
  qed (auto simp: quote_def)
  with w show ?case
    by simp
next
  case Null
  obtain c where "kind_char Null c" "kind_char w c"
    by (rule same_kind [OF Null.prems(1)])
  with Null.prems(1) show ?case
    by (cases w) (auto split: if_splits)
next
  case (Bool b)
  obtain c where "kind_char (Bool b) c" "kind_char w c"
    by (rule same_kind [OF Bool.prems(1)])
  with Bool.prems(1) show ?case
    by (cases w; cases b) (auto split: if_splits)
next
  case (Text t)
  obtain c where "kind_char (Text t) c" "kind_char w c"
    by (rule same_kind [OF Text.prems(1)])
  then obtain u where "w = Text u"
    by (cases w) (auto split: if_splits)
  with Text.prems(1) quote_prefix [of t r u s] show ?case
    by simp
qed

lemma json_text_inject [simp]: "json_text v = json_text w \<longleftrightarrow> v = w"
  using json_text_prefix [of v "[]" w "[]"] by auto

lemma inj_json_text: "inj_on json_text A"
  by (simp add: inj_on_def)

section \<open>Order does not matter\<close>

text \<open>The same content: arrays up to the order of their members, objects up to the order of their keys.\<close>

inductive same_content :: "json \<Rightarrow> json \<Rightarrow> bool" where
  same_value: "same_content v v"
| same_items: "list_all2 same_content xs zs \<Longrightarrow> mset zs = mset ys \<Longrightarrow> same_content (Items xs) (Items ys)"
| same_fields: "list_all2 (rel_prod (=) same_content) ps rs \<Longrightarrow> mset rs = mset qs \<Longrightarrow> same_content (Fields ps) (Fields qs)"

text \<open>The keys of an object are distinct, at every depth.\<close>

fun distinct_keys :: "json \<Rightarrow> bool" where
  "distinct_keys (Items xs) \<longleftrightarrow> (\<forall>x\<in>set xs. distinct_keys x)"
| "distinct_keys (Fields ps) \<longleftrightarrow> distinct (map fst ps) \<and> (\<forall>p\<in>set ps. distinct_keys (snd p))"
| "distinct_keys v \<longleftrightarrow> True"

lemma sort_key_mset: "inj_on f (set xs) \<Longrightarrow> sort_key f xs = sort_key f ys \<longleftrightarrow> mset xs = mset ys"
  by (metis mset_sort sort_key_inj_key_eq sorted_sort_key)

lemma distinct_keys_inj: "distinct (map fst ps) \<Longrightarrow> inj_on fst (set ps)"
  by (simp add: distinct_map)

lemma canonicalize_keys:
  "map fst (filter P (map (\<lambda>p. (fst p, h (snd p))) ps)) = map fst (filter (\<lambda>p. P (fst p, h (snd p))) ps)"
  by (induction ps) auto

lemma canonicalize_same:
  "same_content v w \<Longrightarrow> distinct_keys v \<Longrightarrow> canonicalize v = canonicalize w"
proof (induction rule: same_content.induct)
  case (same_items xs zs ys)
  have "map canonicalize xs = map canonicalize zs"
    using same_items by (auto simp: list_eq_iff_nth_eq list_all2_conv_all_nth)
  moreover have "mset (map canonicalize zs) = mset (map canonicalize ys)"
    using same_items.hyps by simp
  ultimately show ?case
    by (simp add: sort_key_mset [OF inj_json_text])
next
  case (same_fields ps rs qs)
  let ?h = "\<lambda>p. (fst p, canonicalize (snd p))"
  have "map ?h ps = map ?h rs"
    using same_fields by (auto simp: list_eq_iff_nth_eq list_all2_conv_all_nth rel_prod_sel)
  moreover have "mset (map ?h rs) = mset (map ?h qs)"
    using same_fields.hyps by simp
  moreover have "inj_on fst (set (filter (\<lambda>p. fst p \<noteq> ''__proto__'') (map ?h ps)))"
    using same_fields.prems by (intro distinct_keys_inj) (simp add: canonicalize_keys distinct_map_filter)
  ultimately show ?case
    by (simp add: sort_key_mset mset_filter)
qed simp

text \<open>What is printed for one object or another order of it has the same text.\<close>

lemma canonicalStringify_same:
  "same_content v w \<Longrightarrow> distinct_keys v \<Longrightarrow> canonicalStringify v = canonicalStringify w"
  using canonicalize_same by (simp add: canonicalStringify_def)

section \<open>The hash of a release\<close>

definition snapshot_json :: "content_snapshot \<Rightarrow> json" where
  "snapshot_json s = Fields [(''sourceId'', Text (cs_sourceId s)), (''content'', Text (cs_content s)),
     (''digest'', Text (cs_digest s))]"

definition model_config_json :: "model_config_snapshot \<Rightarrow> json" where
  "model_config_json s = Fields [(''slot'', Text (mcs_slot s)), (''content'', Text (mcs_content s)),
     (''digest'', Text (mcs_digest s))]"

definition policy_json :: "policy_snapshot \<Rightarrow> json" where
  "policy_json p = Fields [(''enforcementMode'', Text (ps_enforcementMode p)),
     (''ruleSetVersion'', Text (ps_ruleSetVersion p)),
     (''authorityUnitGrantIds'', Items (map Text (ps_authorityUnitGrantIds p)))]"

definition evidence_json :: "eval_evidence \<Rightarrow> json" where
  "evidence_json e = Fields [(''evalRunId'', Text (ev_evalRunId e)), (''evalSuiteId'', Text (ev_evalSuiteId e)),
     (''evalSuiteVersion'', Num (ev_evalSuiteVersion e))]"

definition constituents_json :: "'a constituents_scheme \<Rightarrow> json" where
  "constituents_json c = Fields
     [(''agentConfig'', snapshot_json (con_agentConfig c)),
      (''promptVersions'', Fields (map (\<lambda>p. (fst p, snapshot_json (snd p))) (con_promptVersions c))),
      (''execSpecId'', Text (con_execSpecId c)),
      (''execSpecVersion'', Num (con_execSpecVersion c)),
      (''modelConfigSnapshots'', Items (map model_config_json (con_modelConfigSnapshots c))),
      (''toolConfigs'', Items (map snapshot_json (con_toolConfigs c))),
      (''policySnapshot'', policy_json (con_policySnapshot c)),
      (''evalEvidence'', evidence_json (con_evalEvidence c))]"

definition computeReleaseHash :: "(string \<Rightarrow> string) \<Rightarrow> 'a constituents_scheme \<Rightarrow> string" where
  "computeReleaseHash sha256 c = sha256 (canonicalStringify (constituents_json c))"

text \<open>Two sets of constituents with the same pins: lists of snapshots and grants up to their order,
  prompts by name.\<close>

definition same_pins :: "'a constituents_scheme \<Rightarrow> 'b constituents_scheme \<Rightarrow> bool" where
  "same_pins c d \<longleftrightarrow>
     con_agentConfig c = con_agentConfig d \<and>
     mset (filter (\<lambda>p. fst p \<noteq> ''__proto__'') (con_promptVersions c)) =
       mset (filter (\<lambda>p. fst p \<noteq> ''__proto__'') (con_promptVersions d)) \<and>
     con_execSpecId c = con_execSpecId d \<and> con_execSpecVersion c = con_execSpecVersion d \<and>
     mset (con_modelConfigSnapshots c) = mset (con_modelConfigSnapshots d) \<and>
     mset (con_toolConfigs c) = mset (con_toolConfigs d) \<and>
     ps_enforcementMode (con_policySnapshot c) = ps_enforcementMode (con_policySnapshot d) \<and>
     ps_ruleSetVersion (con_policySnapshot c) = ps_ruleSetVersion (con_policySnapshot d) \<and>
     mset (ps_authorityUnitGrantIds (con_policySnapshot c)) = mset (ps_authorityUnitGrantIds (con_policySnapshot d)) \<and>
     con_evalEvidence c = con_evalEvidence d"

lemma canonical_snapshot_inject: "canonicalize (snapshot_json s) = canonicalize (snapshot_json t) \<longleftrightarrow> s = t"
  by (cases s; cases t) (simp add: snapshot_json_def, auto)

lemma canonical_model_config_inject: "canonicalize (model_config_json s) = canonicalize (model_config_json t) \<longleftrightarrow> s = t"
  by (cases s; cases t) (simp add: model_config_json_def, auto)

lemma mset_map_inj: "inj f \<Longrightarrow> mset (map f xs) = mset (map f ys) \<longleftrightarrow> mset xs = mset ys"
  by (simp add: inj_eq [OF multiset.inj_map])

lemma canonical_items:
  assumes "\<And>x y. canonicalize (f x) = canonicalize (f y) \<longleftrightarrow> x = y"
  shows "canonicalize (Items (map f xs)) = canonicalize (Items (map f ys)) \<longleftrightarrow> mset xs = mset ys"
proof -
  have "inj (\<lambda>x. canonicalize (f x))"
    using assms by (simp add: inj_def)
  then show ?thesis
    using mset_map_inj [of "\<lambda>x. canonicalize (f x)" xs ys] by (simp add: sort_key_mset [OF inj_json_text] comp_def)
qed

lemma canonical_prompts:
  assumes "distinct (map fst ps)"
  shows "canonicalize (Fields (map (\<lambda>p. (fst p, snapshot_json (snd p))) ps)) =
      canonicalize (Fields (map (\<lambda>p. (fst p, snapshot_json (snd p))) qs)) \<longleftrightarrow>
    mset (filter (\<lambda>p. fst p \<noteq> ''__proto__'') ps) = mset (filter (\<lambda>p. fst p \<noteq> ''__proto__'') qs)"
proof -
  let ?h = "\<lambda>p. (fst p, canonicalize (snapshot_json (snd p)))"
  let ?own = "\<lambda>p :: string \<times> content_snapshot. fst p \<noteq> ''__proto__''"
  have eq: "canonicalize (Fields (map (\<lambda>p. (fst p, snapshot_json (snd p))) rs)) = Fields (sort_key fst (map ?h (filter ?own rs)))" for rs
    by (simp add: comp_def filter_map)
  have "inj_on fst (set (map ?h (filter ?own ps)))"
    using assms by (intro distinct_keys_inj) (simp add: comp_def distinct_map_filter)
  moreover have "inj ?h"
    by (auto simp: inj_def canonical_snapshot_inject)
  ultimately show ?thesis
    unfolding eq using mset_map_inj [of ?h "filter ?own ps" "filter ?own qs"] by (simp add: sort_key_mset del: mset_map mset_filter)
qed

lemma canonical_policy:
  "canonicalize (policy_json p) = canonicalize (policy_json q) \<longleftrightarrow>
     ps_enforcementMode p = ps_enforcementMode q \<and> ps_ruleSetVersion p = ps_ruleSetVersion q \<and>
     mset (ps_authorityUnitGrantIds p) = mset (ps_authorityUnitGrantIds q)"
  using canonical_items [of Text "ps_authorityUnitGrantIds p" "ps_authorityUnitGrantIds q"]
  by (auto simp: policy_json_def)

lemma canonical_evidence: "canonicalize (evidence_json e) = canonicalize (evidence_json f) \<longleftrightarrow> e = f"
  by (cases e; cases f) (simp add: evidence_json_def)

lemma canonical_record:
  "canonicalize (Fields [(''agentConfig'', a), (''promptVersions'', b), (''execSpecId'', c), (''execSpecVersion'', d),
      (''modelConfigSnapshots'', e), (''toolConfigs'', f), (''policySnapshot'', g), (''evalEvidence'', h)]) =
   Fields [(''agentConfig'', canonicalize a), (''evalEvidence'', canonicalize h), (''execSpecId'', canonicalize c),
      (''execSpecVersion'', canonicalize d), (''modelConfigSnapshots'', canonicalize e), (''policySnapshot'', canonicalize g),
      (''promptVersions'', canonicalize b), (''toolConfigs'', canonicalize f)]"
  by simp

lemma canonical_constituents:
  assumes "distinct (map fst (con_promptVersions c))"
  shows "canonicalize (constituents_json c) = canonicalize (constituents_json d) \<longleftrightarrow> same_pins c d"
  unfolding constituents_json_def canonical_record same_pins_def
  by (simp add: canonical_snapshot_inject canonical_evidence canonical_policy canonical_prompts [OF assms]
      canonical_items [OF canonical_snapshot_inject] canonical_items [OF canonical_model_config_inject]
      del: canonicalize.simps(1,2)) auto

section \<open>Identity\<close>


definition demo_pins :: "content_snapshot list \<Rightarrow> constituents" where
  "demo_pins tools =
     \<lparr>con_agentConfig = \<lparr>cs_sourceId = ''rec'', cs_content = ''{}'', cs_digest = ''d''\<rparr>,
      con_promptVersions = [(''system'', \<lparr>cs_sourceId = ''p1'', cs_content = ''be kind'', cs_digest = ''d''\<rparr>)],
      con_execSpecId = ''spec'', con_execSpecVersion = 1, con_modelConfigSnapshots = [], con_toolConfigs = tools,
      con_policySnapshot = \<lparr>ps_enforcementMode = ''strict'', ps_ruleSetVersion = ''1'', ps_authorityUnitGrantIds = []\<rparr>,
      con_evalEvidence = \<lparr>ev_evalRunId = ''run1'', ev_evalSuiteId = ''s1'', ev_evalSuiteVersion = 1\<rparr>\<rparr>"

definition demo_tool :: "string \<Rightarrow> content_snapshot" where
  "demo_tool name = \<lparr>cs_sourceId = name, cs_content = name, cs_digest = name\<rparr>"


text \<open>An own property called \<open>__proto__\<close> sets the prototype of the sorted copy and is lost: the hash
  does not cover a prompt of that name.\<close>

lemma proto_prompt_ignored:
  assumes "distinct (map fst (con_promptVersions c))" and "''__proto__'' \<notin> fst ` set (con_promptVersions c)"
  shows "computeReleaseHash sha256 (c\<lparr>con_promptVersions := (''__proto__'', p) # con_promptVersions c\<rparr>) =
    computeReleaseHash sha256 c"
proof -
  have "canonicalize (constituents_json c) =
      canonicalize (constituents_json (c\<lparr>con_promptVersions := (''__proto__'', p) # con_promptVersions c\<rparr>))"
    by (subst canonical_constituents [OF assms(1)]) (simp add: same_pins_def)
  then show ?thesis
    by (simp add: computeReleaseHash_def canonicalStringify_def)
qed

end
