(* ===== verification/ReleaseCut.thy ===== *)
theory ReleaseCut
  imports Auth Platform ReleaseHash
begin

text \<open>
  Cutting a release (lambda/release-resolver.ts): the constituents are validated against the tables
  and assembled, the release is put by the one module that writes the releases
  (lambda/release-store.ts), then its suite is frozen. The organisation of a specification is that
  of the owner of its project (utils/org-membership.ts). Each call is one step of a thread. The
  registry is a table of records; the provenance fields of a release are not modelled.
\<close>

section \<open>Rows\<close>

record registry_record =
  rgr_status :: string
  rgr_descriptor :: "string option"

record exec_spec_row =
  esr_status :: string
  esr_version :: nat
  esr_projectId :: string

record pinned_run =
  pr_status :: string
  pr_orgId :: "string option"
  pr_suiteId :: string
  pr_suiteVersion :: nat

record pinned_suite =
  psu_orgId :: "string option"
  psu_version :: nat
  psu_references :: "string list option"

record cut_db =
  cd_registry :: "(string, registry_record) table"
  cd_specs :: "(string, exec_spec_row) table"
  cd_projects :: "(string, string option) table"
  cd_memberships :: "(string, string option) table"
  cd_runs :: "(string, pinned_run) table"
  cd_suites :: "(string, pinned_suite) table"
  cd_releases :: "(string, agent_release) table"

record cut_env =
  cv_iso :: "rat \<Rightarrow> string"
  cv_sha256 :: "string \<Rightarrow> string"
  cv_json_parse :: "string \<Rightarrow> jsval option"
  cv_registryId :: bool
  cv_membershipTable :: bool
  cv_userPoolId :: bool

record cut_input =
  cti_agentTargetId :: string
  cti_semver :: string
  cti_registryRecordId :: string
  cti_execSpecId :: string
  cti_evalRunId :: string
  cti_promptVersions :: "(string \<times> content_snapshot) list"
  cti_modelConfigSnapshots :: "model_config_snapshot list"
  cti_toolConfigs :: "content_snapshot list"
  cti_policySnapshot :: policy_snapshot

type_synonym 'a cutter = "(cut_db, 'a) service"

section \<open>The organisation of an owner\<close>

definition is_hex :: "char \<Rightarrow> bool" where
  "is_hex c \<longleftrightarrow> (let n = (of_char c :: nat) in 48 \<le> n \<and> n < 58 \<or> 65 \<le> n \<and> n < 71 \<or> 97 \<le> n \<and> n < 103)"

definition UUID_SHAPE :: "string \<Rightarrow> bool" where
  "UUID_SHAPE s \<longleftrightarrow> length s = 36 \<and>
     list_all (\<lambda>(i, c). if i \<in> {8, 13, 18, 23} then c = CHR ''-'' else is_hex c) (enumerate 0 s)"

definition deriveOrgName :: "string option option \<Rightarrow> string option" where
  "deriveOrgName row = (case row of
       Some (Some orgName) \<Rightarrow> if length orgName > 0 then Some orgName else None
     | _ \<Rightarrow> None)"

definition readMembershipOrg :: "string \<Rightarrow> string option cutter" where
  "readMembershipOrg owner =
     bindT (readT (\<lambda>s. tbl_get (cd_memberships s) owner)) (\<lambda>row. retT (deriveOrgName row))"

text \<open>The platform answers with the attribute \<open>sub\<close> of the user, empty when it has none.\<close>

definition resolveSubFromUsername :: "cut_env \<Rightarrow> string \<Rightarrow> string option cutter" where
  "resolveSubFromUsername env username =
     (if \<not> cv_userPoolId env then retT None
      else bindT externalT (\<lambda>sub. retT (if sub \<noteq> [] \<and> sub \<noteq> username then Some sub else None)))"

definition lookupOwnerOrganization :: "cut_env \<Rightarrow> string \<Rightarrow> string option cutter" where
  "lookupOwnerOrganization env owner =
     (if owner = [] \<or> \<not> cv_membershipTable env then retT None
      else catchT
        (bindT (readMembershipOrg owner) (\<lambda>direct.
         if direct \<noteq> None then retT direct
         else if \<not> UUID_SHAPE owner
         then bindT (resolveSubFromUsername env owner) (\<lambda>sub.
           case sub of Some u \<Rightarrow> readMembershipOrg u | None \<Rightarrow> retT None)
         else retT None))
        (\<lambda>err. retT None))"

definition resolveExecSpecOrgId :: "cut_env \<Rightarrow> exec_spec_row \<Rightarrow> string option cutter" where
  "resolveExecSpecOrgId env execSpec =
     bindT (readT (\<lambda>s. tbl_get (cd_projects s) (esr_projectId execSpec))) (\<lambda>project.
     case project of
       Some (Some owner) \<Rightarrow> if owner = [] then retT None else lookupOwnerOrganization env owner
     | _ \<Rightarrow> retT None)"

section \<open>The store\<close>

definition put_release :: "agent_release \<Rightarrow> cut_db \<Rightarrow> (raw_error + unit) \<times> cut_db" where
  "put_release release s = (case tbl_get (cd_releases s) (rel_releaseId release) of
       Some _ \<Rightarrow> (Inl ConditionalCheckFailedException, s)
     | None \<Rightarrow> (Inr (), s\<lparr>cd_releases := tbl_put (rel_releaseId release) release (cd_releases s)\<rparr>))"

definition getRelease :: "string \<Rightarrow> agent_release option cutter" where
  "getRelease releaseId = readT (\<lambda>s. tbl_get (cd_releases s) releaseId)"

definition putRelease :: "cut_env \<Rightarrow> agent_release \<Rightarrow> agent_release cutter" where
  "putRelease env input =
     (let release = input\<lparr>rel_releaseId := computeReleaseHash (cv_sha256 env) input\<rparr>
      in bindT (unless_exists (callT (put_release release))) (\<lambda>created.
         case created of
           Some _ \<Rightarrow> retT release
         | None \<Rightarrow> bindT (getRelease (rel_releaseId release)) (\<lambda>existing.
             case existing of
               Some row \<Rightarrow> retT row
             | None \<Rightarrow> throwT (Sdk ConditionalCheckFailedException))))"

section \<open>Cutting\<close>

definition requireReleaseCutPermission :: "auth_context \<Rightarrow> unit cutter" where
  "requireReleaseCutPermission authContext =
     bindT (liftT (hasPermission authContext ''release:cut'')) (\<lambda>granted.
     guardT granted (UnauthorizedError ''release:cut''))"

text \<open>The organisation in the descriptor of a record: \<open>JSON.parse\<close> may throw, and so does a property of
  \<open>null\<close>.\<close>

definition descriptor_org :: "cut_env \<Rightarrow> registry_record \<Rightarrow> exn + jsval" where
  "descriptor_org env agentRecord = (case rgr_descriptor agentRecord of
       None \<Rightarrow> Inr JUndef
     | Some text \<Rightarrow>
         if text = [] then Inr JUndef
         else (case cv_json_parse env text of
             None \<Rightarrow> Inl (PlainError ''SyntaxError'')
           | Some v \<Rightarrow> if v = JNull then Inl TypeError else Inr (js_get v ''orgId'')))"

definition checked_record :: "cut_env \<Rightarrow> cut_input \<Rightarrow> jsval \<Rightarrow> registry_record cutter" where
  "checked_record env input callerOrgId =
     bindT (guardT (cv_registryId env) (PlainError ''REGISTRY_ID'')) (\<lambda>_.
     bindT (readT (\<lambda>s. tbl_get (cd_registry s) (cti_registryRecordId input))) (\<lambda>found.
     case found of
       None \<Rightarrow> throwT (ValidationError ''registry record not found'')
     | Some agentRecord \<Rightarrow>
         bindT (guardT (rgr_status agentRecord = ''APPROVED'') (ValidationError ''registry record must be APPROVED'')) (\<lambda>_.
         bindT (liftT (descriptor_org env agentRecord)) (\<lambda>org.
         bindT (guardT (js_truthy org) (SecurityError ''descriptor carries no orgId'')) (\<lambda>_.
         bindT (guardT (org = callerOrgId) (SecurityError ''registry record belongs to a different org'')) (\<lambda>_.
         retT agentRecord))))))"

definition checked_spec :: "cut_env \<Rightarrow> cut_input \<Rightarrow> jsval \<Rightarrow> exec_spec_row cutter" where
  "checked_spec env input callerOrgId =
     bindT (readT (\<lambda>s. tbl_get (cd_specs s) (cti_execSpecId input))) (\<lambda>found.
     case found of
       None \<Rightarrow> throwT (ValidationError ''exec spec not found'')
     | Some execSpec \<Rightarrow>
         bindT (guardT (esr_status execSpec = ''APPROVED'') (ValidationError ''exec spec must be APPROVED'')) (\<lambda>_.
         bindT (resolveExecSpecOrgId env execSpec) (\<lambda>execSpecOrgId.
         bindT (guardT (nonempty_str execSpecOrgId) (SecurityError ''owning org could not be determined'')) (\<lambda>_.
         bindT (guardT (map_option JStr execSpecOrgId = Some callerOrgId)
                  (SecurityError ''exec spec belongs to a different org'')) (\<lambda>_.
         retT execSpec)))))"

definition checked_run :: "cut_input \<Rightarrow> jsval \<Rightarrow> (pinned_run \<times> pinned_suite) cutter" where
  "checked_run input callerOrgId =
     bindT (readT (\<lambda>s. tbl_get (cd_runs s) (cti_evalRunId input))) (\<lambda>found.
     case found of
       None \<Rightarrow> throwT (ValidationError ''eval run not found'')
     | Some evalRun \<Rightarrow>
         bindT (guardT (pr_status evalRun = ''COMPLETED'') (ValidationError ''eval run must be COMPLETED'')) (\<lambda>_.
         bindT (guardT (map_option JStr (pr_orgId evalRun) = Some callerOrgId)
                  (SecurityError ''eval run belongs to a different org'')) (\<lambda>_.
         bindT (readT (\<lambda>s. tbl_get (cd_suites s) (pr_suiteId evalRun))) (\<lambda>suite.
         case suite of
           None \<Rightarrow> throwT (ValidationError ''eval suite not found'')
         | Some evalSuite \<Rightarrow>
             bindT (guardT (map_option JStr (psu_orgId evalSuite) = Some callerOrgId)
                      (SecurityError ''eval suite belongs to a different org'')) (\<lambda>_.
             bindT (guardT (psu_version evalSuite = pr_suiteVersion evalRun)
                      (ValidationError ''suiteVersion does not match'')) (\<lambda>_.
             retT (evalRun, evalSuite)))))))"

definition assembled :: "cut_env \<Rightarrow> cut_input \<Rightarrow> registry_record \<Rightarrow> exec_spec_row \<Rightarrow> pinned_run \<Rightarrow> constituents" where
  "assembled env input agentRecord execSpec evalRun =
     (let content = (case rgr_descriptor agentRecord of Some text \<Rightarrow> text | None \<Rightarrow> ''{}'')
      in \<lparr>con_agentConfig = \<lparr>cs_sourceId = cti_registryRecordId input, cs_content = content,
            cs_digest = cv_sha256 env content\<rparr>,
          con_promptVersions = cti_promptVersions input,
          con_execSpecId = cti_execSpecId input, con_execSpecVersion = esr_version execSpec,
          con_modelConfigSnapshots = cti_modelConfigSnapshots input,
          con_toolConfigs = cti_toolConfigs input, con_policySnapshot = cti_policySnapshot input,
          con_evalEvidence = \<lparr>ev_evalRunId = cti_evalRunId input, ev_evalSuiteId = pr_suiteId evalRun,
            ev_evalSuiteVersion = pr_suiteVersion evalRun\<rparr>\<rparr>)"

definition release_input :: "constituents \<Rightarrow> cut_input \<Rightarrow> jsval \<Rightarrow> string \<Rightarrow> string \<Rightarrow> agent_release" where
  "release_input pins input callerOrgId createdAt createdBy = constituents.extend pins
     \<lparr>rel_releaseId = [], rel_orgId = str_of callerOrgId, rel_agentTargetId = cti_agentTargetId input,
      rel_semver = cti_semver input, rel_createdAt = createdAt, rel_createdBy = createdBy\<rparr>"

definition set_references :: "string \<Rightarrow> string list \<Rightarrow> cut_db \<Rightarrow> cut_db" where
  "set_references suiteId refs s = s\<lparr>cd_suites := tbl_put suiteId
     ((case tbl_get (cd_suites s) suiteId of
         Some row \<Rightarrow> row
       | None \<Rightarrow> \<lparr>psu_orgId = None, psu_version = 0, psu_references = None\<rparr>)\<lparr>psu_references := Some refs\<rparr>) (cd_suites s)\<rparr>"

definition markEvalSuiteReferencedForRelease :: "string \<Rightarrow> pinned_suite \<Rightarrow> string \<Rightarrow> unit cutter" where
  "markEvalSuiteReferencedForRelease suiteId suite referenceId =
     (let nextReferences = first_occurrences
            ((case psu_references suite of Some refs \<Rightarrow> refs | None \<Rightarrow> []) @ [referenceId])
      in updateT (set_references suiteId nextReferences))"

definition checked_pins ::
  "cut_env \<Rightarrow> cut_input \<Rightarrow> auth_context \<Rightarrow> jsval \<Rightarrow> (constituents \<times> pinned_run \<times> pinned_suite) cutter" where
  "checked_pins env input authContext callerOrgId =
     bindT (requireReleaseCutPermission authContext) (\<lambda>_.
     bindT (checked_record env input callerOrgId) (\<lambda>agentRecord.
     bindT (checked_spec env input callerOrgId) (\<lambda>execSpec.
     bindT (checked_run input callerOrgId) (\<lambda>(evalRun, evalSuite).
     retT (assembled env input agentRecord execSpec evalRun, evalRun, evalSuite)))))"

definition cutAgentRelease :: "cut_env \<Rightarrow> cut_input \<Rightarrow> auth_context \<Rightarrow> jsval \<Rightarrow> agent_release cutter" where
  "cutAgentRelease env input authContext callerOrgId =
     bindT (checked_pins env input authContext callerOrgId) (\<lambda>(pins, evalRun, evalSuite).
     bindT clockT (\<lambda>ms.
     bindT (putRelease env (release_input pins input callerOrgId (cv_iso env ms) (ac_userId authContext))) (\<lambda>release.
     bindT (markEvalSuiteReferencedForRelease (pr_suiteId evalRun) evalSuite (cti_evalRunId input)) (\<lambda>_.
     retT release))))"

datatype cut_request = Cut_agent_release cut_input | Unknown_release_request string

definition release_handler :: "cut_env \<Rightarrow> cut_request gql_event \<Rightarrow> agent_release cutter" where
  "release_handler env event = (case ge_arguments event of
       Cut_agent_release input \<Rightarrow>
         (case extractOrgFromEvent event of
            None \<Rightarrow> throwT (ValidationError ''caller organization could not be determined'')
          | Some callerOrgId \<Rightarrow> cutAgentRelease env input (authContextFromEvent event) callerOrgId)
     | Unknown_release_request fieldName \<Rightarrow> throwT (UnsupportedField fieldName))"

end
