(* ===== verification/ReleaseCutTheorems.thy ===== *)
theory ReleaseCutTheorems
  imports ReleaseCut
begin

text \<open>
  Cutting a release: what a cut run alone has checked, the release a second cut of the same content
  answers, and the invariant of the releases when any number of cuts interleave.
\<close>

section \<open>What a cut has checked\<close>

definition owner_org :: "cut_env \<Rightarrow> cut_db \<Rightarrow> string \<Rightarrow> string \<Rightarrow> bool" where
  "owner_org env s owner org \<longleftrightarrow> org \<noteq> [] \<and>
     (tbl_get (cd_memberships s) owner = Some (Some org) \<or>
      (\<not> UUID_SHAPE owner \<and> cv_userPoolId env \<and> (\<exists>sub. tbl_get (cd_memberships s) sub = Some (Some org))))"

lemma deriveOrgName_Some: "deriveOrgName row = Some org \<longleftrightarrow> row = Some (Some org) \<and> org \<noteq> []"
  by (auto simp: deriveOrgName_def split: option.splits)

lemma readMembershipOrg_Some:
  assumes "alone (readMembershipOrg owner) fs s = (Inr (Some org), t)"
  shows "tbl_get (cd_memberships s) owner = Some (Some org) \<and> org \<noteq> []"
  using assms unfolding readMembershipOrg_def
  by (elim alone_bindT_Inr) (auto dest!: alone_dests simp: deriveOrgName_Some)

lemma reads_membership [reads_intros]: "reads_only (readMembershipOrg owner)"
  unfolding readMembershipOrg_def by (intro reads_intros)

lemma reads_sub [reads_intros]: "reads_only (resolveSubFromUsername env u)"
  unfolding resolveSubFromUsername_def by (intro reads_intros)

lemma reads_lookup [reads_intros]: "reads_only (lookupOwnerOrganization env owner)"
  unfolding lookupOwnerOrganization_def by (intro reads_intros)

lemma lookupOwnerOrganization_Some:
  assumes "alone (lookupOwnerOrganization env owner) fs s = (Inr (Some org), t)"
  shows "owner_org env s owner org"
proof -
  let ?body = "bindT (readMembershipOrg owner) (\<lambda>direct.
         if direct \<noteq> None then retT direct
         else if \<not> UUID_SHAPE owner
         then bindT (resolveSubFromUsername env owner) (\<lambda>sub.
           case sub of Some u \<Rightarrow> readMembershipOrg u | None \<Rightarrow> retT None)
         else retT None)"
  have "alone (catchT ?body (\<lambda>err. retT None)) fs s = (Inr (Some org), t)"
    using assms by (auto simp: lookupOwnerOrganization_def dest: alone_retT split: if_splits)
  then have "alone ?body fs s = (Inr (Some org), t)"
    by (rule alone_catchT_None)
  then obtain direct gs u where direct: "alone (readMembershipOrg owner) fs s = (Inr direct, u)" and
    rest: "alone (if direct \<noteq> None then retT direct
         else if \<not> UUID_SHAPE owner
         then bindT (resolveSubFromUsername env owner) (\<lambda>sub.
           case sub of Some u \<Rightarrow> readMembershipOrg u | None \<Rightarrow> retT None)
         else retT None) gs u = (Inr (Some org), t)"
    by (rule alone_bindT_Inr)
  have u: "u = s"
    by (rule reads_onlyD [OF reads_membership direct])
  show ?thesis
  proof (cases direct)
    case (Some o')
    with rest direct readMembershipOrg_Some [of owner fs s o' u] show ?thesis
      by (auto dest!: alone_retT simp: owner_org_def)
  next
    case None
    with rest have shape: "\<not> UUID_SHAPE owner" and "alone (bindT (resolveSubFromUsername env owner) (\<lambda>sub.
           case sub of Some u \<Rightarrow> readMembershipOrg u | None \<Rightarrow> retT None)) gs u = (Inr (Some org), t)"
      by (auto dest!: alone_retT split: if_splits)
    from this(2) obtain sub hs v where sub: "alone (resolveSubFromUsername env owner) gs u = (Inr sub, v)" and
      found: "alone (case sub of Some u \<Rightarrow> readMembershipOrg u | None \<Rightarrow> retT None) hs v = (Inr (Some org), t)"
      by (rule alone_bindT_Inr)
    then have "v = s" and "cv_userPoolId env \<or> sub = None"
      using reads_onlyD [OF reads_sub sub] u
      by (auto simp: resolveSubFromUsername_def dest!: alone_retT split: if_splits)
    with found shape show ?thesis
      by (cases sub) (auto dest!: alone_retT readMembershipOrg_Some simp: owner_org_def)
  qed
qed

lemma resolveExecSpecOrgId_Some:
  assumes "alone (resolveExecSpecOrgId env execSpec) fs s = (Inr (Some org), t)"
  shows "\<exists>owner. tbl_get (cd_projects s) (esr_projectId execSpec) = Some (Some owner) \<and> owner_org env s owner org"
  using assms unfolding resolveExecSpecOrgId_def
  by (elim alone_bindT_Inr)
    (auto dest!: alone_dests lookupOwnerOrganization_Some split: option.splits if_splits, metis)

lemma reads_spec_org [reads_intros]: "reads_only (resolveExecSpecOrgId env execSpec)"
  unfolding resolveExecSpecOrgId_def by (intro reads_intros)

definition record_ok :: "cut_env \<Rightarrow> cut_db \<Rightarrow> cut_input \<Rightarrow> jsval \<Rightarrow> registry_record \<Rightarrow> bool" where
  "record_ok env s input org r \<longleftrightarrow> tbl_get (cd_registry s) (cti_registryRecordId input) = Some r \<and>
     rgr_status r = ''APPROVED'' \<and> descriptor_org env r = Inr org \<and> js_truthy org"

definition spec_ok :: "cut_env \<Rightarrow> cut_db \<Rightarrow> cut_input \<Rightarrow> jsval \<Rightarrow> exec_spec_row \<Rightarrow> bool" where
  "spec_ok env s input org spec \<longleftrightarrow> tbl_get (cd_specs s) (cti_execSpecId input) = Some spec \<and>
     esr_status spec = ''APPROVED'' \<and>
     (\<exists>owner o'. tbl_get (cd_projects s) (esr_projectId spec) = Some (Some owner) \<and> owner_org env s owner o' \<and> org = JStr o')"

definition pinned_ok :: "cut_db \<Rightarrow> cut_input \<Rightarrow> jsval \<Rightarrow> pinned_run \<Rightarrow> pinned_suite \<Rightarrow> bool" where
  "pinned_ok s input org run suite \<longleftrightarrow> tbl_get (cd_runs s) (cti_evalRunId input) = Some run \<and>
     pr_status run = ''COMPLETED'' \<and> map_option JStr (pr_orgId run) = Some org \<and>
     tbl_get (cd_suites s) (pr_suiteId run) = Some suite \<and> map_option JStr (psu_orgId suite) = Some org \<and>
     psu_version suite = pr_suiteVersion run"

lemma reads_record [reads_intros]: "reads_only (checked_record env input org)"
  unfolding checked_record_def by (intro reads_intros)

lemma reads_spec [reads_intros]: "reads_only (checked_spec env input org)"
  unfolding checked_spec_def by (intro reads_intros)

lemma reads_run [reads_intros]: "reads_only (checked_run input org)"
  unfolding checked_run_def by (intro reads_intros)

lemma reads_cut_permission [reads_intros]: "reads_only (requireReleaseCutPermission ctx)"
  unfolding requireReleaseCutPermission_def by (intro reads_intros)

lemma checked_record_Inr:
  assumes "alone (checked_record env input org) fs s = (Inr r, t)"
  shows "record_ok env s input org r"
  using assms unfolding checked_record_def
  by (elim alone_bindT_Inr) (auto dest!: alone_dests elim!: alone_bindT_Inr simp: alone_throwT record_ok_def split: option.splits)

lemma checked_spec_Inr:
  assumes "alone (checked_spec env input org) fs s = (Inr spec, t)"
  shows "spec_ok env s input org spec"
proof -
  from assms obtain found gs u where found: "alone (readT (\<lambda>s. tbl_get (cd_specs s) (cti_execSpecId input))) fs s = (Inr found, u)"
    and rest: "alone (case found of None \<Rightarrow> throwT (ValidationError ''exec spec not found'') | Some execSpec \<Rightarrow>
         bindT (guardT (esr_status execSpec = ''APPROVED'') (ValidationError ''exec spec must be APPROVED'')) (\<lambda>_.
         bindT (resolveExecSpecOrgId env execSpec) (\<lambda>execSpecOrgId.
         bindT (guardT (nonempty_str execSpecOrgId) (SecurityError ''owning org could not be determined'')) (\<lambda>_.
         bindT (guardT (map_option JStr execSpecOrgId = Some org)
                  (SecurityError ''exec spec belongs to a different org'')) (\<lambda>_.
         retT execSpec))))) gs u = (Inr spec, t)"
    unfolding checked_spec_def by (rule alone_bindT_Inr)
  from found have eq: "found = tbl_get (cd_specs s) (cti_execSpecId input)" "u = s"
    by (auto dest: alone_readT)
  show ?thesis
  proof (cases found)
    case (Some row)
    with rest obtain o1 hs where org: "alone (resolveExecSpecOrgId env row) hs s = (Inr o1, s)"
      and row: "esr_status row = ''APPROVED''" "map_option JStr o1 = Some org" "row = spec"
      by (auto elim!: alone_bindT_Inr dest!: alone_dests simp: eq)
        (metis reads_onlyD reads_spec_org)
    then obtain o' where "o1 = Some o'" "org = JStr o'"
      by auto
    with resolveExecSpecOrgId_Some [of env row hs s o' s] org row Some eq show ?thesis
      by (auto simp: spec_ok_def)
  qed (use rest in \<open>simp add: alone_throwT\<close>)
qed

lemma checked_run_Inr:
  assumes "alone (checked_run input org) fs s = (Inr (run, suite), t)"
  shows "pinned_ok s input org run suite"
  using assms unfolding checked_run_def
  by (elim alone_bindT_Inr) (auto dest!: alone_dests elim!: alone_bindT_Inr simp: alone_throwT pinned_ok_def split: option.splits)

lemma permission_Inr:
  "alone (requireReleaseCutPermission ctx) fs s = (Inr a, t) \<Longrightarrow> hasPermission ctx ''release:cut'' = Inr True"
  unfolding requireReleaseCutPermission_def by (elim alone_bindT_Inr) (auto dest!: alone_dests)

lemma putRelease_Inr:
  assumes "alone (putRelease env input) fs s = (Inr rel, t)"
  shows "\<exists>id. id = computeReleaseHash (cv_sha256 env) input \<and> tbl_get (cd_releases t) id = Some rel \<and>
    (case tbl_get (cd_releases s) id of
       Some row \<Rightarrow> rel = row \<and> t = s
     | None \<Rightarrow> rel = input\<lparr>rel_releaseId := id\<rparr> \<and> t = s\<lparr>cd_releases := tbl_put id rel (cd_releases s)\<rparr>)"
proof -
  let ?id = "computeReleaseHash (cv_sha256 env) input"
  let ?rel = "input\<lparr>rel_releaseId := ?id\<rparr>"
  from assms obtain created gs u where created: "alone (unless_exists (callT (put_release ?rel))) fs s = (Inr created, u)"
    and rest: "alone (case created of Some _ \<Rightarrow> retT ?rel
         | None \<Rightarrow> bindT (getRelease (rel_releaseId ?rel)) (\<lambda>existing.
             case existing of Some row \<Rightarrow> retT row | None \<Rightarrow> throwT (Sdk ConditionalCheckFailedException))) gs u = (Inr rel, t)"
    unfolding putRelease_def Let_def by (rule alone_bindT_Inr)
  have found: "tbl_get (cd_releases u) ?id = Some rel \<and> t = u" if "created = None"
    using rest that
    by (auto simp: getRelease_def alone_throwT elim!: alone_bindT_Inr dest!: alone_dests split: option.splits)
  show ?thesis
  proof (cases "tbl_get (cd_releases s) ?id")
    case None
    from alone_callT_unless [OF created] have "(created \<noteq> None \<and> u = snd (put_release ?rel s)) \<or> created = None \<and> (u = s \<or> u = snd (put_release ?rel s))"
      by auto
    with None found rest show ?thesis
      by (auto simp: put_release_def dest!: alone_retT)
  next
    case (Some row)
    then have "created = None \<and> u = s"
      using alone_callT_unless [OF created] by (auto simp: put_release_def)
    with found Some show ?thesis
      by simp
  qed
qed

lemma mark_Inr:
  assumes "alone (markEvalSuiteReferencedForRelease suiteId suite refId) fs s = (Inr a, t)"
  shows "cd_releases t = cd_releases s \<and>
    (\<exists>row refs. tbl_get (cd_suites t) suiteId = Some row \<and> psu_references row = Some refs \<and> refId \<in> set refs)"
  using assms
  by (auto simp: markEvalSuiteReferencedForRelease_def updateT_def callT_def retT_def throwT_def set_references_def Let_def
      split: option.splits)

lemma reads_pins [reads_intros]: "reads_only (checked_pins env input ctx org)"
  unfolding checked_pins_def by (intro reads_intros) (auto intro: reads_intros)

lemma checked_pins_Inr:
  assumes "alone (checked_pins env input ctx org) fs s = (Inr (pins, run, suite), t)"
  shows "hasPermission ctx ''release:cut'' = Inr True \<and> pinned_ok s input org run suite \<and>
    (\<exists>r spec. record_ok env s input org r \<and> spec_ok env s input org spec \<and> pins = assembled env input r spec run)"
proof -
  from assms obtain a1 f1 where 1: "alone (requireReleaseCutPermission ctx) fs s = (Inr a1, s)" and
    "alone (bindT (checked_record env input org) (\<lambda>agentRecord. bindT (checked_spec env input org) (\<lambda>execSpec.
      bindT (checked_run input org) (\<lambda>(evalRun, evalSuite).
      retT (assembled env input agentRecord execSpec evalRun, evalRun, evalSuite))))) f1 s = (Inr (pins, run, suite), t)"
    unfolding checked_pins_def by (rule alone_bindT_reads [OF _ reads_cut_permission])
  from this(2) obtain r f2 where 2: "alone (checked_record env input org) f1 s = (Inr r, s)" and
    "alone (bindT (checked_spec env input org) (\<lambda>execSpec. bindT (checked_run input org) (\<lambda>(evalRun, evalSuite).
      retT (assembled env input r execSpec evalRun, evalRun, evalSuite)))) f2 s = (Inr (pins, run, suite), t)"
    by (rule alone_bindT_reads [OF _ reads_record])
  from this(2) obtain spec f3 where 3: "alone (checked_spec env input org) f2 s = (Inr spec, s)" and
    "alone (bindT (checked_run input org) (\<lambda>(evalRun, evalSuite).
      retT (assembled env input r spec evalRun, evalRun, evalSuite))) f3 s = (Inr (pins, run, suite), t)"
    by (rule alone_bindT_reads [OF _ reads_spec])
  from this(2) obtain x f4 where 4: "alone (checked_run input org) f3 s = (Inr x, s)" and
    "alone (case x of (evalRun, evalSuite) \<Rightarrow>
      (retT (assembled env input r spec evalRun, evalRun, evalSuite) :: (constituents \<times> pinned_run \<times> pinned_suite) cutter)) f4 s = (Inr (pins, run, suite), t)"
    by (rule alone_bindT_reads [OF _ reads_run])
  from this(2) have "x = (run, suite)" and pins: "pins = assembled env input r spec run"
    by (auto dest!: alone_retT split: prod.splits)
  with 4 have "pinned_ok s input org run suite"
    using checked_run_Inr by blast
  with permission_Inr [OF 1] checked_record_Inr [OF 2] checked_spec_Inr [OF 3] pins show ?thesis
    by blast
qed

lemma cut_Inr:
  assumes "alone (cutAgentRelease env input ctx org) fs s = (Inr rel, t)"
  obtains r spec run suite createdAt u where "hasPermission ctx ''release:cut'' = Inr True" and "record_ok env s input org r"
    and "spec_ok env s input org spec" and "pinned_ok s input org run suite"
    and "\<exists>gs. alone (putRelease env (release_input (assembled env input r spec run) input org createdAt (ac_userId ctx))) gs s = (Inr rel, u)"
    and "\<exists>hs a. alone (markEvalSuiteReferencedForRelease (pr_suiteId run) suite (cti_evalRunId input)) hs u = (Inr a, t)"
proof -
  from assms obtain x f1 where x: "alone (checked_pins env input ctx org) fs s = (Inr x, s)" and
    rest: "alone (case x of (pins, evalRun, evalSuite) \<Rightarrow> bindT clockT (\<lambda>ms.
     bindT (putRelease env (release_input pins input org (cv_iso env ms) (ac_userId ctx))) (\<lambda>release.
     bindT (markEvalSuiteReferencedForRelease (pr_suiteId evalRun) evalSuite (cti_evalRunId input)) (\<lambda>_.
     retT release)))) f1 s = (Inr rel, t)"
    unfolding cutAgentRelease_def by (rule alone_bindT_reads [OF _ reads_pins])
  obtain pins run suite where eq: "x = (pins, run, suite)"
    by (cases x)
  from rest obtain ms f2 where "alone (bindT (putRelease env (release_input pins input org (cv_iso env ms) (ac_userId ctx))) (\<lambda>release.
     bindT (markEvalSuiteReferencedForRelease (pr_suiteId run) suite (cti_evalRunId input)) (\<lambda>_. retT release))) f2 s = (Inr rel, t)"
    unfolding eq prod.case by (rule alone_bindT_reads [OF _ reads_clock])
  then have "\<exists>gs u hs a. alone (putRelease env (release_input pins input org (cv_iso env ms) (ac_userId ctx))) gs s = (Inr rel, u) \<and>
      alone (markEvalSuiteReferencedForRelease (pr_suiteId run) suite (cti_evalRunId input)) hs u = (Inr a, t)"
    by (elim alone_bindT_Inr) (auto dest!: alone_retT)
  with checked_pins_Inr [of env input ctx org fs s pins run suite s] x eq that show thesis
    by blast
qed

lemma hash_release_input [simp]:
  "computeReleaseHash h (release_input pins input org createdAt author) = computeReleaseHash h pins"
  by (simp add: computeReleaseHash_def constituents_json_def release_input_def constituents.defs)

lemma hash_with_id [simp]: "computeReleaseHash h (rel\<lparr>rel_releaseId := i\<rparr>) = computeReleaseHash h rel"
  by (simp add: computeReleaseHash_def constituents_json_def)

lemma mark_keeps:
  "alone (markEvalSuiteReferencedForRelease suiteId suite refId) fs s = (Inr a, t) \<Longrightarrow>
    cd_registry t = cd_registry s \<and> cd_specs t = cd_specs s \<and> cd_runs t = cd_runs s"
  by (auto simp: markEvalSuiteReferencedForRelease_def updateT_def callT_def retT_def throwT_def set_references_def Let_def
      split: option.splits)

lemma cut_keeps:
  assumes "alone (cutAgentRelease env input ctx org) fs s = (Inr rel, t)"
  shows "cd_registry t = cd_registry s \<and> cd_specs t = cd_specs s \<and> cd_runs t = cd_runs s"
proof -
  from assms obtain r spec run suite createdAt u where
    put: "\<exists>gs. alone (putRelease env (release_input (assembled env input r spec run) input org createdAt (ac_userId ctx))) gs s = (Inr rel, u)"
    and mark: "\<exists>hs a. alone (markEvalSuiteReferencedForRelease (pr_suiteId run) suite (cti_evalRunId input)) hs u = (Inr a, t)"
    by (rule cut_Inr)
  from put have "cd_registry u = cd_registry s \<and> cd_specs u = cd_specs s \<and> cd_runs u = cd_runs s"
    by (auto dest!: putRelease_Inr split: option.splits)
  with mark mark_keeps show ?thesis
    by metis
qed

section \<open>Any number of cuts at the same time\<close>

definition pins_run :: "cut_db \<Rightarrow> agent_release \<Rightarrow> bool" where
  "pins_run s rel \<longleftrightarrow> (\<exists>run. tbl_get (cd_runs s) (ev_evalRunId (con_evalEvidence rel)) = Some run \<and>
     pr_status run = ''COMPLETED'' \<and> pr_orgId run = Some (rel_orgId rel) \<and>
     pr_suiteId run = ev_evalSuiteId (con_evalEvidence rel) \<and>
     pr_suiteVersion run = ev_evalSuiteVersion (con_evalEvidence rel))"

definition cut_inv :: "cut_env \<Rightarrow> cut_db \<Rightarrow> bool" where
  "cut_inv env s \<longleftrightarrow> (\<forall>i rel. tbl_get (cd_releases s) i = Some rel \<longrightarrow>
     rel_releaseId rel = i \<and> i = computeReleaseHash (cv_sha256 env) rel \<and> pins_run s rel)"

definition runs_stay :: "cut_db \<Rightarrow> cut_db \<Rightarrow> bool" where
  "runs_stay s t \<longleftrightarrow> (\<forall>r run. tbl_get (cd_runs s) r = Some run \<longrightarrow> pr_status run = ''COMPLETED'' \<longrightarrow>
     tbl_get (cd_runs t) r = Some run)"

definition cut_grows :: "cut_db \<Rightarrow> cut_db \<Rightarrow> bool" where
  "cut_grows s t \<longleftrightarrow> runs_stay s t \<and>
     (\<forall>i rel. tbl_get (cd_releases s) i = Some rel \<longrightarrow> tbl_get (cd_releases t) i = Some rel)"

text \<open>The other writers: no module but the store writes a release, and a completed run keeps its row.\<close>

definition cut_others :: "cut_db \<Rightarrow> cut_db \<Rightarrow> bool" where
  "cut_others s t \<longleftrightarrow> cd_releases t = cd_releases s \<and> runs_stay s t"

definition cut_launched :: "cut_env \<Rightarrow> cut_db \<Rightarrow> agent_release cutter \<Rightarrow> bool" where
  "cut_launched env s p \<longleftrightarrow> (\<exists>event. p = release_handler env event)"

interpretation ct: concurrent A "\<lambda>M :: unit multiset. cut_inv env" cut_grows for A env
  by unfold_locales (auto simp: cut_grows_def runs_stay_def)

lemma pins_run_grows: "pins_run s rel \<Longrightarrow> cut_grows s t \<Longrightarrow> pins_run t rel"
  by (fastforce simp: pins_run_def cut_grows_def runs_stay_def)

definition ensures ::
  "(reply \<Rightarrow> bool) \<Rightarrow> cut_env \<Rightarrow> ('a \<Rightarrow> cut_db \<Rightarrow> bool) \<Rightarrow> 'a cutter \<Rightarrow> cut_db \<Rightarrow> bool" where
  "ensures A env P p s \<longleftrightarrow>
     safe A (\<lambda>M :: unit multiset. cut_inv env) cut_grows (\<lambda>g r t. \<forall>a. r = Inr a \<longrightarrow> P a t) p () s"

lemma ensures_bind:
  fixes p :: "'a cutter"
  assumes "ensures A env P p s" and "\<And>a t. cut_grows s t \<Longrightarrow> P a t \<Longrightarrow> ensures A env Q (h a) t"
  shows "ensures A env Q (bindT p h) s"
  unfolding ensures_def
proof (rule ct.bindT, rule ct.mono)
  show "safe A (\<lambda>M :: unit multiset. cut_inv env) cut_grows (\<lambda>g r t. \<forall>a. r = Inr a \<longrightarrow> P a t) p () s"
    using assms(1) by (simp add: ensures_def)
  fix g :: unit and r :: "exn + 'a" and t
  assume "cut_grows s t" and "\<forall>a. r = Inr a \<longrightarrow> P a t"
  then show "safe A (\<lambda>M :: unit multiset. cut_inv env) cut_grows (\<lambda>g r t. \<forall>a. r = Inr a \<longrightarrow> Q a t)
      (case r of Inl e \<Rightarrow> Ret (Inl e) | Inr a \<Rightarrow> h a) g t"
    using assms(2) by (cases r) (auto simp: ensures_def)
qed

lemma ensures_weaken:
  assumes "ensures A env P p s" and "\<And>a t. cut_grows s t \<Longrightarrow> P a t \<Longrightarrow> Q a t"
  shows "ensures A env Q p s"
  using assms unfolding ensures_def by (auto intro: ct.mono)

lemma ensures_ret: "(\<And>t. cut_grows s t \<Longrightarrow> P a t) \<Longrightarrow> ensures A env P (retT a) s"
  by (simp add: ensures_def retT_def)

lemma ensures_throw: "ensures A env P (throwT e) s"
  by (simp add: ensures_def throwT_def)

lemma ensures_reads: "reads_only p \<Longrightarrow> ensures A env (\<lambda>_ _. True) p s"
  unfolding ensures_def by (induction p arbitrary: s) (auto simp: ct.R_refl, metis rangeI)

lemma ensures_then: "reads_only p \<Longrightarrow> (\<And>a t. cut_grows s t \<Longrightarrow> ensures A env Q (h a) t) \<Longrightarrow> ensures A env Q (bindT p h) s"
  by (rule ensures_bind [OF ensures_reads])

lemma ensures_call:
  assumes "\<And>t. cut_grows s t \<Longrightarrow> cut_inv env t \<Longrightarrow> cut_inv env (snd (m t)) \<and> cut_grows t (snd (m t)) \<and>
      (\<forall>a u. fst (m t) = Inr a \<longrightarrow> cut_grows (snd (m t)) u \<longrightarrow> P a u)"
  shows "ensures A env P (callT m) s"
  unfolding ensures_def callT_def
  using assms by (auto simp: throwT_def retT_def ct.R_refl split: option.split sum.split)

lemma ensures_option:
  "(x = None \<Longrightarrow> ensures A env P p s) \<Longrightarrow> (\<And>y. x = Some y \<Longrightarrow> ensures A env P (q y) s) \<Longrightarrow>
    ensures A env P (case x of None \<Rightarrow> p | Some y \<Rightarrow> q y) s"
  by (cases x) auto

lemma ensures_guard: "ensures A env (\<lambda>_ _. b) (guardT b e) s"
  by (simp add: ensures_def guardT_def retT_def throwT_def)

lemma ensures_read: "(\<And>t u. cut_inv env t \<Longrightarrow> cut_grows s t \<Longrightarrow> cut_grows t u \<Longrightarrow> P (f t) u) \<Longrightarrow> ensures A env P (readT f) s"
  unfolding readT_def by (rule ensures_call) (auto simp: ct.R_refl)

lemma ensures_checked_run:
  "ensures A env (\<lambda>x t. case x of (run, suite) \<Rightarrow> tbl_get (cd_runs t) (cti_evalRunId input) = Some run \<and> pr_status run = ''COMPLETED'' \<and>
      map_option JStr (pr_orgId run) = Some org) (checked_run input org) s"
  unfolding checked_run_def
proof (rule ensures_bind [OF ensures_read [where P = "\<lambda>found t. \<forall>run. found = Some run \<longrightarrow> pr_status run = ''COMPLETED'' \<longrightarrow>
      tbl_get (cd_runs t) (cti_evalRunId input) = Some run"]])
  show "\<forall>run. tbl_get (cd_runs t) (cti_evalRunId input) = Some run \<longrightarrow> pr_status run = ''COMPLETED'' \<longrightarrow>
      tbl_get (cd_runs u) (cti_evalRunId input) = Some run" if "cut_grows t u" for t u
    using that by (simp add: cut_grows_def runs_stay_def)
next
  fix found and t :: cut_db
  assume found: "\<forall>run. found = Some run \<longrightarrow> pr_status run = ''COMPLETED'' \<longrightarrow>
      tbl_get (cd_runs t) (cti_evalRunId input) = Some run"
  have stay: "tbl_get (cd_runs u) (cti_evalRunId input) = Some run"
    if "found = Some run" "pr_status run = ''COMPLETED''" "cut_grows t u" for run u
    using found that by (simp add: cut_grows_def runs_stay_def)
  show "ensures A env (\<lambda>x t. case x of (run, suite) \<Rightarrow> tbl_get (cd_runs t) (cti_evalRunId input) = Some run \<and> pr_status run = ''COMPLETED'' \<and>
      map_option JStr (pr_orgId run) = Some org)
    (case found of None \<Rightarrow> throwT (ValidationError ''eval run not found'')
     | Some evalRun \<Rightarrow>
         bindT (guardT (pr_status evalRun = ''COMPLETED'') (ValidationError ''eval run must be COMPLETED'')) (\<lambda>_.
         bindT (guardT (map_option JStr (pr_orgId evalRun) = Some org)
                  (SecurityError ''eval run belongs to a different org'')) (\<lambda>_.
         bindT (readT (\<lambda>s. tbl_get (cd_suites s) (pr_suiteId evalRun))) (\<lambda>suite.
         case suite of None \<Rightarrow> throwT (ValidationError ''eval suite not found'')
         | Some evalSuite \<Rightarrow>
             bindT (guardT (map_option JStr (psu_orgId evalSuite) = Some org)
                      (SecurityError ''eval suite belongs to a different org'')) (\<lambda>_.
             bindT (guardT (psu_version evalSuite = pr_suiteVersion evalRun)
                      (ValidationError ''suiteVersion does not match'')) (\<lambda>_.
             retT (evalRun, evalSuite))))))) t"
    by (intro ensures_option ensures_throw ensures_bind [OF ensures_guard] ensures_then [OF reads_readT] ensures_ret)
      (auto intro!: stay, (meson ct.R_trans)+)
qed

lemma put_release_inv:
  assumes inv: "cut_inv env t" and id: "rel_releaseId rel = computeReleaseHash (cv_sha256 env) rel"
    and run: "\<And>u. cut_grows t u \<Longrightarrow> pins_run u rel"
  shows "cut_inv env (snd (put_release rel t)) \<and> cut_grows t (snd (put_release rel t)) \<and>
    (\<forall>u. fst (put_release rel t) = Inr () \<longrightarrow> cut_grows (snd (put_release rel t)) u \<longrightarrow>
       tbl_get (cd_releases u) (rel_releaseId rel) = Some rel)"
proof (cases "tbl_get (cd_releases t) (rel_releaseId rel)")
  case None
  have run_t: "pins_run t rel"
    by (rule run) (rule ct.R_refl)
  have pins: "pins_run (t\<lparr>cd_releases := x\<rparr>) r = pins_run t r" for x r
    by (simp add: pins_run_def)
  have "cut_grows t (t\<lparr>cd_releases := tbl_put (rel_releaseId rel) rel (cd_releases t)\<rparr>)"
    using None by (auto simp: cut_grows_def runs_stay_def tbl.get_put)
  moreover have "cut_inv env (t\<lparr>cd_releases := tbl_put (rel_releaseId rel) rel (cd_releases t)\<rparr>)"
    using inv id run_t by (auto simp: cut_inv_def pins tbl.get_put)
  moreover have "tbl_get (cd_releases u) (rel_releaseId rel) = Some rel"
    if "cut_grows (t\<lparr>cd_releases := tbl_put (rel_releaseId rel) rel (cd_releases t)\<rparr>) u" for u
    using that by (simp add: cut_grows_def tbl.get_put)
  ultimately show ?thesis
    using None by (simp add: put_release_def)
next
  case (Some row)
  with inv show ?thesis
    by (simp add: put_release_def ct.R_refl)
qed

definition stored :: "agent_release \<Rightarrow> cut_db \<Rightarrow> bool" where
  "stored rel t \<longleftrightarrow> tbl_get (cd_releases t) (rel_releaseId rel) = Some rel"

lemma stored_grows: "stored rel s \<Longrightarrow> cut_grows s t \<Longrightarrow> stored rel t"
  by (simp add: stored_def cut_grows_def)

lemma ensures_unless:
  assumes "ensures A env (\<lambda>_. P) p s" and stable: "\<And>t u. P t \<Longrightarrow> cut_grows t u \<Longrightarrow> P u"
  shows "ensures A env (\<lambda>x t. x \<noteq> None \<longrightarrow> P t) (unless_exists p) s"
  unfolding unless_exists_def ensures_def
proof (rule ct.catchT, rule ct.mono)
  show "safe A (\<lambda>M :: unit multiset. cut_inv env) cut_grows (\<lambda>g r t. \<forall>x. r = Inr x \<longrightarrow> x \<noteq> None \<longrightarrow> P t)
      (bindT p (\<lambda>a. retT (Some a))) () s"
    unfolding ensures_def [symmetric]
    by (rule ensures_bind [OF assms(1)]) (auto intro: ensures_ret stable)
  fix g :: unit and r :: "exn + 'a option" and t
  assume "cut_grows s t" and "\<forall>x. r = Inr x \<longrightarrow> x \<noteq> None \<longrightarrow> P t"
  then show "safe A (\<lambda>M :: unit multiset. cut_inv env) cut_grows (\<lambda>g r t. \<forall>x. r = Inr x \<longrightarrow> x \<noteq> None \<longrightarrow> P t)
      (case r of Inl e \<Rightarrow> if e = Sdk ConditionalCheckFailedException then retT None else throwT e
       | Inr a \<Rightarrow> Ret (Inr a)) g t"
    by (cases r) (auto simp: retT_def throwT_def intro: stable)
qed

lemma ensures_putRelease:
  assumes "pins_run s input"
  shows "ensures A env stored (putRelease env input) s"
proof -
  let ?rel = "input\<lparr>rel_releaseId := computeReleaseHash (cv_sha256 env) input\<rparr>"
  have pins: "pins_run u ?rel" if "cut_grows s u" for u
    using pins_run_grows [OF assms that] by (simp add: pins_run_def)
  have put: "ensures A env (\<lambda>_. stored ?rel) (callT (put_release ?rel)) s"
  proof (rule ensures_call)
    fix u assume "cut_grows s u" and "cut_inv env u"
    with pins put_release_inv [of env u ?rel] ct.R_trans
    show "cut_inv env (snd (put_release ?rel u)) \<and> cut_grows u (snd (put_release ?rel u)) \<and>
      (\<forall>a v. fst (put_release ?rel u) = Inr a \<longrightarrow> cut_grows (snd (put_release ?rel u)) v \<longrightarrow> stored ?rel v)"
      by (simp add: stored_def)
  qed
  show ?thesis
    unfolding putRelease_def Let_def
  proof (rule ensures_bind [OF ensures_unless [OF put stored_grows]])
    fix created :: "unit option" and t
    assume created: "created \<noteq> None \<longrightarrow> stored ?rel t"
    have "ensures A env stored (bindT (getRelease (rel_releaseId ?rel)) (\<lambda>existing.
        case existing of Some row \<Rightarrow> retT row | None \<Rightarrow> throwT (Sdk ConditionalCheckFailedException))) t"
      unfolding getRelease_def
      by (rule ensures_bind [OF ensures_read [where P = "\<lambda>found u. \<forall>row. found = Some row \<longrightarrow> stored row u"]])
        (auto simp: cut_inv_def stored_def cut_grows_def intro: ensures_ret stored_grows ensures_throw split: option.split)
    then show "ensures A env stored (case created of Some _ \<Rightarrow> retT ?rel
        | None \<Rightarrow> bindT (getRelease (rel_releaseId ?rel)) (\<lambda>existing.
            case existing of Some row \<Rightarrow> retT row | None \<Rightarrow> throwT (Sdk ConditionalCheckFailedException))) t"
      using created by (auto intro: ensures_ret stored_grows split: option.split)
  qed
qed

lemma pins_release_input:
  assumes "tbl_get (cd_runs t) (cti_evalRunId input) = Some run" and "pr_status run = ''COMPLETED''"
    and "map_option JStr (pr_orgId run) = Some org" and "con_evalEvidence pins =
      \<lparr>ev_evalRunId = cti_evalRunId input, ev_evalSuiteId = pr_suiteId run, ev_evalSuiteVersion = pr_suiteVersion run\<rparr>"
  shows "pins_run t (release_input pins input org createdAt author)"
  using assms by (auto simp: pins_run_def release_input_def constituents.defs)

lemma ensures_checked_pins:
  "ensures A env (\<lambda>x t. case x of (pins, run, suite) \<Rightarrow> tbl_get (cd_runs t) (cti_evalRunId input) = Some run \<and>
      pr_status run = ''COMPLETED'' \<and> map_option JStr (pr_orgId run) = Some org \<and> con_evalEvidence pins =
      \<lparr>ev_evalRunId = cti_evalRunId input, ev_evalSuiteId = pr_suiteId run, ev_evalSuiteVersion = pr_suiteVersion run\<rparr>)
    (checked_pins env input ctx org) s"
  unfolding checked_pins_def
  by (rule ensures_then [OF reads_cut_permission], rule ensures_then [OF reads_record], rule ensures_then [OF reads_spec],
      rule ensures_bind [OF ensures_checked_run])
    (auto simp: assembled_def Let_def cut_grows_def runs_stay_def intro!: ensures_ret)

lemma ensures_mark: "ensures A env (\<lambda>_ _. True) (markEvalSuiteReferencedForRelease suiteId suite refId) s"
  unfolding markEvalSuiteReferencedForRelease_def Let_def updateT_def
  by (rule ensures_call) (auto simp: set_references_def cut_inv_def pins_run_def cut_grows_def runs_stay_def)

lemma ensures_cut: "ensures A env stored (cutAgentRelease env input ctx org) s"
  unfolding cutAgentRelease_def
proof (rule ensures_bind [OF ensures_checked_pins])
  fix x :: "constituents \<times> pinned_run \<times> pinned_suite" and t :: cut_db
  assume "case x of (pins, run, suite) \<Rightarrow> tbl_get (cd_runs t) (cti_evalRunId input) = Some run \<and>
      pr_status run = ''COMPLETED'' \<and> map_option JStr (pr_orgId run) = Some org \<and> con_evalEvidence pins =
      \<lparr>ev_evalRunId = cti_evalRunId input, ev_evalSuiteId = pr_suiteId run, ev_evalSuiteVersion = pr_suiteVersion run\<rparr>"
  then obtain pins run suite where x: "x = (pins, run, suite)"
    and pins: "pins_run t (release_input pins input org createdAt author)" for createdAt author
    using pins_release_input by (cases x) auto
  have "ensures A env stored (bindT (putRelease env (release_input pins input org (cv_iso env ms) (ac_userId ctx))) (\<lambda>release.
      bindT (markEvalSuiteReferencedForRelease (pr_suiteId run) suite (cti_evalRunId input)) (\<lambda>_. retT release))) u"
    if "cut_grows t u" for u ms
    by (rule ensures_bind [OF ensures_putRelease [OF pins_run_grows [OF pins that]]], rule ensures_bind [OF ensures_mark],
        rule ensures_ret, rule stored_grows, rule stored_grows, assumption+)
  then show "ensures A env stored (case x of (pins, evalRun, evalSuite) \<Rightarrow> bindT clockT (\<lambda>ms.
      bindT (putRelease env (release_input pins input org (cv_iso env ms) (ac_userId ctx))) (\<lambda>release.
      bindT (markEvalSuiteReferencedForRelease (pr_suiteId evalRun) evalSuite (cti_evalRunId input)) (\<lambda>_.
      retT release)))) t"
    unfolding x prod.case by (rule ensures_then [OF reads_clock])
qed

lemma ensures_handler: "ensures A env stored (release_handler env event) s"
  unfolding release_handler_def
  by (cases "ge_arguments event") (auto intro: ensures_throw ensures_cut split: option.split)

section \<open>Reachable states\<close>

abbreviation cut_schedules where
  "cut_schedules A env \<equiv> runs_to A (cut_launched env) cut_others"

abbreviation cut_accounted where
  "cut_accounted A env \<equiv> concurrent.annotated A (\<lambda>M :: unit multiset. cut_inv env) cut_grows
     (\<lambda>g r t. \<forall>a. r = Inr a \<longrightarrow> stored a t)"

lemma cut_others_inv: "cut_others s t \<Longrightarrow> cut_inv env s \<Longrightarrow> cut_inv env t \<and> cut_grows s t"
  by (fastforce simp: cut_others_def cut_inv_def pins_run_def cut_grows_def runs_stay_def)

lemma cut_runs:
  assumes "cut_schedules A env (ps, s) (qs, t)" and "cut_accounted A env ps gs s"
  shows "\<exists>hs. cut_accounted A env qs hs t \<and> cut_grows s t"
proof -
  have "\<exists>hs. cut_accounted A env qs hs t \<and> cut_grows s t \<and> length ps \<le> length qs \<and>
      (\<forall>i < length ps. \<forall>a. ps ! i = Ret a \<longrightarrow> qs ! i = Ret a \<and> hs ! i = gs ! i)"
  proof (rule ct.annotated_runs [OF _ _ assms])
    fix s p and M :: "unit multiset"
    assume "cut_launched env s p" and "cut_inv env s"
    then show "\<exists>g. cut_inv env s \<and> safe A (\<lambda>M :: unit multiset. cut_inv env) cut_grows (\<lambda>g r t. \<forall>a. r = Inr a \<longrightarrow> stored a t) p g s"
      using ensures_handler by (auto simp: cut_launched_def ensures_def)
  qed (rule cut_others_inv)
  then show ?thesis
    by blast
qed

section \<open>An example\<close>

definition demo_cut_env :: cut_env where
  "demo_cut_env = \<lparr>cv_iso = (\<lambda>_. ''now''), cv_sha256 = (\<lambda>text. text),
     cv_json_parse = (\<lambda>_. Some (JObj [(''orgId'', JStr ''org'')])), cv_registryId = True,
     cv_membershipTable = True, cv_userPoolId = False\<rparr>"

definition demo_cut_input :: "string \<Rightarrow> string list \<Rightarrow> cut_input" where
  "demo_cut_input semver toolNames = \<lparr>cti_agentTargetId = ''agent'', cti_semver = semver,
     cti_registryRecordId = ''rec'', cti_execSpecId = ''spec'', cti_evalRunId = ''run1'',
     cti_promptVersions = [], cti_modelConfigSnapshots = [], cti_toolConfigs = map demo_tool toolNames,
     cti_policySnapshot = \<lparr>ps_enforcementMode = ''strict'', ps_ruleSetVersion = ''1'', ps_authorityUnitGrantIds = []\<rparr>\<rparr>"

definition demo_cut_db :: cut_db where
  "demo_cut_db = \<lparr>cd_registry = [(''rec'', \<lparr>rgr_status = ''APPROVED'', rgr_descriptor = Some ''{}''\<rparr>)],
     cd_specs = [(''spec'', \<lparr>esr_status = ''APPROVED'', esr_version = 1, esr_projectId = ''project''\<rparr>)],
     cd_projects = [(''project'', Some ''alice'')], cd_memberships = [(''alice'', Some ''org'')],
     cd_runs = [(''run1'', \<lparr>pr_status = ''COMPLETED'', pr_orgId = Some ''org'', pr_suiteId = ''suite'', pr_suiteVersion = 1\<rparr>)],
     cd_suites = [(''suite'', \<lparr>psu_orgId = Some ''org'', psu_version = 1, psu_references = None\<rparr>)],
     cd_releases = []\<rparr>"

definition demo_cutter :: auth_context where
  "demo_cutter = \<lparr>ac_userId = ''alice'', ac_username = JUndef, ac_groups = JUndef, ac_roles = [''architect'']\<rparr>"

definition demo_cut_event :: "cut_request gql_event" where
  "demo_cut_event =
     \<lparr>ge_identity = JObj [(''sub'', JStr ''alice''), (''custom:organization'', JStr ''org''),
        (''cognito:groups'', JArr [JStr ''architect''])],
      ge_fieldName = ''cutAgentRelease'', ge_arguments = Cut_agent_release (demo_cut_input ''1.0.0'' [''a'', ''b''])\<rparr>"

definition demo_answer :: reply where
  "demo_answer = \<lparr>rp_fault = None, rp_ms = 0, rp_uuid = ''u'', rp_text = None\<rparr>"

definition demo_cut :: "(exn + agent_release) \<times> cut_db" where
  "demo_cut = alone (cutAgentRelease demo_cut_env (demo_cut_input ''1.0.0'' [''a'', ''b'']) demo_cutter (JStr ''org''))
     (\<lambda>_. demo_answer) demo_cut_db"

definition demo_recut :: "(exn + agent_release) \<times> cut_db" where
  "demo_recut = alone (cutAgentRelease demo_cut_env (demo_cut_input ''2.0.0'' [''b'', ''a'']) demo_cutter (JStr ''org''))
     (\<lambda>_. demo_answer) (snd demo_cut)"

definition demo_handled :: "(exn + agent_release) \<times> cut_db" where
  "demo_handled = alone (release_handler demo_cut_env demo_cut_event) (\<lambda>_. demo_answer) demo_cut_db"

definition semver_of :: "exn + agent_release \<Rightarrow> string option" where
  "semver_of r = (case r of Inr rel \<Rightarrow> Some (rel_semver rel) | Inl e \<Rightarrow> None)"

lemma semver_of_Some: "semver_of r = Some v \<longleftrightarrow> (\<exists>rel. r = Inr rel \<and> rel_semver rel = v)"
  by (auto simp: semver_of_def split: sum.splits)

lemma demo_cut_semver: "semver_of (fst demo_cut) = Some ''1.0.0''"
  by code_simp

lemma demo_recut_semver: "semver_of (fst demo_recut) = Some ''1.0.0''"
  by code_simp

lemma demo_handled_semver: "semver_of (fst demo_handled) = Some ''1.0.0''"
  by code_simp

lemma demo_cut_same: "cd_registry (snd demo_cut) = cd_registry demo_cut_db \<and> cd_specs (snd demo_cut) = cd_specs demo_cut_db \<and>
    cd_runs (snd demo_cut) = cd_runs demo_cut_db"
proof -
  obtain rel where "fst demo_cut = Inr rel"
    using demo_cut_semver by (auto simp: semver_of_Some)
  then show ?thesis
    by (intro cut_keeps) (simp add: demo_cut_def prod_eq_iff)
qed

text \<open>A mark made from a stale suite drops the references added since.\<close>

lemma stale_mark_drops:
  assumes "r \<notin> set (case psu_references suite of Some refs \<Rightarrow> refs | None \<Rightarrow> [])" and "r \<noteq> referenceId"
    and "alone (markEvalSuiteReferencedForRelease suiteId suite referenceId) fs s = (Inr a, t)"
  shows "\<exists>row refs. tbl_get (cd_suites t) suiteId = Some row \<and> psu_references row = Some refs \<and> r \<notin> set refs"
  using assms
  by (auto simp: markEvalSuiteReferencedForRelease_def updateT_def callT_def retT_def throwT_def set_references_def Let_def
      split: option.splits)

section \<open>Properties\<close>



text \<open>C26. Cutting again is idempotent by content: a second cut that pins the same content in any order,
  whatever its semantic version, agent target or caller, answers the release of the first.\<close>

theorem recut_returns_first:
  assumes "alone (cutAgentRelease env input ctx org) fs s = (Inr rel, t)"
    and "alone (cutAgentRelease env input' ctx' org') fs' u = (Inr rel', v)"
    and "tbl_get (cd_registry u) (cti_registryRecordId input) = tbl_get (cd_registry s) (cti_registryRecordId input)"
    and "tbl_get (cd_specs u) (cti_execSpecId input) = tbl_get (cd_specs s) (cti_execSpecId input)"
    and "tbl_get (cd_runs u) (cti_evalRunId input) = tbl_get (cd_runs s) (cti_evalRunId input)"
    and "\<And>i row. tbl_get (cd_releases t) i = Some row \<Longrightarrow> tbl_get (cd_releases u) i = Some row"
    and "cti_registryRecordId input' = cti_registryRecordId input" and "cti_execSpecId input' = cti_execSpecId input"
    and "cti_evalRunId input' = cti_evalRunId input"
    and "mset (cti_promptVersions input') = mset (cti_promptVersions input)" and "distinct (map fst (cti_promptVersions input))"
    and "mset (cti_modelConfigSnapshots input') = mset (cti_modelConfigSnapshots input)"
    and "mset (cti_toolConfigs input') = mset (cti_toolConfigs input)"
    and "cti_policySnapshot input' = cti_policySnapshot input"
  shows "rel' = rel"
proof -
  obtain r spec run suite at1 t1 where first: "record_ok env s input org r" "spec_ok env s input org spec"
      "pinned_ok s input org run suite"
      "\<exists>gs. alone (putRelease env (release_input (assembled env input r spec run) input org at1 (ac_userId ctx))) gs s = (Inr rel, t1)"
      "\<exists>hs a. alone (markEvalSuiteReferencedForRelease (pr_suiteId run) suite (cti_evalRunId input)) hs t1 = (Inr a, t)"
    by (rule cut_Inr [OF assms(1)])
  obtain r' spec' run' suite' at2 u1 where second: "record_ok env u input' org' r'" "spec_ok env u input' org' spec'"
      "pinned_ok u input' org' run' suite'"
      "\<exists>gs. alone (putRelease env (release_input (assembled env input' r' spec' run') input' org' at2 (ac_userId ctx'))) gs u = (Inr rel', u1)"
    by (rule cut_Inr [OF assms(2)])
  have same: "r' = r" "spec' = spec" "run' = run"
    using first(1-3) second(1-3) assms(3-5,7-9) by (auto simp: record_ok_def spec_ok_def pinned_ok_def)
  let ?id = "computeReleaseHash (cv_sha256 env) (assembled env input r spec run)"
  have "tbl_get (cd_releases t1) ?id = Some rel"
    using first(4) putRelease_Inr by fastforce
  then have "tbl_get (cd_releases u) ?id = Some rel"
    using first(5) mark_Inr assms(6) by metis
  moreover have "same_pins (assembled env input r spec run) (assembled env input' r spec run)"
    using assms(7-10,12-14) by (simp add: same_pins_def assembled_def Let_def)
  then have "computeReleaseHash (cv_sha256 env) (assembled env input' r spec run) = ?id"
    using canonical_constituents [of "assembled env input r spec run" "assembled env input' r spec run"] assms(11)
    by (simp add: computeReleaseHash_def canonicalStringify_def assembled_def Let_def)
  ultimately show ?thesis
    using second(4) same putRelease_Inr [of env "release_input (assembled env input' r spec run) input' org' at2 (ac_userId ctx')"]
    by fastforce
qed

theorem recut_returns_first_witness: "fst demo_recut = fst demo_cut"
proof -
  obtain rel rel' where rel: "fst demo_cut = Inr rel" "fst demo_recut = Inr rel'"
    using demo_cut_semver demo_recut_semver by (auto simp: semver_of_Some)
  then have cuts: "alone (cutAgentRelease demo_cut_env (demo_cut_input ''1.0.0'' [''a'', ''b'']) demo_cutter (JStr ''org''))
      (\<lambda>_. demo_answer) demo_cut_db = (Inr rel, snd demo_cut)"
    "alone (cutAgentRelease demo_cut_env (demo_cut_input ''2.0.0'' [''b'', ''a'']) demo_cutter (JStr ''org''))
      (\<lambda>_. demo_answer) (snd demo_cut) = (Inr rel', snd demo_recut)"
    by (simp_all add: demo_cut_def demo_recut_def prod_eq_iff)
  have "rel' = rel"
    by (rule recut_returns_first [OF cuts]) (simp_all add: demo_cut_same demo_cut_input_def)
  with rel show ?thesis
    by simp
qed

text \<open>C15. The releases under any interleaving of cuts, with faults at every call: a stored release never
  changes, is stored under the hash of its own content, and pins a completed run of its own
  organisation with the suite and version of that run; and what a finished cut answered is stored.\<close>

theorem releases_content_addressed:
  assumes "cd_releases s = []" and "cut_schedules A env ([], s) (ps, t)" and "cut_schedules A env (ps, t) (qs, u)"
  shows "(\<forall>i rel. tbl_get (cd_releases t) i = Some rel \<longrightarrow> tbl_get (cd_releases u) i = Some rel) \<and>
    (\<forall>i rel. tbl_get (cd_releases u) i = Some rel \<longrightarrow> rel_releaseId rel = i \<and>
       i = computeReleaseHash (cv_sha256 env) rel \<and>
       (\<exists>run. tbl_get (cd_runs u) (ev_evalRunId (con_evalEvidence rel)) = Some run \<and> pr_status run = ''COMPLETED'' \<and>
          pr_orgId run = Some (rel_orgId rel) \<and> pr_suiteId run = ev_evalSuiteId (con_evalEvidence rel) \<and>
          pr_suiteVersion run = ev_evalSuiteVersion (con_evalEvidence rel))) \<and>
    (\<forall>rel. Ret (Inr rel) \<in> set qs \<longrightarrow> tbl_get (cd_releases u) (rel_releaseId rel) = Some rel)"
proof -
  have "cut_accounted A env [] [] s"
    using assms(1) by (simp add: ct.annotated_def cut_inv_def tbl_get_def)
  with cut_runs [OF assms(2)] obtain gs where "cut_accounted A env ps gs t"
    by blast
  with cut_runs [OF assms(3)] obtain hs where hs: "cut_accounted A env qs hs u" and grow: "cut_grows t u"
    by blast
  have "tbl_get (cd_releases u) (rel_releaseId rel) = Some rel" if ret: "Ret (Inr rel) \<in> set qs" for rel
  proof -
    obtain i where "i < length qs" "qs ! i = Ret (Inr rel)"
      using ret by (auto simp: in_set_conv_nth)
    with hs have "\<forall>v. cut_grows u v \<longrightarrow> stored rel v"
      by (fastforce simp: ct.annotated_def)
    with ct.R_refl show ?thesis
      by (auto simp: stored_def)
  qed
  moreover have "cut_inv env u"
    using hs by (simp add: ct.annotated_def)
  ultimately show ?thesis
    using grow by (auto simp: cut_inv_def pins_run_def cut_grows_def)
qed

theorem releases_content_addressed_witness:
  "\<exists>rel. fst demo_handled = Inr rel \<and> tbl_get (cd_releases (snd demo_handled)) (rel_releaseId rel) = Some rel"
proof -
  obtain rel where rel: "fst demo_handled = Inr rel"
    using demo_handled_semver by (auto simp: semver_of_Some)
  have "cut_schedules (\<lambda>_. True) demo_cut_env ([], demo_cut_db) ([] @ [Ret (fst demo_handled)], snd demo_handled)"
    by (rule launch_alone [where p = "release_handler demo_cut_env demo_cut_event" and fs = "\<lambda>_. demo_answer"])
      (auto simp: cut_launched_def demo_handled_def)
  from releases_content_addressed [OF _ this rtranclp.rtrancl_refl] rel show ?thesis
    by (simp add: demo_cut_db_def)
qed

end
