(* ===== verification/Pagination.thy ===== *)
theory Pagination
  imports Rollback
begin

text \<open>
  The loops over the pages of a query: \<open>queryActiveCanaries\<close>
  (lambda/environment-release-pointer-store.ts) and \<open>readCandidateArmMetrics\<close>
  (lambda/utils/rollback-metrics-reader.ts) ask for the next page until an answer has no
  \<open>LastEvaluatedKey\<close>. Nothing bounds the loops, so they are partial functions whose value is
  \<open>None\<close> when they never return. What they rely on of the service is the locale
  \<open>paged_query\<close>; the other theories read a query in one piece, which the loops are proved to do.
\<close>

section \<open>The loops\<close>

type_synonym ('k, 'v) pages = "'k option \<Rightarrow> 'v list \<times> 'k option"

text \<open>\<open>do \<dots> while (exclusiveStartKey)\<close>: the rows of every page go into an accumulator.\<close>

partial_function (option) each_page ::
  "('k, 'v) pages \<Rightarrow> ('a \<Rightarrow> 'v list \<Rightarrow> 'a) \<Rightarrow> 'a \<Rightarrow> 'k option \<Rightarrow> 'a option" where
  "each_page page step acc exclusiveStartKey = (case page exclusiveStartKey of
       (items, None) \<Rightarrow> Some (step acc items)
     | (items, Some k) \<Rightarrow> each_page page step (step acc items) (Some k))"

definition paged_active_canaries :: "('k, pointer) pages \<Rightarrow> pointer list option" where
  "paged_active_canaries page = each_page page (\<lambda>rows items. rows @ items) [] None"

definition paged_arm_metrics :: "('k, usage_row) pages \<Rightarrow> string \<Rightarrow> candidate_arm_metrics option" where
  "paged_arm_metrics page candidate =
     map_option arm_result (each_page page (foldl (arm_step candidate)) no_sums None)"

section \<open>Pages\<close>

text \<open>
  What a cursor still has to return, for a query without a filter on rows that do not change while
  it runs: an answer without a key is the last one, an answer with a key has rows.
\<close>

locale paged_query =
  fixes remaining :: "'k option \<Rightarrow> 'v list" and page :: "('k, 'v) pages"
  assumes last_page: "page start = (items, None) \<Longrightarrow> remaining start = items"
    and next_page: "page start = (items, Some k) \<Longrightarrow> items \<noteq> [] \<and> remaining start = items @ remaining (Some k)"
begin

lemma shorter: "page start = (items, Some k) \<Longrightarrow> length (remaining (Some k)) < length (remaining start)"
  using next_page [of start items k] by simp

lemma each_page_from:
  assumes "\<And>acc xs ys. step acc (xs @ ys) = step (step acc xs) ys"
  shows "each_page page step acc start = Some (step acc (remaining start))"
proof (induction "length (remaining start)" arbitrary: acc start rule: less_induct)
  case less
  obtain items cursor where page: "page start = (items, cursor)"
    by fastforce
  show ?case
  proof (cases cursor)
    case None
    with page last_page [of start items] show ?thesis
      by (simp add: each_page.simps)
  next
    case (Some k)
    with page less [of "Some k"] shorter [of start items k] next_page [of start items k] assms show ?thesis
      by (simp add: each_page.simps [of page step acc start])
  qed
qed

end

text \<open>A service whose cursor is the number of rows returned, with any size of each page.\<close>

definition position :: "nat option \<Rightarrow> nat" where
  "position start = (case start of None \<Rightarrow> 0 | Some i \<Rightarrow> i)"

definition position_page :: "(nat \<Rightarrow> nat) \<Rightarrow> 'v list \<Rightarrow> (nat, 'v) pages" where
  "position_page page_size rows start =
     (let i = position start; n = Suc (page_size i)
      in (take n (drop i rows), if i + n < length rows then Some (i + n) else None))"

interpretation pp: paged_query "\<lambda>start. drop (position start) rows" "position_page page_size rows" for page_size rows
proof unfold_locales
  fix start items
  assume "position_page page_size rows start = (items, None)"
  then show "drop (position start) rows = items"
    by (auto simp: position_page_def Let_def split: if_splits)
next
  fix start items k
  assume "position_page page_size rows start = (items, Some k)"
  then have items: "items = take (Suc (page_size (position start))) (drop (position start) rows)"
    and k: "k = position start + Suc (page_size (position start))" "k < length rows"
    by (auto simp: position_page_def Let_def split: if_splits)
  have "drop (position start) rows = items @ drop k rows"
    unfolding items k(1) by (metis add.commute append_take_drop_id drop_drop)
  with items k(2) k(1) show "items \<noteq> [] \<and> drop (position start) rows = items @ drop (position (Some k)) rows"
    by (auto simp: position_def)
qed

text \<open>The model's own reads are what the loops return, page after page.\<close>

lemma paged_active_canaries_positions:
  "paged_active_canaries (position_page page_size (query_active_canaries st)) = Some (query_active_canaries st)"
  unfolding paged_active_canaries_def by (subst pp.each_page_from) (simp_all add: position_def)

text \<open>A service that always answers with a key keeps the loop from ever returning.\<close>

lemma endless_pages:
  fixes page :: "('k, 'v) pages" and step :: "'a \<Rightarrow> 'v list \<Rightarrow> 'a"
  assumes "\<And>start. snd (page start) \<noteq> None"
  shows "each_page page step acc start = None"
proof -
  have "\<exists>i. snd (page i) = None" if "each_page page step acc start = Some r" for r
  proof (rule each_page.raw_induct [where P = "\<lambda>page _ _ _ _. \<exists>i. snd (page i) = None", OF _ that])
    fix loop :: "('k, 'v) pages \<Rightarrow> ('a \<Rightarrow> 'v list \<Rightarrow> 'a) \<Rightarrow> 'a \<Rightarrow> 'k option \<Rightarrow> 'a option"
    fix page :: "('k, 'v) pages" and step acc start r
    assume loop: "\<And>page step acc start r. loop page step acc start = Some r \<Longrightarrow> \<exists>i. snd (page i) = None"
      and result: "(case page start of (items, None) \<Rightarrow> Some (step acc items)
        | (items, Some k) \<Rightarrow> loop page step (step acc items) (Some k)) = Some r"
    obtain items cursor where page: "page start = (items, cursor)"
      by fastforce
    show "\<exists>i. snd (page i) = None"
    proof (cases cursor)
      case None
      with page show ?thesis
        by (intro exI [of _ start]) simp
    next
      case (Some k)
      with result page have "loop page step (step acc items) (Some k) = Some r"
        by simp
      then show ?thesis
        by (rule loop)
    qed
  qed
  with assms show ?thesis
    by (metis not_None_eq)
qed

section \<open>Termination\<close>

text \<open>C31. The loops over pages return, whatever the sizes of the pages, with what one query of all rows
  would give: the scheduled evaluator sees every active canary, and the metrics of an arm are those
  of all the usage rows in the window.\<close>

theorem paged_reads_terminate:
  assumes "paged_query canaries canary_page" and "canaries None = query_active_canaries st"
    and "paged_query usage usage_page" and "usage None = usage_rows w orgId windowStart windowEnd"
  shows "paged_active_canaries canary_page = Some (query_active_canaries st) \<and>
    paged_arm_metrics usage_page candidate = Some (arm_metrics candidate (usage_rows w orgId windowStart windowEnd))"
  using paged_query.each_page_from [OF assms(1), of "\<lambda>rows items. rows @ items" "[]" None]
    paged_query.each_page_from [OF assms(3), of "foldl (arm_step candidate)" no_sums None] assms(2,4)
  by (simp add: paged_active_canaries_def paged_arm_metrics_def arm_metrics_def)

theorem paged_reads_terminate_witness:
  "paged_active_canaries (position_page (\<lambda>_. 0) (query_active_canaries (w_store rb_world))) =
     Some (query_active_canaries (w_store rb_world)) \<and>
   paged_arm_metrics (position_page (\<lambda>_. 0) (usage_rows rb_world ''org'' ''0'' ''9'')) ''r1'' =
     Some (arm_metrics ''r1'' (usage_rows rb_world ''org'' ''0'' ''9''))"
  by (rule paged_reads_terminate [OF pp.paged_query_axioms _ pp.paged_query_axioms]) (simp_all add: position_def)

end
