(* ===== verification/Spec2Isabelle.thy ===== *)
theory Spec2Isabelle
  imports Tables Commands EvalComparison ReleaseGate GateEvidence CanaryAssignment PolicyResolver EvalRunTheorems ReleaseCutTheorems Pagination
begin

text \<open>
  Verification of the release pipeline of Citadel (aws-samples/sample-citadel, TypeScript under
  src/backend/src; file names below are relative to it): evaluation of agents, the gate a release
  passes, promotion of a release from environment to environment, canary release and automatic
  rollback.

  \<^bold>\<open>The program.\<close> An evaluation run is started by lambda/eval-run-resolver.ts, which stores the run
  and a row per case and queues the cases; eval-runner.ts dispatches each to a workflow or, for a
  conversation, to eval-conversation-worker.ts, and sweeps the cases that time out;
  eval-run-completion.ts counts the cases that ended, whichever handler ended them, and completes
  the run. The cases are scored (lambda/utils/eval-scoring.ts, eval-trajectory.ts), rolled up
  (eval-score-aggregate.ts) and compared with a baseline (eval-comparison.ts). A release, cut by
  release-resolver.ts from approved parts and a completed run, is an immutable bundle of
  constituents under the hash of its content (release-store.ts, utils/release-hash.ts). An
  environment pointer says
  which release of an agent runs in DEV, STAGING or PROD, and may carry a canary: a candidate
  release with its share of the traffic. The GraphQL resolver
  lambda/environment-release-pointer-resolver.ts moves pointers: it checks permission,
  organisation, the order of the environments, the gate, the approval and the ceiling of the
  canary, and writes the pointer with its history row in one conditional transaction
  (environment-release-pointer-store.ts, environment-release-pointer-history-store.ts). A
  scheduled job (agent-release-rollback-evaluator.ts) measures every canary and aborts those that
  breach their rollback policy. Both read the organisation's policy row
  (promotion-policy-store.ts), which administrators write through promotion-policy-resolver.ts,
  and both write to the governance ledger, once per decision.

  \<^bold>\<open>The theories.\<close>
  \<^item> Prelude, Commands, Tables: JavaScript values and rounding; asynchronous functions that may
    throw as commands over a state, with inversion and weakest-precondition rules; key-value
    tables. The locale \<open>kv_store\<close> is what the code relies on of a table it reads by key, writes
    whole and queries in key order; the model's tables interpret it.
  \<^item> EvalTypes, EvalTrajectory, EvalScoring, EvalAggregate, EvalComparison: the pure evaluation.
    Lemmas: canonical score vectors, the specification of the sequence checks, exact counts and
    percentiles, the verdict from the dimensions, independence of the order of the cases.
  \<^item> Threads, Platform: handlers that run at the same time, as threads of single calls of the
    platform, with a pool that interleaves them and the locale \<open>concurrent\<close>, the proof rule that
    gives every thread a token for the effects it owes; the calls and the platform's replies.
  \<^item> EvalRuns: the handlers of evaluation runs. EvalRunInvariant, EvalRunThreads, EvalRunHandlers,
    EvalRunSafety, EvalRunTheorems: the counter of a run is its case count less the recorded cases
    plus the decrements owed, each update keeps that, each handler pays what it owes unless a call
    fails. Lemmas: a completed run has only recorded cases, its completion is announced at most once,
    without faults it completes, and a decrement lost to a fault is never made up.
  \<^item> ReleaseHash, ReleaseCut, ReleaseCutTheorems: the canonical JSON text of the constituents and
    its hash, and the cut of a release. Lemmas: the text determines the value, the hash identifies
    the content up to the order of lists and collisions of SHA-256, a cut has passed every check,
    stored releases never change and are the content of their key.
  \<^item> Pagination: the loops over the pages of a query, with the locale \<open>paged_query\<close> of what they rely
    on. Lemmas: they terminate, and read what the one-piece queries of the other theories read.
  \<^item> ReleaseTypes, PromotionLadder, ReleaseGate: the data of the pipeline, the order of the
    environments, and the pure gate. Lemmas: exactly when the gate passes, that a stricter policy
    passes no more, that a rung check makes the higher policy at least as strict.
  \<^item> LayeredConfig, PolicyStore, RollbackPolicy: the merge of layered policies, whose contract
    is the locale \<open>layered_config\<close>, interpreted for the promotion and for the rollback policy;
    the readability of a stored row; the pure rollback decision. Lemmas: the merge refines the
    choice of the first valid source, an unreadable row fails closed for promotion and safe for
    rollback.
  \<^item> LineDiff, ReleaseDiff, ReleaseDiffQuery: the line diff against the length of a longest
    common subsequence, the diff of two releases, the query of the caller's releases.
  \<^item> PointerStore: the conditional move of a pointer with its history, the index of canaries and
    the rollback floor derived from the history. Lemmas: the invariant that the history of every
    pointer has one row for each version from 1 to the current one and ends in the current
    release; reads and conditional writes of concurrent promoters as an inductive step relation,
    of which at most one wins per version.
  \<^item> World: the state the handlers share (tables, flag cache, published events, call counter)
    and the platform's answers. Auth, Governance, GateEvidence: identity and permissions, the
    enforcement flag with its cache and the three write-once writers of the ledger, the evidence
    of the gate with the organisation checked at each read.
  \<^item> PointerResolver, PointerSafety, PointerTheorems: the operations and handler of the
    resolver; what each part may change, by rules in the collection \<open>keeps_intros\<close> and the locale \<open>guarantee\<close> of
    reflexive and transitive relations between worlds; the properties of promotion and canary.
  \<^item> Rollback, CanaryAssignment, PolicyResolver: the scheduled evaluator, the assignment of
    callers to arms, and the administrators' resolver, composed with the policy store and the
    ladder check.

  \<^bold>\<open>State and effects.\<close> A function that awaits the platform is a command \<open>world \<Rightarrow>
  (exn + 'a) \<times> world\<close>: \<open>Inl\<close> is the exception thrown, and effects made before it stay. Every
  call of the platform takes the next index of a \<open>services\<close> record that says whether it fails, and
  whether a failed write took effect; clock, fresh identifiers, configuration parameters and
  digests are fields of the same record. A theorem holds for every such record, so for every
  pattern of faults. Evaluation runs and the cut of releases are threads instead: each call is one
  step on the tables, other threads step in between, a fault is part of the reply of a call, a
  thread that is never scheduled again has crashed, and a theorem holds for every schedule, or for
  a thread alone where it says \<open>alone\<close>. A record of the source is a record, a union a datatype, a DynamoDB row or
  GraphQL input that the code does not trust a \<open>jsval\<close>; an attribute that may be absent is an
  option.

  \<^bold>\<open>Numbers, bounds, fuel.\<close> Numbers are exact rationals with the three special values where the
  code can meet them; the rounding of a single double operation is not modelled. Strings are
  sequences of UTF-8 bytes, compared bytewise as DynamoDB does. No definition has fuel: recursion
  is structural or has a measure, loops over a list are recursion over it. The loop over the pages of
  a query is a \<open>partial_function\<close>, whose termination is proved in Pagination from the documented
  behaviour of cursors. The counter of pending cases is an unbounded integer.

  \<^bold>\<open>Parameters.\<close> Code that is not in the repository is an argument: \<open>JSON.parse\<close>,
  \<open>JSON.stringify\<close>, \<open>RegExp.test\<close>, \<open>Date.parse\<close>, \<open>localeCompare\<close>, SHA-256, random identifiers,
  the clock, the parameter store, CloudWatch metrics and the notification bus. A theorem assumes
  nothing of them unless its statement says so.

  \<^bold>\<open>Not modelled.\<close> The pages of the queries other than the two loops of Pagination: each is one
  query. The provenance of a release (git commit, region, model run), the contents of replay
  packages, and the lambdas that load the inputs of the scorers and store their results
  (eval-case-scorer.ts, eval-run-aggregator.ts, eval-scoring-io.ts), whose writes are steps beside
  the evaluation runs. Log lines and readable messages (nothing decides on them), the mapping of
  records to the attribute syntax of DynamoDB, expiry of rows. The Python arbiter, the React front
  end, the CDK stacks and the migration scripts are other languages or declarations. The
  registry and import resolvers, the governance user interface, projects, documents,
  conversations and app publishing are I/O around data this development does not need.
\<close>

end
